(* ===== verification/Prelude.thy ===== *)
theory Prelude
  imports Main
begin

text \<open>
  Shared vocabulary of the development: JSON values as the Flask handlers and PyJWT
  see them, the Python helpers the application relies on (\<open>dict.get\<close> on a parsed
  JSON object, \<open>str.split\<close> and \<open>str.rsplit\<close> with a maximum of one split,
  \<open>str(int)\<close> and \<open>int(str)\<close>), and the generic lemmas about them that the
  component theories use through the collection \<open>py_simps\<close>.
\<close>

named_theorems py_simps "evaluation rules of the Python helpers of the model"

section \<open>JSON values\<close>

text \<open>
  A JSON document as \<open>json.loads\<close> returns it. Numbers are integers only (JSON
  floats are not modelled). An object keeps its members in document order, duplicates
  included, because \<open>json.loads\<close> keeps the last of two equal keys.
\<close>

datatype json =
    JNull
  | JBool bool
  | JInt int
  | JStr string
  | JArr "json list"
  | JObj "(string \<times> json) list"

text \<open>Python's truth value of the object \<open>json.loads\<close> returns.\<close>

fun py_truthy :: "json \<Rightarrow> bool" where
  "py_truthy JNull = False"
| "py_truthy (JBool b) = b"
| "py_truthy (JInt i) = (i \<noteq> 0)"
| "py_truthy (JStr s) = (s \<noteq> [])"
| "py_truthy (JArr xs) = (xs \<noteq> [])"
| "py_truthy (JObj kvs) = (kvs \<noteq> [])"

text \<open>
  \<open>data.get(k)\<close> on the dictionary \<open>json.loads\<close> built: the last member with key
  \<open>k\<close>, and Python's \<open>None\<close> (here \<open>JNull\<close>, as JSON \<open>null\<close>) when there is none.
\<close>

definition py_get :: "(string \<times> json) list \<Rightarrow> string \<Rightarrow> json" where
  "py_get kvs k = (case map_of (rev kvs) k of None \<Rightarrow> JNull | Some v \<Rightarrow> v)"

section \<open>Decimal numerals\<close>

text \<open>\<open>str(n)\<close> for a Python int, and SQLite's text form of an INTEGER value.\<close>

definition digit_char :: "nat \<Rightarrow> char" where
  "digit_char d = ''0123456789'' ! d"

fun nat_digits :: "nat \<Rightarrow> string" where
  "nat_digits n =
     (if n < 10 then [digit_char n] else nat_digits (n div 10) @ [digit_char (n mod 10)])"

declare nat_digits.simps [simp del]

definition int_str :: "int \<Rightarrow> string" where
  "int_str i = (if i < 0 then CHR ''-'' # nat_digits (nat (- i)) else nat_digits (nat i))"

definition is_digit :: "char \<Rightarrow> bool" where
  "is_digit c \<longleftrightarrow> (48::nat) \<le> of_char c \<and> of_char c < (58::nat)"

definition digit_val :: "char \<Rightarrow> nat" where
  "digit_val c = of_char c - 48"

definition digits_value :: "string \<Rightarrow> nat" where
  "digits_value s = foldl (\<lambda>acc c. 10 * acc + digit_val c) 0 s"

text \<open>
  \<open>int(s)\<close> on a string of an optional sign and decimal digits. Python also accepts
  surrounding white space and underscores between digits; those forms are not modelled
  and are refused here.
\<close>

definition parse_nat :: "string \<Rightarrow> nat option" where
  "parse_nat s = (if s \<noteq> [] \<and> list_all is_digit s then Some (digits_value s) else None)"

definition parse_int :: "string \<Rightarrow> int option" where
  "parse_int s =
     (case s of
        c # ds \<Rightarrow>
          (if c = CHR ''-'' then map_option (\<lambda>n. - int n) (parse_nat ds)
           else if c = CHR ''+'' then map_option int (parse_nat ds)
           else map_option int (parse_nat s))
      | [] \<Rightarrow> None)"

section \<open>Splitting strings\<close>

text \<open>
  \<open>a, b = s.split(c, 1)\<close>: \<open>None\<close> is the \<open>ValueError\<close> of the unpacking when
  \<open>c\<close> does not occur in \<open>s\<close>.
\<close>

fun split_once :: "char \<Rightarrow> string \<Rightarrow> (string \<times> string) option" where
  "split_once c [] = None"
| "split_once c (x # xs) =
     (if x = c then Some ([], xs) else map_option (\<lambda>(a, b). (x # a, b)) (split_once c xs))"

text \<open>\<open>a, b = s.rsplit(c, 1)\<close>: the split at the last occurrence.\<close>

definition rsplit_once :: "char \<Rightarrow> string \<Rightarrow> (string \<times> string) option" where
  "rsplit_once c s = map_option (\<lambda>(a, b). (rev b, rev a)) (split_once c (rev s))"

text \<open>\<open>a, b, d = s.split(c, 2)\<close>: the rest after the second separator is kept whole.\<close>

definition split3 :: "char \<Rightarrow> string \<Rightarrow> (string \<times> string \<times> string) option" where
  "split3 c s =
     (case split_once c s of
        None \<Rightarrow> None
      | Some (a, r) \<Rightarrow>
          (case split_once c r of None \<Rightarrow> None | Some (b, d) \<Rightarrow> Some (a, b, d)))"

text \<open>\<open>s.split(c)\<close>: every piece between separators, an empty string included.\<close>

fun py_split :: "char \<Rightarrow> string \<Rightarrow> string list" where
  "py_split c [] = [[]]"
| "py_split c (x # xs) =
     (if x = c then [] # py_split c xs
      else (case py_split c xs of [] \<Rightarrow> [[x]] | w # ws \<Rightarrow> (x # w) # ws))"

section \<open>Hex digests\<close>

definition hex_alphabet :: string where
  "hex_alphabet = ''0123456789abcdef''"

definition hex_digit :: "nat \<Rightarrow> char" where
  "hex_digit d = hex_alphabet ! d"

text \<open>\<open>bytes.hex()\<close>: two lower-case hex digits per byte.\<close>

definition hex_str :: "string \<Rightarrow> string" where
  "hex_str s = concat (map (\<lambda>c. [hex_digit (of_char c div 16), hex_digit (of_char c mod 16)]) s)"

section \<open>Lemmas\<close>

subsection \<open>Dictionary lookup\<close>

lemma py_get_snoc [py_simps]:
  "py_get (kvs @ [(k', v)]) k = (if k = k' then v else py_get kvs k)"
  by (simp add: py_get_def)

lemma py_get_Nil [py_simps]: "py_get [] k = JNull"
  by (simp add: py_get_def)

lemma py_get_Cons_other [py_simps]:
  "k \<noteq> k' \<Longrightarrow> py_get ((k', v) # kvs) k = py_get kvs k"
  by (simp add: py_get_def map_of_append map_add_def split: option.splits)

subsection \<open>Decimal numerals\<close>

lemma of_char_digit_char: "d < 10 \<Longrightarrow> of_char (digit_char d) = 48 + d"
  by (auto simp: digit_char_def less_Suc_eq numeral_eq_Suc)

lemma digit_char_props:
  assumes "d < 10"
  shows "is_digit (digit_char d)" and "digit_val (digit_char d) = d"
  using assms by (simp_all add: is_digit_def digit_val_def of_char_digit_char)

lemma nat_digits_all_digits: "list_all is_digit (nat_digits n)"
proof (induction n rule: nat_digits.induct)
  case (1 n)
  then show ?case
    by (subst nat_digits.simps) (simp add: digit_char_props)
qed

lemma nat_digits_not_Nil [py_simps]: "nat_digits n \<noteq> []"
  by (cases "n < 10") (simp_all add: nat_digits.simps [of n])

lemma digits_value_snoc:
  "digits_value (s @ [c]) = 10 * digits_value s + digit_val c"
  by (simp add: digits_value_def)

lemma digits_value_nat_digits: "digits_value (nat_digits n) = n"
proof (induction n rule: nat_digits.induct)
  case (1 n)
  show ?case
  proof (cases "n < 10")
    case True
    then show ?thesis
      by (simp add: nat_digits.simps [of n] digits_value_def digit_char_props)
  next
    case False
    with "1.IH" have "digits_value (nat_digits (n div 10)) = n div 10" by simp
    with False show ?thesis
      by (simp add: nat_digits.simps [of n] digits_value_snoc digit_char_props)
  qed
qed

lemma parse_nat_nat_digits [py_simps]: "parse_nat (nat_digits n) = Some n"
  by (simp add: parse_nat_def nat_digits_all_digits digits_value_nat_digits nat_digits_not_Nil)

lemma nat_digits_hd_digit: "is_digit (hd (nat_digits n))"
  using nat_digits_all_digits [of n] nat_digits_not_Nil [of n]
  by (cases "nat_digits n") simp_all

lemma sign_not_digit: "\<not> is_digit CHR ''-''" "\<not> is_digit CHR ''+''"
  by (simp_all add: is_digit_def)

lemma parse_int_digits: "parse_int (nat_digits n) = Some (int n)"
proof -
  obtain c ds where cds: "nat_digits n = c # ds"
    using nat_digits_not_Nil [of n] by (cases "nat_digits n") auto
  from nat_digits_hd_digit [of n] cds sign_not_digit have "c \<noteq> CHR ''-'' \<and> c \<noteq> CHR ''+''"
    by auto
  with cds show ?thesis
    by (simp add: parse_int_def parse_nat_nat_digits [of n, symmetric])
qed

lemma parse_int_int_str [py_simps]: "parse_int (int_str i) = Some i"
proof (cases "i < 0")
  case True
  then show ?thesis by (simp add: int_str_def parse_int_def parse_nat_nat_digits)
next
  case False
  then have "int_str i = nat_digits (nat i)" by (simp add: int_str_def)
  with False show ?thesis by (simp add: parse_int_digits)
qed

lemma int_str_inj: "int_str i = int_str j \<Longrightarrow> i = j"
  by (metis option.inject parse_int_int_str)

lemma nat_digits_no_char: "\<not> is_digit c \<Longrightarrow> c \<notin> set (nat_digits n)"
  using nat_digits_all_digits [of n] by (auto simp: list_all_iff)

lemma int_str_no_char:
  "\<not> is_digit c \<Longrightarrow> c \<noteq> CHR ''-'' \<Longrightarrow> c \<notin> set (int_str i)"
  using nat_digits_all_digits by (auto simp: int_str_def list_all_iff)

subsection \<open>Hex digests\<close>

lemma hex_digit_inj:
  assumes "d < 16" and "e < 16" and "hex_digit d = hex_digit e"
  shows "d = e"
proof -
  have "distinct hex_alphabet" and "length hex_alphabet = 16" by (simp_all add: hex_alphabet_def)
  with assms show ?thesis by (simp add: hex_digit_def nth_eq_iff_index_eq)
qed

lemma hex_digit_mem: "d < 16 \<Longrightarrow> hex_digit d \<in> set hex_alphabet"
  unfolding hex_digit_def by (intro nth_mem) (simp add: hex_alphabet_def)

lemma of_char_div_16: "of_char c div 16 < (16::nat)"
  using nat_of_char_less_256 [of c] by linarith

lemma hex_byte_inj:
  assumes "[hex_digit (of_char a div 16), hex_digit (of_char a mod 16)] =
           [hex_digit (of_char b div 16), hex_digit (of_char b mod 16)]"
  shows "a = b"
proof -
  from assms have "of_char a div 16 = of_char b div (16::nat)"
    and "of_char a mod 16 = of_char b mod (16::nat)"
    by (auto intro: hex_digit_inj simp: of_char_div_16)
  then have "of_char a = (of_char b :: nat)"
    by (metis div_mult_mod_eq)
  then show ?thesis by simp
qed

lemma hex_str_inj: "hex_str a = hex_str b \<Longrightarrow> a = b"
proof (induction a arbitrary: b)
  case Nil
  then show ?case by (cases b) (simp_all add: hex_str_def)
next
  case (Cons x xs)
  then obtain y ys where b: "b = y # ys"
    by (cases b) (simp_all add: hex_str_def)
  with Cons.prems have "x = y \<and> hex_str xs = hex_str ys"
    by (auto simp: hex_str_def intro: hex_byte_inj)
  with Cons.IH b show ?case by simp
qed

lemma hex_str_chars: "c \<in> set (hex_str s) \<Longrightarrow> c \<in> set hex_alphabet"
  by (auto simp: hex_str_def of_char_div_16 intro!: hex_digit_mem)

lemma hex_str_no_dollar [py_simps]: "CHR ''$'' \<notin> set (hex_str s)"
  using hex_str_chars by (fastforce simp: hex_alphabet_def)

lemma hex_str_no_dot [py_simps]: "CHR ''.'' \<notin> set (hex_str s)"
  using hex_str_chars by (fastforce simp: hex_alphabet_def)

lemma hex_str_ascii [py_simps]: "list_all (\<lambda>c. of_char c < (128::nat)) (hex_str s)"
proof -
  have "\<forall>c \<in> set hex_alphabet. of_char c < (128::nat)" by (simp add: hex_alphabet_def)
  then show ?thesis using hex_str_chars by (auto simp: list_all_iff)
qed

subsection \<open>Maxima of lists\<close>

lemma fold_max_le:
  "a \<le> b \<Longrightarrow> list_all (\<lambda>x. x \<le> b) xs \<Longrightarrow> fold max xs a \<le> (b::'a::linorder)"
  by (induction xs arbitrary: a) auto

lemma fold_max_ge: "a \<le> fold max xs (a::'a::linorder)"
  by (induction xs arbitrary: a) (auto intro: order.trans [OF max.cobounded2])

subsection \<open>Options as lists\<close>

lemma mem_option_list [simp]:
  "n \<in> set (case x of None \<Rightarrow> [] | Some m \<Rightarrow> [m]) \<longleftrightarrow> x = Some n"
  by (cases x) auto

subsection \<open>Splitting\<close>

lemma split_once_append [py_simps]:
  "c \<notin> set a \<Longrightarrow> split_once c (a @ c # b) = Some (a, b)"
  by (induction a) auto

lemma split_once_Some:
  "split_once c s = Some (a, b) \<Longrightarrow> s = a @ c # b \<and> c \<notin> set a"
  by (induction s arbitrary: a) (auto split: if_splits)

lemma split_once_None_iff: "split_once c s = None \<longleftrightarrow> c \<notin> set s"
  by (induction s) auto

lemma rsplit_once_append [py_simps]:
  "c \<notin> set b \<Longrightarrow> rsplit_once c (a @ c # b) = Some (a, b)"
  by (simp add: rsplit_once_def split_once_append)

lemma rsplit_once_append2 [py_simps]:
  "c \<notin> set d \<Longrightarrow> rsplit_once c (a @ c # b @ c # d) = Some (a @ c # b, d)"
  using rsplit_once_append [of c d "a @ c # b"] by simp

lemma rsplit_once_Some:
  assumes "rsplit_once c s = Some (a, b)"
  shows "s = a @ c # b \<and> c \<notin> set b"
proof -
  from assms obtain a' b' where sp: "split_once c (rev s) = Some (a', b')"
    and "a = rev b'" "b = rev a'"
    by (auto simp: rsplit_once_def)
  from split_once_Some [OF sp] have "rev s = a' @ c # b'" "c \<notin> set a'" by auto
  then have "s = rev b' @ c # rev a'" by (metis rev_append rev_rev_ident rev.simps(2) append_assoc append_Cons append_Nil)
  with \<open>a = rev b'\<close> \<open>b = rev a'\<close> \<open>c \<notin> set a'\<close> show ?thesis by simp
qed

lemma py_split_append [py_simps]:
  "c \<notin> set a \<Longrightarrow> py_split c (a @ c # b) = a # py_split c b"
  by (induction a) auto

lemma py_split_no_sep [py_simps]: "c \<notin> set a \<Longrightarrow> py_split c a = [a]"
  by (induction a) auto

lemma split3_append [py_simps]:
  "c \<notin> set a \<Longrightarrow> c \<notin> set b \<Longrightarrow> split3 c (a @ c # b @ c # d) = Some (a, b, d)"
  by (simp add: split3_def split_once_append)

lemma split3_Some:
  "split3 c s = Some (a, b, d) \<Longrightarrow> s = a @ c # b @ c # d \<and> c \<notin> set a \<and> c \<notin> set b"
  by (auto simp: split3_def split: option.splits dest!: split_once_Some)

end
