(* ===== verification/Store.thy ===== *)
theory Store
  imports Prelude
begin

text \<open>
  The credential store: the SQLite table \<open>users\<close> that \<open>get_db\<close>
  (src/flask-user-auth-api/database.py) creates, with the columns
  \<open>id INTEGER PRIMARY KEY AUTOINCREMENT\<close>, \<open>username TEXT UNIQUE\<close> and
  \<open>password TEXT\<close>, and the two statements the handlers of app.py run on it: the
  \<open>INSERT\<close> of \<open>register\<close> and the \<open>SELECT\<close> of \<open>login\<close>. The model follows
  SQLite's rules: Python values are bound as SQL values (an unsupported type is an
  error), a TEXT column stores an INTEGER as its decimal text, UNIQUE ignores NULL, and
  AUTOINCREMENT takes one more than the largest row id ever used and fails with
  SQLITE_FULL past \<open>2^63 - 1\<close>.
\<close>

section \<open>SQL values\<close>

datatype sqlval = SNull | SInt int | SText string

text \<open>
  SQLite's INTEGER is a signed 64-bit integer: sqlite3 binds a Python \<open>int\<close> with
  \<open>sqlite3_bind_int64\<close>, and one outside that range raises \<open>OverflowError\<close>.
\<close>

definition int64_fits :: "int \<Rightarrow> bool" where
  "int64_fits i \<longleftrightarrow> - 9223372036854775808 \<le> i \<and> i \<le> 9223372036854775807"

text \<open>
  The sqlite3 module's parameter binding: \<open>None\<close>, \<open>bool\<close> (an \<open>int\<close>), \<open>int\<close>
  and \<open>str\<close> are bound; a \<open>list\<close> or \<open>dict\<close> raises \<open>ProgrammingError\<close>, an
  \<open>int\<close> outside 64 bits \<open>OverflowError\<close> (both \<open>None\<close> here).
\<close>

fun sql_bind :: "json \<Rightarrow> sqlval option" where
  "sql_bind JNull = Some SNull"
| "sql_bind (JBool b) = Some (SInt (if b then 1 else 0))"
| "sql_bind (JInt i) = (if int64_fits i then Some (SInt i) else None)"
| "sql_bind (JStr s) = Some (SText s)"
| "sql_bind (JArr xs) = None"
| "sql_bind (JObj kvs) = None"

text \<open>
  TEXT affinity, applied when a value is stored in the column and when a bound
  parameter is compared with it: NULL stays NULL (\<open>None\<close>), an integer becomes its
  decimal text.
\<close>

fun text_affinity :: "sqlval \<Rightarrow> string option" where
  "text_affinity SNull = None"
| "text_affinity (SInt i) = Some (int_str i)"
| "text_affinity (SText s) = Some s"

section \<open>The table\<close>

record user_row =
  row_id :: int
  row_username :: "string option"
  row_password :: "string option"

text \<open>
  The rows in row id order, and the table's entry in \<open>sqlite_sequence\<close> (the largest
  row id ever handed out, 0 before the first insert).
\<close>

record users_table =
  rows :: "user_row list"
  seq :: int

text \<open>The file users.db: \<open>None\<close> until the first request creates the table.\<close>

type_synonym database = "users_table option"

definition empty_users :: users_table where
  "empty_users = \<lparr>rows = [], seq = 0\<rparr>"

text \<open>
  \<open>get_db()\<close>: \<open>CREATE TABLE IF NOT EXISTS users(...)\<close> runs outside a transaction
  and is persistent at once; the connection then sees the table.
\<close>

definition get_db :: "database \<Rightarrow> users_table" where
  "get_db d = (case d of None \<Rightarrow> empty_users | Some t \<Rightarrow> t)"

text \<open>
  The errors of a statement: the UNIQUE constraint (\<open>IntegrityError\<close>), no row id
  left (SQLITE_FULL), a parameter that cannot be bound, and \<open>OperationalError:
  database is locked\<close>, raised when the write lock stays held by another connection
  longer than the connection's timeout (only under concurrency, theory Concurrency).
\<close>

datatype sql_error = IntegrityError | FullError | BindError | LockedError

definition max_rowid :: int where
  "max_rowid = 9223372036854775807"

text \<open>AUTOINCREMENT: one more than both the sequence entry and every row id.\<close>

definition next_rowid :: "users_table \<Rightarrow> int" where
  "next_rowid t = max (seq t) (fold max (map row_id (rows t)) 0) + 1"

definition username_taken :: "users_table \<Rightarrow> string \<Rightarrow> bool" where
  "username_taken t n \<longleftrightarrow> list_ex (\<lambda>r. row_username r = Some n) (rows t)"

text \<open>
  One \<open>INSERT INTO users(username, password) VALUES (?, ?)\<close> on bound values: the new
  row id is allocated first (SQLITE_FULL when none is left), then the UNIQUE index on
  \<open>username\<close> is checked; a failed statement leaves the table as it was.
\<close>

definition insert_user :: "users_table \<Rightarrow> sqlval \<Rightarrow> sqlval \<Rightarrow> sql_error + users_table" where
  "insert_user t u p =
     (let i = next_rowid t; n = text_affinity u in
      if max_rowid < i then Inl FullError
      else if (case n of None \<Rightarrow> False | Some m \<Rightarrow> username_taken t m) then Inl IntegrityError
      else Inr (t\<lparr>rows := rows t @ [\<lparr>row_id = i, row_username = n,
                                      row_password = text_affinity p\<rparr>],
                 seq := i\<rparr>))"

text \<open>
  \<open>db.execute("INSERT ...", (username, password))\<close> followed by \<open>db.commit()\<close>,
  as \<open>register\<close> runs it: the binding of the two Python values, then the statement.
\<close>

definition execute_insert :: "users_table \<Rightarrow> json \<Rightarrow> string \<Rightarrow> sql_error + users_table" where
  "execute_insert t username password =
     (case sql_bind username of
        None \<Rightarrow> Inl BindError
      | Some u \<Rightarrow> insert_user t u (SText password))"

text \<open>
  \<open>SELECT * FROM users WHERE username=?\<close> with \<open>fetchone()\<close>: the first matching row,
  if any. \<open>username = NULL\<close> is never true.
\<close>

definition select_user :: "users_table \<Rightarrow> sqlval \<Rightarrow> user_row option" where
  "select_user t v =
     (case text_affinity v of
        None \<Rightarrow> None
      | Some n \<Rightarrow> find (\<lambda>r. row_username r = Some n) (rows t))"

definition execute_select :: "users_table \<Rightarrow> json \<Rightarrow> sql_error + user_row option" where
  "execute_select t username =
     (case sql_bind username of
        None \<Rightarrow> Inl BindError
      | Some v \<Rightarrow> Inr (select_user t v))"

section \<open>Invariant and abstraction\<close>

text \<open>The usernames stored in the table, NULLs left out.\<close>

definition stored_usernames :: "users_table \<Rightarrow> string list" where
  "stored_usernames t =
     concat (map (\<lambda>r. case row_username r of None \<Rightarrow> [] | Some n \<Rightarrow> [n]) (rows t))"

text \<open>
  What the schema and AUTOINCREMENT keep true: non-NULL usernames are pairwise distinct,
  row ids are positive, strictly increasing and bounded by the sequence entry, which
  stays within the row id range.
\<close>

definition users_inv :: "users_table \<Rightarrow> bool" where
  "users_inv t \<longleftrightarrow>
     distinct (stored_usernames t) \<and>
     sorted_wrt (<) (map row_id (rows t)) \<and>
     list_all (\<lambda>r. 0 < row_id r \<and> row_id r \<le> seq t) (rows t) \<and>
     0 \<le> seq t \<and> seq t \<le> max_rowid"

text \<open>
  The abstract credential store of the specification: a map from usernames to the
  stored password column, and its \<open>create\<close> operation that refuses a present name.
\<close>

type_synonym cred_map = "string \<Rightarrow> string option option"

definition creds :: "users_table \<Rightarrow> cred_map" where
  "creds t n = map_option row_password (find (\<lambda>r. row_username r = Some n) (rows t))"

datatype create_error = DuplicateUsername

definition spec_create :: "cred_map \<Rightarrow> string \<Rightarrow> string option \<Rightarrow> create_error + cred_map" where
  "spec_create m n h = (if m n = None then Inr (m(n \<mapsto> h)) else Inl DuplicateUsername)"

section \<open>Lemmas\<close>

named_theorems store_simps "rules that evaluate the store operations"

lemma username_taken_iff [store_simps]:
  "username_taken t n \<longleftrightarrow> n \<in> set (stored_usernames t)"
  by (auto simp: username_taken_def stored_usernames_def list_ex_iff) (metis)

lemma find_username_None_iff:
  "find (\<lambda>r. row_username r = Some n) (rows t) = None \<longleftrightarrow> \<not> username_taken t n"
  by (auto simp: username_taken_def find_None_iff list_ex_iff)

lemma find_username_Some_taken:
  "find (\<lambda>r. row_username r = Some n) (rows t) = Some r \<Longrightarrow> username_taken t n"
  by (metis find_username_None_iff option.distinct(1))

lemma next_rowid_inv:
  assumes "users_inv t"
  shows "next_rowid t = seq t + 1"
proof -
  from assms have "list_all (\<lambda>x. x \<le> seq t) (map row_id (rows t))" and "0 \<le> seq t"
    by (auto simp: users_inv_def list_all_iff)
  then have "fold max (map row_id (rows t)) 0 \<le> seq t"
    by (simp add: fold_max_le)
  then show ?thesis by (simp add: next_rowid_def)
qed

lemma get_db_inv [store_simps]:
  "(case d of None \<Rightarrow> True | Some t \<Rightarrow> users_inv t) \<Longrightarrow> users_inv (get_db d)"
  by (auto simp: get_db_def empty_users_def users_inv_def stored_usernames_def max_rowid_def
           split: option.splits)

lemma stored_usernames_snoc [store_simps]:
  "stored_usernames (t\<lparr>rows := rows t @ [r], seq := i\<rparr>) =
     stored_usernames t @ (case row_username r of None \<Rightarrow> [] | Some n \<Rightarrow> [n])"
  by (simp add: stored_usernames_def)

text \<open>The successful insert, on a table that satisfies the invariant.\<close>

lemma insert_user_Inr:
  assumes "users_inv t" and "insert_user t u p = Inr t'"
  shows "t' = t\<lparr>rows := rows t @ [\<lparr>row_id = seq t + 1, row_username = text_affinity u,
                                      row_password = text_affinity p\<rparr>],
                 seq := seq t + 1\<rparr>"
    and "seq t < max_rowid"
    and "case text_affinity u of None \<Rightarrow> True | Some n \<Rightarrow> \<not> username_taken t n"
  using assms
  by (auto simp: insert_user_def Let_def next_rowid_inv split: if_splits option.splits)

lemma insert_user_fresh:
  assumes "users_inv t" and "seq t < max_rowid"
    and "case text_affinity u of None \<Rightarrow> True | Some n \<Rightarrow> \<not> username_taken t n"
  shows "insert_user t u p =
           Inr (t\<lparr>rows := rows t @ [\<lparr>row_id = seq t + 1, row_username = text_affinity u,
                                          row_password = text_affinity p\<rparr>],
                     seq := seq t + 1\<rparr>)"
  using assms
  by (auto simp: insert_user_def Let_def next_rowid_inv split: option.splits)

lemma insert_user_inv:
  assumes inv: "users_inv t" and ins: "insert_user t u p = Inr t'"
  shows "users_inv t'"
proof -
  note t' = insert_user_Inr [OF inv ins]
  from inv have ids: "list_all (\<lambda>r. 0 < row_id r \<and> row_id r \<le> seq t) (rows t)"
    and sorted: "sorted_wrt (<) (map row_id (rows t))" and "0 \<le> seq t"
    and dist: "distinct (stored_usernames t)"
    by (simp_all add: users_inv_def)
  have "distinct (stored_usernames t')"
    using dist t'(3) t'(1) by (auto simp: store_simps split: option.splits)
  moreover have "sorted_wrt (<) (map row_id (rows t'))"
    using sorted ids t'(1) by (auto simp: sorted_wrt_append list_all_iff)
  moreover have "list_all (\<lambda>r. 0 < row_id r \<and> row_id r \<le> seq t') (rows t')"
    using ids t'(1) \<open>0 \<le> seq t\<close> by (auto simp: list_all_iff)
  ultimately show ?thesis
    using t'(1,2) \<open>0 \<le> seq t\<close> by (simp add: users_inv_def)
qed

lemma insert_user_taken:
  assumes "text_affinity u = Some n" and "username_taken t n"
  shows "\<exists>e. insert_user t u p = Inl e"
  using assms by (auto simp: insert_user_def Let_def)

lemma insert_user_taken_integrity:
  assumes "users_inv t" and "seq t < max_rowid"
    and "text_affinity u = Some n" and "username_taken t n"
  shows "insert_user t u p = Inl IntegrityError"
  using assms by (auto simp: insert_user_def Let_def next_rowid_inv)

lemma find_snoc_username:
  "find (\<lambda>r. row_username r = Some n) (xs @ [r]) =
     (case find (\<lambda>r. row_username r = Some n) xs of
        None \<Rightarrow> (if row_username r = Some n then Some r else None)
      | Some r' \<Rightarrow> Some r')"
  by (induction xs) auto

lemma creds_insert:
  assumes "users_inv t" and "insert_user t u p = Inr t'"
  shows "creds t' = (case text_affinity u of None \<Rightarrow> creds t | Some n \<Rightarrow> (creds t)(n \<mapsto> text_affinity p))"
proof
  fix m
  note t' = insert_user_Inr [OF assms]
  show "creds t' m = (case text_affinity u of None \<Rightarrow> creds t | Some n \<Rightarrow> (creds t)(n \<mapsto> text_affinity p)) m"
    using t'(1,3)
    by (auto simp: creds_def find_snoc_username find_username_None_iff
             dest: find_username_Some_taken split: option.splits)
qed

lemma creds_None_iff: "creds t n = None \<longleftrightarrow> \<not> username_taken t n"
  by (simp add: creds_def find_username_None_iff)

lemma select_user_find:
  "text_affinity v = Some n \<Longrightarrow> select_user t v = find (\<lambda>r. row_username r = Some n) (rows t)"
  by (simp add: select_user_def)

lemma select_user_Some:
  assumes "select_user t v = Some r"
  shows "r \<in> set (rows t) \<and> text_affinity v \<noteq> None \<and> row_username r = text_affinity v"
  using assms
  by (auto simp: select_user_def find_Some_iff nth_mem split: option.splits)

lemma select_user_creds:
  "text_affinity v = Some n \<Longrightarrow> map_option row_password (select_user t v) = creds t n"
  by (simp add: select_user_def creds_def)

section \<open>Properties of the store\<close>

lemma users_inv_empty [store_simps]: "users_inv empty_users"
  by (simp add: users_inv_def empty_users_def stored_usernames_def max_rowid_def)

text \<open>
  C6: the INSERT of \<open>register\<close> implements the specification's
  \<open>create(username, password_hash)\<close> on the abstract map: with a row id left, a
  non-NULL name already present fails with \<open>DuplicateUsername\<close> and changes nothing,
  and any other name is added with its password.
\<close>

theorem insert_user_refines_create:
  assumes "users_inv t" and "seq t < max_rowid" and "text_affinity u = Some n"
  shows "map_sum (\<lambda>_. DuplicateUsername) creds (insert_user t u p) =
           spec_create (creds t) n (text_affinity p)"
proof (cases "username_taken t n")
  case True
  with assms have "insert_user t u p = Inl IntegrityError"
    by (simp add: insert_user_taken_integrity)
  with True show ?thesis by (simp add: spec_create_def creds_None_iff)
next
  case False
  with assms have ins: "insert_user t u p =
      Inr (t\<lparr>rows := rows t @ [\<lparr>row_id = seq t + 1, row_username = text_affinity u,
                                    row_password = text_affinity p\<rparr>],
               seq := seq t + 1\<rparr>)"
    by (simp add: insert_user_fresh)
  from creds_insert [OF assms(1) ins] assms(3) False show ?thesis
    by (simp add: ins spec_create_def creds_None_iff)
qed

theorem insert_user_refines_create_witness:
  "map_sum (\<lambda>_. DuplicateUsername) creds
      (insert_user empty_users (SText ''alice'') (SText ''h1'')) =
     spec_create (creds empty_users) ''alice'' (Some ''h1'')"
proof -
  have "seq empty_users < max_rowid" by (simp add: empty_users_def max_rowid_def)
  from insert_user_refines_create [OF users_inv_empty this, of "SText ''alice''" "''alice''"]
  show ?thesis by simp
qed

text \<open>
  C25: insert then look up: after a successful INSERT the SELECT of \<open>login\<close> on the
  same name finds the new row, with the next row id and the stored password.
\<close>

theorem insert_then_select:
  assumes "users_inv t" and "insert_user t u p = Inr t'" and "text_affinity u = Some n"
  shows "select_user t' u =
           Some \<lparr>row_id = seq t + 1, row_username = Some n, row_password = text_affinity p\<rparr>"
proof -
  note t' = insert_user_Inr [OF assms(1,2)]
  from t'(3) assms(3) have "find (\<lambda>r. row_username r = Some n) (rows t) = None"
    by (simp add: find_username_None_iff)
  with t'(1) assms(3) show ?thesis
    by (simp add: select_user_find find_snoc_username)
qed

theorem insert_then_select_witness:
  "select_user \<lparr>rows = [\<lparr>row_id = 1, row_username = Some ''5'', row_password = Some ''h''\<rparr>],
                seq = 1\<rparr> (SInt 5) =
     Some \<lparr>row_id = 1, row_username = Some ''5'', row_password = Some ''h''\<rparr>"
proof -
  have ins: "insert_user empty_users (SInt 5) (SText ''h'') =
      Inr \<lparr>rows = [\<lparr>row_id = 1, row_username = Some ''5'', row_password = Some ''h''\<rparr>],
           seq = 1\<rparr>"
    by (simp add: insert_user_def Let_def next_rowid_def empty_users_def max_rowid_def
                  username_taken_def int_str_def nat_digits.simps digit_char_def)
  have "text_affinity (SInt 5) = Some ''5''"
    by (simp add: int_str_def nat_digits.simps digit_char_def)
  from insert_then_select [OF users_inv_empty ins this] show ?thesis
    by (simp add: empty_users_def)
qed

text \<open>
  C26: the row id range is finite: once the sequence entry has reached \<open>2^63 - 1\<close>
  every INSERT fails with SQLITE_FULL, whatever the username.
\<close>

theorem insert_user_full:
  assumes "users_inv t" and "seq t = max_rowid"
  shows "insert_user t u p = Inl FullError"
  using assms by (simp add: insert_user_def Let_def next_rowid_inv)

theorem insert_user_full_witness:
  "insert_user \<lparr>rows = [], seq = max_rowid\<rparr> (SText ''bob'') (SText ''h'') = Inl FullError"
  using insert_user_full [of "\<lparr>rows = [], seq = max_rowid\<rparr>" "SText ''bob''" "SText ''h''"]
  by (simp add: users_inv_def stored_usernames_def max_rowid_def)

text \<open>
  C27: UNIQUE does not constrain NULL: an INSERT with a NULL username succeeds whenever
  a row id is left, however many NULL rows exist, and adds no stored name.
\<close>

theorem insert_null_username:
  assumes "users_inv t" and "seq t < max_rowid"
  shows "\<exists>t'. insert_user t SNull p = Inr t' \<and> stored_usernames t' = stored_usernames t
              \<and> length (rows t') = Suc (length (rows t))"
  using insert_user_fresh [OF assms, of SNull p] by (simp add: store_simps)

theorem insert_null_username_witness:
  "\<exists>t'. insert_user \<lparr>rows = [\<lparr>row_id = 1, row_username = None, row_password = Some ''h''\<rparr>],
                        seq = 1\<rparr> SNull (SText ''h'') = Inr t'
        \<and> stored_usernames t' =
            stored_usernames \<lparr>rows = [\<lparr>row_id = 1, row_username = None,
                                          row_password = Some ''h''\<rparr>], seq = 1\<rparr>
        \<and> length (rows t') = 2"
proof -
  let ?t = "\<lparr>rows = [\<lparr>row_id = 1, row_username = None, row_password = Some ''h''\<rparr>], seq = 1\<rparr>"
  have inv: "users_inv ?t" and room: "seq ?t < max_rowid"
    by (simp_all add: users_inv_def stored_usernames_def max_rowid_def)
  from insert_null_username [OF inv room, of "SText ''h''"] show ?thesis
    by (simp add: numeral_2_eq_2)
qed

end
