(* ===== verification/Hasher.thy ===== *)
theory Hasher
  imports Prelude
begin

text \<open>
  The password hasher: werkzeug.security's \<open>generate_password_hash\<close> and
  \<open>check_password_hash\<close>, which \<open>register\<close> and \<open>login\<close> of app.py call with
  their defaults (method \<open>scrypt\<close>, a salt of 16 characters). The library is not
  part of the repository; it is modelled from its published behaviour, which is what the
  specification's section 4.1 describes. The key derivation functions themselves
  (\<open>hashlib.scrypt\<close>, \<open>hashlib.pbkdf2_hmac\<close>) are parameters: nothing here depends
  on how they compute, only on their being functions. The random source of
  \<open>gen_salt\<close> is a parameter too: the sequence of draws of \<open>secrets.choice\<close>.
  Strings are byte strings (the UTF-8 encoding of Python's \<open>str\<close>).
\<close>

section \<open>Primitives and errors\<close>

text \<open>
  The two key derivation functions as hashlib offers them: the digest bytes, or
  \<open>None\<close> for the \<open>ValueError\<close> hashlib raises on parameters it refuses.
\<close>

record kdf_prims =
  scrypt :: "string \<Rightarrow> string \<Rightarrow> int \<Rightarrow> int \<Rightarrow> int \<Rightarrow> string option"
  pbkdf2_hmac :: "string \<Rightarrow> string \<Rightarrow> string \<Rightarrow> int \<Rightarrow> string option"

datatype hash_error =
    HashValueError    \<comment> \<open>\<open>ValueError\<close>: unknown method, bad parameters, salt length\<close>
  | PasswordAttributeError \<comment> \<open>\<open>AttributeError\<close>: \<open>password.encode()\<close> on a non-\<open>str\<close>\<close>
  | CompareTypeError  \<comment> \<open>\<open>TypeError\<close>: \<open>hmac.compare_digest\<close> on non-ASCII \<open>str\<close>\<close>

section \<open>Salts and hex digests\<close>

definition SALT_CHARS :: string where
  "SALT_CHARS = ''abcdefghijklmnopqrstuvwxyzABCDEFGHIJKLMNOPQRSTUVWXYZ0123456789''"

text \<open>
  \<open>gen_salt(length)\<close>: \<open>"".join(secrets.choice(SALT_CHARS) for _ in range(length))\<close>;
  draw \<open>i\<close> of the random source picks the \<open>i\<close>-th character.
\<close>

definition gen_salt :: "nat \<Rightarrow> (nat \<Rightarrow> nat) \<Rightarrow> string option" where
  "gen_salt len rnd =
     (if len = 0 then None
      else Some (map (\<lambda>i. SALT_CHARS ! (rnd i mod length SALT_CHARS)) [0..<len]))"

text \<open>\<open>DEFAULT_PBKDF2_ITERATIONS\<close> of werkzeug 3.1.\<close>

definition default_pbkdf2_iterations :: int where
  "default_pbkdf2_iterations = 1000000"

section \<open>Hashing\<close>

text \<open>
  \<open>_hash_internal(method, salt, password)\<close>: the method string is split at every
  colon into a name and its arguments; \<open>password.encode()\<close> comes before the dispatch
  on the name. The result is the hex digest and the method written out in full, which
  is what the stored hash starts with.
\<close>

definition scrypt_args :: "string list \<Rightarrow> (int \<times> int \<times> int) option" where
  "scrypt_args args =
     (case args of
        [] \<Rightarrow> Some (32768, 8, 1)
      | [a, b, c] \<Rightarrow>
          (case (parse_int a, parse_int b, parse_int c) of
             (Some n, Some r, Some p) \<Rightarrow> Some (n, r, p)
           | _ \<Rightarrow> None)
      | _ \<Rightarrow> None)"

definition pbkdf2_args :: "string list \<Rightarrow> (string \<times> int) option" where
  "pbkdf2_args args =
     (case args of
        [] \<Rightarrow> Some (''sha256'', default_pbkdf2_iterations)
      | [h] \<Rightarrow> Some (h, default_pbkdf2_iterations)
      | [h, i] \<Rightarrow> map_option (\<lambda>it. (h, it)) (parse_int i)
      | _ \<Rightarrow> None)"

text \<open>The method written out in full: \<open>f"scrypt:{n}:{r}:{p}"\<close> and \<open>f"pbkdf2:{hash_name}:{iterations}"\<close>.\<close>

definition scrypt_method :: "int \<Rightarrow> int \<Rightarrow> int \<Rightarrow> string" where
  "scrypt_method n r p = ''scrypt:'' @ int_str n @ '':'' @ int_str r @ '':'' @ int_str p"

definition pbkdf2_method :: "string \<Rightarrow> int \<Rightarrow> string" where
  "pbkdf2_method h it = ''pbkdf2:'' @ h @ '':'' @ int_str it"

definition hash_internal ::
  "kdf_prims \<Rightarrow> string \<Rightarrow> string \<Rightarrow> json \<Rightarrow> hash_error + (string \<times> string)" where
  "hash_internal k method salt password =
     (case password of
        JStr pw \<Rightarrow>
          (case py_split CHR '':'' method of
             [] \<Rightarrow> Inl HashValueError
           | name # args \<Rightarrow>
               (if name = ''scrypt'' then
                  (case scrypt_args args of
                     None \<Rightarrow> Inl HashValueError
                   | Some (n, r, p) \<Rightarrow>
                       (case scrypt k pw salt n r p of
                          None \<Rightarrow> Inl HashValueError
                        | Some d \<Rightarrow> Inr (hex_str d, scrypt_method n r p)))
                else if name = ''pbkdf2'' then
                  (case pbkdf2_args args of
                     None \<Rightarrow> Inl HashValueError
                   | Some (h, it) \<Rightarrow>
                       (case pbkdf2_hmac k h pw salt it of
                          None \<Rightarrow> Inl HashValueError
                        | Some d \<Rightarrow> Inr (hex_str d, pbkdf2_method h it)))
                else Inl HashValueError))
      | _ \<Rightarrow> Inl PasswordAttributeError)"

text \<open>
  \<open>generate_password_hash(password)\<close> with \<open>method="scrypt"\<close> and
  \<open>salt_length=16\<close>: \<open>f"{actual_method}${salt}${h}"\<close>.
\<close>

definition generate_password_hash :: "kdf_prims \<Rightarrow> (nat \<Rightarrow> nat) \<Rightarrow> json \<Rightarrow> hash_error + string" where
  "generate_password_hash k rnd password =
     (case gen_salt 16 rnd of
        None \<Rightarrow> Inl HashValueError
      | Some salt \<Rightarrow>
          (case hash_internal k ''scrypt'' salt password of
             Inl e \<Rightarrow> Inl e
           | Inr (h, m) \<Rightarrow> Inr (m @ ''$'' @ salt @ ''$'' @ h)))"

text \<open>\<open>hmac.compare_digest(a, b)\<close> on two \<open>str\<close>: only ASCII strings are accepted.\<close>

definition compare_digest :: "string \<Rightarrow> string \<Rightarrow> hash_error + bool" where
  "compare_digest a b =
     (if list_all (\<lambda>c. of_char c < (128::nat)) (a @ b) then Inr (a = b) else Inl CompareTypeError)"

text \<open>
  \<open>check_password_hash(pwhash, password)\<close>: a stored hash without two \<open>$\<close> is
  refused with \<open>False\<close>; otherwise the digest is recomputed with the stored method and
  salt and compared.
\<close>

definition check_password_hash :: "kdf_prims \<Rightarrow> string \<Rightarrow> json \<Rightarrow> hash_error + bool" where
  "check_password_hash k pwhash password =
     (case split3 CHR ''$'' pwhash of
        None \<Rightarrow> Inr False
      | Some (m, s, hv) \<Rightarrow>
          (case hash_internal k m s password of
             Inl e \<Rightarrow> Inl e
           | Inr (h, _) \<Rightarrow> compare_digest h hv))"

text \<open>
  The format of what \<open>generate_password_hash\<close> returns with its defaults: the
  method \<open>scrypt:32768:8:1\<close>, a salt of 16 characters of \<open>SALT_CHARS\<close>, and a
  digest in lowercase hex.
\<close>

definition werkzeug_hash_format :: "string \<Rightarrow> bool" where
  "werkzeug_hash_format ph =
     (case split3 CHR ''$'' ph of
        None \<Rightarrow> False
      | Some (m, salt, h) \<Rightarrow>
          m = scrypt_method 32768 8 1 \<and> length salt = 16 \<and> set salt \<subseteq> set SALT_CHARS
          \<and> set h \<subseteq> set hex_alphabet)"

text \<open>
  A sample instance of the primitives, used by the witnesses below: it is a function of
  its inputs, which is all the theorems ask of the real ones.
\<close>

definition sample_kdf :: kdf_prims where
  "sample_kdf = \<lparr>scrypt = (\<lambda>pw salt n r p. Some pw),
                 pbkdf2_hmac = (\<lambda>h pw salt it. None)\<rparr>"

section \<open>Lemmas\<close>

named_theorems hasher_simps "rules that evaluate the password hasher"

subsection \<open>Salts\<close>

lemma SALT_CHARS_not_Nil: "0 < length SALT_CHARS"
  by (simp add: SALT_CHARS_def)

lemma gen_salt_chars:
  "gen_salt n rnd = Some salt \<Longrightarrow> set salt \<subseteq> set SALT_CHARS"
  using SALT_CHARS_not_Nil by (auto simp: gen_salt_def intro!: nth_mem split: if_splits)

lemma gen_salt_no_dollar [hasher_simps]:
  "gen_salt n rnd = Some salt \<Longrightarrow> CHR ''$'' \<notin> set salt"
  using gen_salt_chars [of n rnd salt] by (auto simp: SALT_CHARS_def)

lemma gen_salt_16_Some: "\<exists>salt. gen_salt 16 rnd = Some salt"
  by (simp add: gen_salt_def)

subsection \<open>The stored method\<close>

lemma scrypt_method_default: "scrypt_method 32768 8 1 = ''scrypt:32768:8:1''"
  by (simp add: scrypt_method_def int_str_def nat_digits.simps digit_char_def)

lemma colon_not_in_int_str: "CHR '':'' \<notin> set (int_str i)"
  by (rule int_str_no_char) (simp_all add: is_digit_def)

lemma dollar_not_in_int_str: "CHR ''$'' \<notin> set (int_str i)"
  by (rule int_str_no_char) (simp_all add: is_digit_def)

lemma scrypt_method_no_dollar [hasher_simps]: "CHR ''$'' \<notin> set (scrypt_method n r p)"
  by (simp add: scrypt_method_def dollar_not_in_int_str)

lemma hash_internal_default [hasher_simps]:
  "hash_internal k ''scrypt'' salt password =
     (case password of
        JStr pw \<Rightarrow>
          (case scrypt k pw salt 32768 8 1 of
             None \<Rightarrow> Inl HashValueError
           | Some d \<Rightarrow> Inr (hex_str d, scrypt_method 32768 8 1))
      | _ \<Rightarrow> Inl PasswordAttributeError)"
proof -
  have "py_split CHR '':'' ''scrypt'' = [''scrypt'']" by simp
  then show ?thesis
    by (simp add: hash_internal_def scrypt_args_def split: json.splits)
qed

lemma hash_internal_scrypt_method [hasher_simps]:
  "hash_internal k (scrypt_method n r p) salt password =
     (case password of
        JStr pw \<Rightarrow>
          (case scrypt k pw salt n r p of
             None \<Rightarrow> Inl HashValueError
           | Some d \<Rightarrow> Inr (hex_str d, scrypt_method n r p))
      | _ \<Rightarrow> Inl PasswordAttributeError)"
proof -
  have "py_split CHR '':'' (scrypt_method n r p) = [''scrypt'', int_str n, int_str r, int_str p]"
    by (simp add: scrypt_method_def py_split_append py_split_no_sep colon_not_in_int_str)
  then show ?thesis
    by (simp add: hash_internal_def scrypt_args_def parse_int_int_str split: json.splits)
qed

text \<open>What a successful \<open>generate_password_hash\<close> returns.\<close>

lemma generate_password_hash_Inr:
  assumes "generate_password_hash k rnd password = Inr ph"
  obtains pw salt d where "password = JStr pw" and "gen_salt 16 rnd = Some salt"
    and "scrypt k pw salt 32768 8 1 = Some d"
    and "ph = scrypt_method 32768 8 1 @ ''$'' @ salt @ ''$'' @ hex_str d"
  using assms
  by (auto simp: generate_password_hash_def hash_internal_default
           split: option.splits json.splits sum.splits)

lemma split3_stored_hash [hasher_simps]:
  "gen_salt n rnd = Some salt \<Longrightarrow>
     split3 CHR ''$'' (scrypt_method a b c @ ''$'' @ salt @ ''$'' @ h) =
       Some (scrypt_method a b c, salt, h)"
  using split3_append [of "CHR ''$''" "scrypt_method a b c" salt h]
  by (simp add: gen_salt_no_dollar scrypt_method_no_dollar)

lemma compare_digest_hex_refl [hasher_simps]: "compare_digest (hex_str d) (hex_str d) = Inr True"
  using hex_str_ascii [of d] by (simp add: compare_digest_def)

lemma compare_digest_hex [hasher_simps]:
  "compare_digest (hex_str d') (hex_str d) = Inr (d' = d)"
  using hex_str_ascii [of d] hex_str_ascii [of d'] hex_str_inj
  by (auto simp: compare_digest_def)

lemma generate_password_hash_format:
  assumes "generate_password_hash k rnd password = Inr ph"
  shows "werkzeug_hash_format ph"
proof -
  from assms obtain salt d where salt: "gen_salt 16 rnd = Some salt"
    and ph: "ph = scrypt_method 32768 8 1 @ ''$'' @ salt @ ''$'' @ hex_str d"
    by (rule generate_password_hash_Inr)
  have "length salt = 16" using salt by (auto simp: gen_salt_def)
  with gen_salt_chars [OF salt] hex_str_chars [of _ d] show ?thesis
    unfolding ph werkzeug_hash_format_def split3_stored_hash [OF salt] by auto
qed

lemma generate_password_hash_salt:
  "gen_salt 16 rnd = Some salt \<Longrightarrow>
     generate_password_hash k rnd (JStr p) =
       (case scrypt k p salt 32768 8 1 of
          None \<Rightarrow> Inl HashValueError
        | Some d \<Rightarrow> Inr (scrypt_method 32768 8 1 @ ''$'' @ salt @ ''$'' @ hex_str d))"
  by (simp add: generate_password_hash_def hash_internal_default split: option.splits)

lemma sample_salts:
  "gen_salt 16 (\<lambda>i. i) = Some ''abcdefghijklmnop''"
  "gen_salt 16 Suc = Some ''bcdefghijklmnopq''"
  by code_simp+

lemma sample_hashes:
  "generate_password_hash sample_kdf (\<lambda>i. i) (JStr ''pw'') =
     Inr ''scrypt:32768:8:1$abcdefghijklmnop$7077''"
  "generate_password_hash sample_kdf Suc (JStr ''pw'') =
     Inr ''scrypt:32768:8:1$bcdefghijklmnopq$7077''"
  by (simp_all add: generate_password_hash_salt sample_salts sample_kdf_def scrypt_method_default
                    hex_str_def hex_digit_def hex_alphabet_def)

section \<open>Properties of the hasher\<close>

text \<open>
  a digest made by \<open>generate_password_hash\<close> verifies: \<open>check_password_hash\<close>
  on it and the same password returns \<open>True\<close>, for any primitives and any salt.
\<close>

lemma check_generated_hash:
  assumes "generate_password_hash k rnd password = Inr ph"
  shows "check_password_hash k ph password = Inr True"
proof -
  from assms obtain pw salt d where "password = JStr pw" and salt: "gen_salt 16 rnd = Some salt"
    and d: "scrypt k pw salt 32768 8 1 = Some d"
    and ph: "ph = scrypt_method 32768 8 1 @ ''$'' @ salt @ ''$'' @ hex_str d"
    by (rule generate_password_hash_Inr)
  with split3_stored_hash [OF salt] show ?thesis
    by (simp add: check_password_hash_def hash_internal_scrypt_method compare_digest_hex_refl)
qed

text \<open>
  the check accepts exactly the passwords whose scrypt digest, under the stored salt
  and parameters, is the stored one: another password is accepted only on a collision
  of the key derivation function, and a password the KDF refuses is an error.
\<close>

lemma check_generated_hash_other:
  assumes "generate_password_hash k rnd (JStr p) = Inr ph" and "gen_salt 16 rnd = Some salt"
  shows "check_password_hash k ph (JStr q) =
           (case scrypt k q salt 32768 8 1 of
              None \<Rightarrow> Inl HashValueError
            | Some d' \<Rightarrow> Inr (scrypt k q salt 32768 8 1 = scrypt k p salt 32768 8 1))"
proof -
  from assms(1) obtain pw salt' d where "JStr p = JStr pw" and salt': "gen_salt 16 rnd = Some salt'"
    and d: "scrypt k pw salt' 32768 8 1 = Some d"
    and ph: "ph = scrypt_method 32768 8 1 @ ''$'' @ salt' @ ''$'' @ hex_str d"
    by (rule generate_password_hash_Inr)
  with assms(2) have "pw = p" "salt' = salt" by simp_all
  with split3_stored_hash [OF salt'] ph d show ?thesis
    by (simp add: check_password_hash_def hash_internal_scrypt_method compare_digest_hex
             split: option.splits)
qed

text \<open>
  hashing is salted: two calls whose random draws give different salts return
  different digests, though both verify.
\<close>

lemma generate_password_hash_salted:
  assumes "generate_password_hash k rnd1 password = Inr h1"
    and "generate_password_hash k rnd2 password = Inr h2"
    and "gen_salt 16 rnd1 \<noteq> gen_salt 16 rnd2"
  shows "h1 \<noteq> h2"
proof
  assume eq: "h1 = h2"
  from assms(1) obtain salt1 d1 where s1: "gen_salt 16 rnd1 = Some salt1"
    and h1: "h1 = scrypt_method 32768 8 1 @ ''$'' @ salt1 @ ''$'' @ hex_str d1"
    by (rule generate_password_hash_Inr)
  from assms(2) obtain salt2 d2 where s2: "gen_salt 16 rnd2 = Some salt2"
    and h2: "h2 = scrypt_method 32768 8 1 @ ''$'' @ salt2 @ ''$'' @ hex_str d2"
    by (rule generate_password_hash_Inr)
  have "split3 CHR ''$'' h1 = Some (scrypt_method 32768 8 1, salt1, hex_str d1)"
    unfolding h1 by (rule split3_stored_hash [OF s1])
  moreover have "split3 CHR ''$'' h2 = Some (scrypt_method 32768 8 1, salt2, hex_str d2)"
    unfolding h2 by (rule split3_stored_hash [OF s2])
  ultimately have "salt1 = salt2" using eq by simp
  with s1 s2 assms(3) show False by simp
qed

text \<open>
  a stored hash with two \<open>$\<close> and an unknown method makes
  \<open>check_password_hash\<close> raise \<open>ValueError\<close> rather than return \<open>False\<close>, unlike
  what the specification's section 4.1 asks of a malformed digest.
\<close>

lemma check_unknown_method_raises:
  "check_password_hash k ''md5$salt$digest'' (JStr p) = Inl HashValueError"
  by (simp add: check_password_hash_def split3_def hash_internal_def)

end
