(* ===== verification/Codec.thy ===== *)
theory Codec
  imports Prelude
begin

text \<open>
  Sample instances of the two byte codecs the token library relies on: a hex codec in
  the place of base64url, and a length-prefixed printer and parser for JSON values in
  the place of \<open>json.dumps\<close> and \<open>json.loads\<close>. They satisfy the round-trip laws
  that the token theory assumes of the real ones (lemmas \<open>unhex_hex_str\<close> and
  \<open>json_loads_sample_dumps\<close>), so the witnesses of that theory can discharge those
  hypotheses at a concrete library.
\<close>

section \<open>Hex decoding\<close>

definition hex_val :: "char \<Rightarrow> nat option" where
  "hex_val c = map_of (zip hex_alphabet [0..<16]) c"

fun unhex :: "string \<Rightarrow> string option" where
  "unhex [] = Some []"
| "unhex [c] = None"
| "unhex (a # b # rest) =
     (case (hex_val a, hex_val b) of
        (Some x, Some y) \<Rightarrow> map_option (\<lambda>r. char_of (16 * x + y) # r) (unhex rest)
      | _ \<Rightarrow> None)"

section \<open>A JSON printer and its parser\<close>

definition str_enc :: "string \<Rightarrow> string" where
  "str_enc s = CHR ''s'' # nat_digits (length s) @ CHR '':'' # s"

fun json_enc :: "json \<Rightarrow> string" where
  "json_enc JNull = ''n''"
| "json_enc (JBool b) = (if b then ''t'' else ''f'')"
| "json_enc (JInt i) = CHR ''i'' # int_str i @ '';''"
| "json_enc (JStr s) = str_enc s"
| "json_enc (JArr xs) = CHR ''a'' # nat_digits (length xs) @ CHR '':'' # concat (map json_enc xs)"
| "json_enc (JObj kvs) =
     CHR ''o'' # nat_digits (length kvs) @ CHR '':'' #
       concat (map (\<lambda>kv. str_enc (fst kv) @ json_enc (snd kv)) kvs)"

definition parse_count :: "string \<Rightarrow> (nat \<times> string) option" where
  "parse_count s =
     (case split_once CHR '':'' s of
        None \<Rightarrow> None
      | Some (ds, r) \<Rightarrow> map_option (\<lambda>n. (n, r)) (parse_nat ds))"

definition parse_str_body :: "string \<Rightarrow> (string \<times> string) option" where
  "parse_str_body s =
     (case parse_count s of
        None \<Rightarrow> None
      | Some (n, r) \<Rightarrow> (if n \<le> length r then Some (take n r, drop n r) else None))"

function json_parse :: "nat \<Rightarrow> string \<Rightarrow> (json \<times> string) option"
  and json_parse_list :: "nat \<Rightarrow> nat \<Rightarrow> string \<Rightarrow> (json list \<times> string) option"
  and json_parse_obj :: "nat \<Rightarrow> nat \<Rightarrow> string \<Rightarrow> ((string \<times> json) list \<times> string) option"
where
  "json_parse 0 s = None"
| "json_parse (Suc f) [] = None"
| "json_parse (Suc f) (c # s) =
     (if c = CHR ''n'' then Some (JNull, s)
      else if c = CHR ''t'' then Some (JBool True, s)
      else if c = CHR ''f'' then Some (JBool False, s)
      else if c = CHR ''i'' then
        (case split_once CHR '';'' s of
           None \<Rightarrow> None
         | Some (ds, r) \<Rightarrow> map_option (\<lambda>i. (JInt i, r)) (parse_int ds))
      else if c = CHR ''s'' then map_option (\<lambda>(x, r). (JStr x, r)) (parse_str_body s)
      else if c = CHR ''a'' then
        (case parse_count s of
           None \<Rightarrow> None
         | Some (n, r) \<Rightarrow> map_option (\<lambda>(xs, r'). (JArr xs, r')) (json_parse_list f n r))
      else if c = CHR ''o'' then
        (case parse_count s of
           None \<Rightarrow> None
         | Some (n, r) \<Rightarrow> map_option (\<lambda>(kvs, r'). (JObj kvs, r')) (json_parse_obj f n r))
      else None)"
| "json_parse_list f 0 s = Some ([], s)"
| "json_parse_list f (Suc n) s =
     (case json_parse f s of
        None \<Rightarrow> None
      | Some (x, r) \<Rightarrow> map_option (\<lambda>(xs, r'). (x # xs, r')) (json_parse_list f n r))"
| "json_parse_obj f 0 s = Some ([], s)"
| "json_parse_obj f (Suc n) s =
     (case s of
        c # s1 \<Rightarrow>
          (if c = CHR ''s'' then
             (case parse_str_body s1 of
                None \<Rightarrow> None
              | Some (k, r) \<Rightarrow>
                  (case json_parse f r of
                     None \<Rightarrow> None
                   | Some (v, r2) \<Rightarrow>
                       map_option (\<lambda>(kvs, r'). ((k, v) # kvs, r')) (json_parse_obj f n r2)))
           else None)
      | [] \<Rightarrow> None)"
  by pat_completeness auto
termination
  by (relation "measures
        [\<lambda>x. case x of Inl (f, s) \<Rightarrow> f | Inr (Inl (f, n, s)) \<Rightarrow> f | Inr (Inr (f, n, s)) \<Rightarrow> f,
         \<lambda>x. case x of Inl _ \<Rightarrow> 0 | Inr (Inl (f, n, s)) \<Rightarrow> Suc n | Inr (Inr (f, n, s)) \<Rightarrow> Suc n]")
     auto

definition sample_loads :: "string \<Rightarrow> json option" where
  "sample_loads s = (case json_parse (length s) s of Some (j, []) \<Rightarrow> Some j | _ \<Rightarrow> None)"

text \<open>The nesting depth, which bounds the fuel the parser needs.\<close>

fun jdepth :: "json \<Rightarrow> nat" where
  "jdepth (JArr xs) = Suc (sum_list (map jdepth xs))"
| "jdepth (JObj kvs) = Suc (sum_list (map (\<lambda>kv. jdepth (snd kv)) kvs))"
| "jdepth _ = 0"

section \<open>Lemmas\<close>

lemma hex_val_hex_digit:
  assumes "d < 16"
  shows "hex_val (hex_digit d) = Some d"
proof -
  have "length hex_alphabet = length [0..<16::nat]" and "distinct hex_alphabet"
    by (simp_all add: hex_alphabet_def)
  from map_of_zip_nth [OF this, of d] assms show ?thesis
    by (simp add: hex_val_def hex_digit_def)
qed

text \<open>The hex codec is a round trip on every byte string.\<close>

lemma unhex_hex_str: "unhex (hex_str s) = Some s"
proof (induction s)
  case Nil
  then show ?case by (simp add: hex_str_def)
next
  case (Cons c s)
  have "16 * (of_char c div 16) + of_char c mod 16 = (of_char c :: nat)" by simp
  with Cons show ?case
    by (simp add: hex_str_def hex_val_hex_digit of_char_div_16)
qed

lemma not_digit_separators: "\<not> is_digit CHR '':''" "\<not> is_digit CHR '';''"
  by (simp_all add: is_digit_def)

lemma parse_count_digits: "parse_count (nat_digits n @ CHR '':'' # r) = Some (n, r)"
  by (simp add: parse_count_def split_once_append nat_digits_no_char not_digit_separators
                parse_nat_nat_digits)

lemma parse_str_body_enc: "parse_str_body (nat_digits (length s) @ CHR '':'' # s @ r) = Some (s, r)"
  by (simp add: parse_str_body_def parse_count_digits)

lemma json_parse_list_enc:
  assumes "\<forall>x\<in>set xs. \<forall>f r. jdepth x < f \<longrightarrow> json_parse f (json_enc x @ r) = Some (x, r)"
    and "sum_list (map jdepth xs) < f"
  shows "json_parse_list f (length xs) (concat (map json_enc xs) @ r) = Some (xs, r)"
  using assms by (induction xs) auto

lemma json_parse_obj_enc:
  assumes "\<forall>kv\<in>set kvs. \<forall>f r. jdepth (snd kv) < f \<longrightarrow>
             json_parse f (json_enc (snd kv) @ r) = Some (snd kv, r)"
    and "sum_list (map (\<lambda>kv. jdepth (snd kv)) kvs) < f"
  shows "json_parse_obj f (length kvs)
           (concat (map (\<lambda>kv. str_enc (fst kv) @ json_enc (snd kv)) kvs) @ r) = Some (kvs, r)"
  using assms by (induction kvs) (auto simp: str_enc_def parse_str_body_enc)

lemma json_parse_enc: "jdepth j < f \<Longrightarrow> json_parse f (json_enc j @ r) = Some (j, r)"
proof (induction j arbitrary: f r)
  case (JArr xs)
  then obtain f' where f: "f = Suc f'" and "sum_list (map jdepth xs) < f'"
    by (cases f) auto
  with JArr.IH json_parse_list_enc [of xs f' r] show ?case
    by (simp add: parse_count_digits)
next
  case (JObj kvs)
  then obtain f' where f: "f = Suc f'" and "sum_list (map (\<lambda>kv. jdepth (snd kv)) kvs) < f'"
    by (cases f) auto
  moreover have "\<forall>kv\<in>set kvs. \<forall>f r. jdepth (snd kv) < f \<longrightarrow>
                   json_parse f (json_enc (snd kv) @ r) = Some (snd kv, r)"
    using JObj.IH by (metis snds.intros)
  ultimately show ?case using json_parse_obj_enc [of kvs f' r]
    by (simp add: parse_count_digits)
qed (auto simp: gr0_conv_Suc str_enc_def parse_str_body_enc split_once_append int_str_no_char
                not_digit_separators parse_int_int_str)

lemma jdepth_less_length: "jdepth j < length (json_enc j)"
proof (induction j)
  case (JArr xs)
  then have "sum_list (map jdepth xs) \<le> sum_list (map (\<lambda>x. length (json_enc x)) xs)"
    by (intro sum_list_mono) (fastforce simp: less_imp_le)
  then show ?case by (simp add: length_concat comp_def)
next
  case (JObj kvs)
  have "\<forall>kv\<in>set kvs. jdepth (snd kv) < length (json_enc (snd kv))"
    using JObj.IH by (metis snds.intros)
  then have "sum_list (map (\<lambda>kv. jdepth (snd kv)) kvs)
               \<le> sum_list (map (\<lambda>kv. length (str_enc (fst kv) @ json_enc (snd kv))) kvs)"
    by (intro sum_list_mono) (fastforce simp: less_imp_le)
  then show ?case by (simp add: length_concat comp_def)
qed (simp_all add: str_enc_def)

text \<open>The sample printer and parser are a round trip on every JSON value.\<close>

lemma json_loads_sample_dumps: "sample_loads (json_enc j) = Some j"
  using json_parse_enc [OF jdepth_less_length, of j "[]"] by (simp add: sample_loads_def)

end
