(* ===== verification/Token.thy ===== *)
theory Token
  imports Codec
begin

text \<open>
  The token issuer and verifier: PyJWT's \<open>jwt.encode\<close> with its default algorithm
  HS256, as \<open>login\<close> calls it (app.py, lines 44-47), and \<open>jwt.decode\<close> with
  \<open>algorithms=["HS256"]\<close>, as \<open>protected\<close> calls it (line 63). PyJWT is not part of
  the repository: its \<open>api_jws\<close> and \<open>api_jwt\<close> modules (version 2.10) are modelled
  from their published behaviour, which the specification's section 4.3 describes. The
  byte-level primitives (base64url, \<open>json\<close>, HMAC-SHA256) are parameters; the theorems
  assume of them only the round-trip laws \<open>b64_ok\<close> and \<open>json_ok\<close>, or nothing.
  Time is the Unix time in microseconds, the resolution of \<open>datetime.utcnow()\<close>.
\<close>

section \<open>Primitives and errors\<close>

record jwt_prims =
  b64url_encode :: "string \<Rightarrow> string"
  b64url_decode :: "string \<Rightarrow> string option"
  json_dumps :: "json \<Rightarrow> string"
  json_loads :: "string \<Rightarrow> json option"
  hmac_sha256 :: "string \<Rightarrow> string \<Rightarrow> string"

datatype jwt_error =
    DecodeError
  | InvalidAlgorithmError
  | InvalidSignatureError
  | ExpiredSignatureError
  | ImmatureSignatureError
  | InvalidIssuedAtError
  | InvalidAudienceError
  | InvalidSubjectError
  | InvalidJTIError
  | ClaimTypeError  \<comment> \<open>the \<open>TypeError\<close> of \<open>int(x)\<close> on a claim that is no number or string\<close>

text \<open>The round-trip laws of the primitives: base64url never emits a dot.\<close>

definition b64_ok :: "jwt_prims \<Rightarrow> bool" where
  "b64_ok P \<longleftrightarrow>
     (\<forall>s. b64url_decode P (b64url_encode P s) = Some s \<and> CHR ''.'' \<notin> set (b64url_encode P s))"

definition json_ok :: "jwt_prims \<Rightarrow> bool" where
  "json_ok P \<longleftrightarrow> (\<forall>j. json_loads P (json_dumps P j) = Some j)"

section \<open>Encoding\<close>

text \<open>
  The header \<open>{"typ": "JWT", "alg": "HS256"}\<close>, dumped with sorted keys.
\<close>

definition hs256_header :: json where
  "hs256_header = JObj [(''alg'', JStr ''HS256''), (''typ'', JStr ''JWT'')]"

definition signing_input :: "jwt_prims \<Rightarrow> string \<Rightarrow> string" where
  "signing_input P payload =
     b64url_encode P (json_dumps P hs256_header) @ CHR ''.'' # b64url_encode P payload"

text \<open>\<open>api_jws.encode\<close>: the three segments joined by dots.\<close>

definition jws_encode :: "jwt_prims \<Rightarrow> string \<Rightarrow> string \<Rightarrow> string" where
  "jws_encode P key payload =
     signing_input P payload @ CHR ''.'' # b64url_encode P (hmac_sha256 P key (signing_input P payload))"

text \<open>\<open>api_jwt.encode\<close>: the claims dumped as a JSON object, then signed.\<close>

definition jwt_encode :: "jwt_prims \<Rightarrow> string \<Rightarrow> (string \<times> json) list \<Rightarrow> string" where
  "jwt_encode P key claims = jws_encode P key (json_dumps P (JObj claims))"

section \<open>Decoding\<close>

text \<open>\<open>d[k]\<close> and \<open>k in d\<close> on a dictionary from \<open>json.loads\<close>: the last member wins.\<close>

definition claim :: "(string \<times> json) list \<Rightarrow> string \<Rightarrow> json option" where
  "claim c k = map_of (rev c) k"

text \<open>
  \<open>api_jws._load\<close>: split at the last dot, then at the first; decode the three
  segments; the header must be a JSON object.
\<close>

definition jws_load ::
  "jwt_prims \<Rightarrow> string \<Rightarrow> jwt_error + (string \<times> string \<times> (string \<times> json) list \<times> string)" where
  "jws_load P token =
     (case rsplit_once CHR ''.'' token of
        None \<Rightarrow> Inl DecodeError
      | Some (si, crypto_segment) \<Rightarrow>
          (case split_once CHR ''.'' si of
             None \<Rightarrow> Inl DecodeError
           | Some (header_segment, payload_segment) \<Rightarrow>
               (case b64url_decode P header_segment of
                  None \<Rightarrow> Inl DecodeError
                | Some header_data \<Rightarrow>
                    (case json_loads P header_data of
                       Some (JObj header) \<Rightarrow>
                         (case b64url_decode P payload_segment of
                            None \<Rightarrow> Inl DecodeError
                          | Some payload \<Rightarrow>
                              (case b64url_decode P crypto_segment of
                                 None \<Rightarrow> Inl DecodeError
                               | Some signature \<Rightarrow> Inr (payload, si, header, signature)))
                     | _ \<Rightarrow> Inl DecodeError))))"

text \<open>
  \<open>api_jws._verify_signature\<close> with \<open>algorithms=["HS256"]\<close>: the header's \<open>alg\<close>
  must be the string \<open>HS256\<close>, and the signature the HMAC of the signing input.
\<close>

definition verify_hs256 ::
  "jwt_prims \<Rightarrow> string \<Rightarrow> string \<Rightarrow> (string \<times> json) list \<Rightarrow> string \<Rightarrow> jwt_error + unit" where
  "verify_hs256 P key si header signature =
     (if claim header ''alg'' \<noteq> Some (JStr ''HS256'') then Inl InvalidAlgorithmError
      else if signature = hmac_sha256 P key si then Inr ()
      else Inl InvalidSignatureError)"

text \<open>
  \<open>api_jws.decode_complete\<close>: a header with \<open>"b64": false\<close> asks for a detached
  payload, which the application does not pass.
\<close>

definition jws_decode :: "jwt_prims \<Rightarrow> string \<Rightarrow> string \<Rightarrow> jwt_error + string" where
  "jws_decode P key token =
     (case jws_load P token of
        Inl e \<Rightarrow> Inl e
      | Inr (payload, si, header, signature) \<Rightarrow>
          (if claim header ''b64'' = Some (JBool False) then Inl DecodeError
           else (case verify_hs256 P key si header signature of
                   Inl e \<Rightarrow> Inl e
                 | Inr _ \<Rightarrow> Inr payload)))"

text \<open>\<open>api_jwt._decode_payload\<close>: the payload must be a JSON object.\<close>

definition decode_payload :: "jwt_prims \<Rightarrow> string \<Rightarrow> jwt_error + (string \<times> json) list" where
  "decode_payload P payload =
     (case json_loads P payload of Some (JObj c) \<Rightarrow> Inr c | _ \<Rightarrow> Inl DecodeError)"

datatype py_conv_error = ConvValueError | ConvTypeError

text \<open>\<open>int(x)\<close> on a JSON value.\<close>

fun py_int :: "json \<Rightarrow> py_conv_error + int" where
  "py_int (JInt i) = Inr i"
| "py_int (JBool b) = Inr (if b then 1 else 0)"
| "py_int (JStr s) = (case parse_int s of None \<Rightarrow> Inl ConvValueError | Some i \<Rightarrow> Inr i)"
| "py_int JNull = Inl ConvTypeError"
| "py_int (JArr xs) = Inl ConvTypeError"
| "py_int (JObj kvs) = Inl ConvTypeError"

text \<open>
  The time claims, each as \<open>_validate_iat\<close>, \<open>_validate_nbf\<close> and \<open>_validate_exp\<close>
  check it with \<open>leeway=0\<close>: \<open>None\<close> when the claim passes. \<open>now\<close> is in
  microseconds, so \<open>exp <= now\<close> on seconds is \<open>exp * 10^6 <= now\<close>.
\<close>

definition int_claim ::
  "(string \<times> json) list \<Rightarrow> string \<Rightarrow> jwt_error \<Rightarrow> (int \<Rightarrow> jwt_error option) \<Rightarrow> jwt_error option" where
  "int_claim c k value_error check =
     (case claim c k of
        None \<Rightarrow> None
      | Some v \<Rightarrow>
          (case py_int v of
             Inl ConvValueError \<Rightarrow> Some value_error
           | Inl ConvTypeError \<Rightarrow> Some ClaimTypeError
           | Inr i \<Rightarrow> check i))"

definition check_iat :: "int \<Rightarrow> (string \<times> json) list \<Rightarrow> jwt_error option" where
  "check_iat now c = int_claim c ''iat'' InvalidIssuedAtError
     (\<lambda>iat. if now < iat * 1000000 then Some ImmatureSignatureError else None)"

definition check_nbf :: "int \<Rightarrow> (string \<times> json) list \<Rightarrow> jwt_error option" where
  "check_nbf now c = int_claim c ''nbf'' DecodeError
     (\<lambda>nbf. if now < nbf * 1000000 then Some ImmatureSignatureError else None)"

definition check_exp :: "int \<Rightarrow> (string \<times> json) list \<Rightarrow> jwt_error option" where
  "check_exp now c = int_claim c ''exp'' DecodeError
     (\<lambda>exp. if exp * 1000000 \<le> now then Some ExpiredSignatureError else None)"

text \<open>
  \<open>_validate_aud\<close> with no expected audience, \<open>_validate_sub\<close> and
  \<open>_validate_jti\<close>.
\<close>

definition check_aud :: "(string \<times> json) list \<Rightarrow> jwt_error option" where
  "check_aud c =
     (case claim c ''aud'' of
        None \<Rightarrow> None
      | Some v \<Rightarrow> (if py_truthy v then Some InvalidAudienceError else None))"

definition check_str_claim :: "(string \<times> json) list \<Rightarrow> string \<Rightarrow> jwt_error \<Rightarrow> jwt_error option" where
  "check_str_claim c k e =
     (case claim c k of None \<Rightarrow> None | Some (JStr _) \<Rightarrow> None | Some _ \<Rightarrow> Some e)"

fun first_error :: "jwt_error option list \<Rightarrow> jwt_error + unit" where
  "first_error [] = Inr ()"
| "first_error (None # cs) = first_error cs"
| "first_error (Some e # cs) = Inl e"

text \<open>\<open>api_jwt._validate_claims\<close>: the checks in PyJWT's order; the first failure is raised.\<close>

definition validate_claims :: "int \<Rightarrow> (string \<times> json) list \<Rightarrow> jwt_error + unit" where
  "validate_claims now c =
     first_error [check_iat now c, check_nbf now c, check_exp now c, check_aud c,
                  check_str_claim c ''sub'' InvalidSubjectError,
                  check_str_claim c ''jti'' InvalidJTIError]"

text \<open>\<open>api_jwt.decode\<close> with \<open>algorithms=["HS256"]\<close>: the claims of a valid token.\<close>

definition jwt_decode :: "jwt_prims \<Rightarrow> string \<Rightarrow> int \<Rightarrow> string \<Rightarrow> jwt_error + (string \<times> json) list" where
  "jwt_decode P key now token =
     (case jws_decode P key token of
        Inl e \<Rightarrow> Inl e
      | Inr payload \<Rightarrow>
          (case decode_payload P payload of
             Inl e \<Rightarrow> Inl e
           | Inr c \<Rightarrow> (case validate_claims now c of Inl e \<Rightarrow> Inl e | Inr _ \<Rightarrow> Inr c)))"

section \<open>The application's tokens\<close>

definition token_ttl :: int where
  "token_ttl = 7200"

text \<open>
  The claims of \<open>login\<close>: \<open>{"user": username, "exp": utcnow() + timedelta(hours=2)}\<close>;
  \<open>jwt.encode\<close> turns the datetime into whole seconds with
  \<open>timegm(exp.utctimetuple())\<close>, dropping the microseconds.
\<close>

definition login_claims :: "json \<Rightarrow> int \<Rightarrow> (string \<times> json) list" where
  "login_claims username now = [(''user'', username), (''exp'', JInt (now div 1000000 + token_ttl))]"

definition issue_token :: "jwt_prims \<Rightarrow> string \<Rightarrow> json \<Rightarrow> int \<Rightarrow> string" where
  "issue_token P key username now = jwt_encode P key (login_claims username now)"

text \<open>\<open>jwt.decode(token, SECRET_KEY, algorithms=["HS256"])\<close> in \<open>protected\<close>.\<close>

definition verify_token :: "jwt_prims \<Rightarrow> string \<Rightarrow> int \<Rightarrow> string \<Rightarrow> jwt_error + (string \<times> json) list" where
  "verify_token P key now token = jwt_decode P key now token"

text \<open>
  A sample library for the witnesses: the sample codecs of theory Codec and a
  stand-in for HMAC (a function of key and message, which is all the theorems use).
\<close>

definition sample_jwt :: jwt_prims where
  "sample_jwt = \<lparr>b64url_encode = hex_str, b64url_decode = unhex, json_dumps = json_enc,
                 json_loads = sample_loads, hmac_sha256 = (\<lambda>k m. rev k @ m)\<rparr>"

section \<open>The token lifecycle\<close>

text \<open>
  What \<open>protected\<close> makes of a token at a given time: accepted, refused because it
  expired, or refused for any other reason.
\<close>

datatype token_state = Valid | Expired | Rejected

definition token_state :: "jwt_prims \<Rightarrow> string \<Rightarrow> int \<Rightarrow> string \<Rightarrow> token_state" where
  "token_state P key now tok =
     (case verify_token P key now tok of
        Inr _ \<Rightarrow> Valid
      | Inl ExpiredSignatureError \<Rightarrow> Expired
      | Inl _ \<Rightarrow> Rejected)"

text \<open>
  The specification's state machine of a token (section 4.3): Valid while the clock is
  before its expiry, then Expired for good.
\<close>

inductive lifecycle :: "token_state \<Rightarrow> token_state \<Rightarrow> bool" where
  stay_valid: "lifecycle Valid Valid"
| expire: "lifecycle Valid Expired"
| stay_expired: "lifecycle Expired Expired"

section \<open>Lemmas\<close>

named_theorems token_simps "rules that evaluate the token library"

lemma b64_okD [token_simps]:
  "b64_ok P \<Longrightarrow> b64url_decode P (b64url_encode P s) = Some s"
  "b64_ok P \<Longrightarrow> CHR ''.'' \<notin> set (b64url_encode P s)"
  by (simp_all add: b64_ok_def)

lemma json_okD [token_simps]: "json_ok P \<Longrightarrow> json_loads P (json_dumps P j) = Some j"
  by (simp add: json_ok_def)

lemma jws_load_signed:
  assumes "b64_ok P" and "json_ok P" and "CHR ''.'' \<notin> set seg"
  shows "jws_load P (signing_input P payload @ CHR ''.'' # seg) =
           (case b64url_decode P seg of
              None \<Rightarrow> Inl DecodeError
            | Some sg \<Rightarrow> Inr (payload, signing_input P payload,
                             [(''alg'', JStr ''HS256''), (''typ'', JStr ''JWT'')], sg))"
proof -
  have "CHR ''.'' \<notin> set (b64url_encode P (json_dumps P hs256_header))"
    using assms(1) by (rule b64_okD)
  then have "split_once CHR ''.'' (signing_input P payload) =
               Some (b64url_encode P (json_dumps P hs256_header), b64url_encode P payload)"
    by (simp add: signing_input_def split_once_append)
  with assms show ?thesis
    by (simp add: jws_load_def rsplit_once_append token_simps hs256_header_def split: option.splits)
qed

lemma claim_hs256_header [token_simps]:
  "claim [(''alg'', JStr ''HS256''), (''typ'', JStr ''JWT'')] ''alg'' = Some (JStr ''HS256'')"
  "claim [(''alg'', JStr ''HS256''), (''typ'', JStr ''JWT'')] ''b64'' = None"
  by (simp_all add: claim_def)

lemma jws_decode_signed:
  assumes "b64_ok P" and "json_ok P" and "CHR ''.'' \<notin> set seg"
  shows "jws_decode P key (signing_input P payload @ CHR ''.'' # seg) =
           (case b64url_decode P seg of
              None \<Rightarrow> Inl DecodeError
            | Some sg \<Rightarrow>
                (if sg = hmac_sha256 P key (signing_input P payload) then Inr payload
                 else Inl InvalidSignatureError))"
  using assms
  by (simp add: jws_decode_def jws_load_signed verify_hs256_def claim_hs256_header
           split: option.splits)

lemma jws_decode_encode:
  assumes "b64_ok P" and "json_ok P"
  shows "jws_decode P key (jws_encode P key payload) = Inr payload"
  using assms by (simp add: jws_encode_def jws_decode_signed token_simps)

lemma decode_payload_dumps: "json_ok P \<Longrightarrow> decode_payload P (json_dumps P (JObj c)) = Inr c"
  by (simp add: decode_payload_def token_simps)

lemma first_error_Inr_iff: "first_error cs = Inr () \<longleftrightarrow> (\<forall>c \<in> set cs. c = None)"
  by (induction cs rule: first_error.induct) auto

lemma validate_login_claims:
  "validate_claims now (login_claims u t) =
     (if (t div 1000000 + token_ttl) * 1000000 \<le> now then Inl ExpiredSignatureError else Inr ())"
  by (simp add: validate_claims_def check_iat_def check_nbf_def check_exp_def check_aud_def
                check_str_claim_def int_claim_def claim_def login_claims_def)

lemma jwt_decode_Inr:
  assumes "jwt_decode P key now tok = Inr c"
  obtains payload where "jws_decode P key tok = Inr payload"
    and "decode_payload P payload = Inr c" and "validate_claims now c = Inr ()"
  using assms by (auto simp: jwt_decode_def split: sum.splits)

lemma jwt_decode_expired:
  assumes "jwt_decode P key now tok = Inl ExpiredSignatureError"
  obtains payload c where "jws_decode P key tok = Inr payload"
    and "decode_payload P payload = Inr c" and "validate_claims now c = Inl ExpiredSignatureError"
proof -
  have "jws_load P tok = Inl e \<Longrightarrow> e \<noteq> ExpiredSignatureError" for e
    by (auto simp: jws_load_def split: option.splits json.splits)
  moreover have "verify_hs256 P key si h sg \<noteq> Inl ExpiredSignatureError" for si h sg
    by (simp add: verify_hs256_def)
  moreover have "decode_payload P pl \<noteq> Inl ExpiredSignatureError" for pl
    by (simp add: decode_payload_def split: option.splits json.splits)
  ultimately show ?thesis
    using assms that
    by (auto simp: jwt_decode_def jws_decode_def split: sum.splits prod.splits if_splits)
qed

lemma jws_decode_Inr:
  assumes "jws_decode P key tok = Inr payload"
  obtains si seg hs ps hdr where "rsplit_once CHR ''.'' tok = Some (si, seg)"
    and "split_once CHR ''.'' si = Some (hs, ps)"
    and "b64url_decode P seg = Some (hmac_sha256 P key si)"
    and "Option.bind (b64url_decode P hs) (json_loads P) = Some (JObj hdr)"
    and "claim hdr ''alg'' = Some (JStr ''HS256'')"
  using assms that
  by (auto simp: jws_decode_def jws_load_def verify_hs256_def
           split: option.splits json.splits sum.splits prod.splits if_splits)

lemma check_iat_later: "check_iat now c = None \<Longrightarrow> now \<le> now' \<Longrightarrow> check_iat now' c = None"
  by (auto simp: check_iat_def int_claim_def split: option.splits sum.splits py_conv_error.splits if_splits)

lemma check_nbf_later: "check_nbf now c = None \<Longrightarrow> now \<le> now' \<Longrightarrow> check_nbf now' c = None"
  by (auto simp: check_nbf_def int_claim_def split: option.splits sum.splits py_conv_error.splits if_splits)

lemma check_exp_later:
  "check_exp now c \<in> {None, Some ExpiredSignatureError} \<Longrightarrow> now \<le> now' \<Longrightarrow>
     check_exp now' c \<in> {None, Some ExpiredSignatureError}"
  "check_exp now c = Some ExpiredSignatureError \<Longrightarrow> now \<le> now' \<Longrightarrow>
     check_exp now' c = Some ExpiredSignatureError"
  by (auto simp: check_exp_def int_claim_def split: option.splits sum.splits py_conv_error.splits if_splits)

lemma validate_claims_split:
  "validate_claims now c =
     (case check_iat now c of
        Some e \<Rightarrow> Inl e
      | None \<Rightarrow>
          (case check_nbf now c of
             Some e \<Rightarrow> Inl e
           | None \<Rightarrow>
               (case check_exp now c of
                  Some e \<Rightarrow> Inl e
                | None \<Rightarrow> first_error [check_aud c, check_str_claim c ''sub'' InvalidSubjectError,
                                     check_str_claim c ''jti'' InvalidJTIError])))"
  by (simp add: validate_claims_def split: option.splits)

lemma untimed_checks_not_expired:
  "first_error [check_aud c, check_str_claim c ''sub'' InvalidSubjectError,
                check_str_claim c ''jti'' InvalidJTIError] \<noteq> Inl ExpiredSignatureError"
  by (auto simp: check_aud_def check_str_claim_def split: option.splits json.splits if_splits)

lemma time_checks_not_expired:
  "check_iat now c \<noteq> Some ExpiredSignatureError" "check_nbf now c \<noteq> Some ExpiredSignatureError"
  by (auto simp: check_iat_def check_nbf_def int_claim_def
           split: option.splits sum.splits py_conv_error.splits if_splits)

lemma validate_claims_later:
  assumes "now \<le> now'"
  shows "validate_claims now c = Inr () \<Longrightarrow>
           validate_claims now' c \<in> {Inr (), Inl ExpiredSignatureError}"
    and "validate_claims now c = Inl ExpiredSignatureError \<Longrightarrow>
           validate_claims now' c = Inl ExpiredSignatureError"
  using assms check_iat_later [of now c now'] check_nbf_later [of now c now']
    check_exp_later [of now c now'] untimed_checks_not_expired [of c]
    time_checks_not_expired [of now c] time_checks_not_expired [of now' c]
  by (auto simp: validate_claims_split split: option.splits)

lemma jwt_decode_encode:
  assumes "b64_ok P" and "json_ok P"
  shows "jwt_decode P key now (jwt_encode P key c) =
           (case validate_claims now c of Inl e \<Rightarrow> Inl e | Inr _ \<Rightarrow> Inr c)"
  using assms
  by (simp add: jwt_encode_def jwt_decode_def jws_decode_encode decode_payload_dumps
           split: sum.splits)

lemma token_state_issued:
  assumes "b64_ok P" and "json_ok P"
  shows "token_state P key now (issue_token P key u t) =
           (if (t div 1000000 + token_ttl) * 1000000 \<le> now then Expired else Valid)"
  using assms
  by (simp add: token_state_def verify_token_def issue_token_def jwt_decode_encode
                validate_login_claims)

lemma login_exp_bounds:
  "t + 7199000000 < (t div 1000000 + token_ttl) * 1000000"
  "(t div 1000000 + token_ttl) * 1000000 \<le> t + 7200000000"
proof -
  have "t = t div 1000000 * 1000000 + t mod 1000000" by simp
  moreover have "0 \<le> t mod 1000000" and "t mod 1000000 < 1000000" by simp_all
  ultimately show "t + 7199000000 < (t div 1000000 + token_ttl) * 1000000"
    and "(t div 1000000 + token_ttl) * 1000000 \<le> t + 7200000000"
    by (simp_all add: token_ttl_def algebra_simps)
qed

lemma sample_jwt_ok: "b64_ok sample_jwt" "json_ok sample_jwt"
  by (simp_all add: b64_ok_def json_ok_def sample_jwt_def unhex_hex_str hex_str_no_dot
                    json_loads_sample_dumps)

lemma sample_issue_accepted:
  "verify_token sample_jwt ''key'' 1000000 (issue_token sample_jwt ''key'' (JStr ''bob'') 0) =
     Inr [(''user'', JStr ''bob''), (''exp'', JInt 7200)]"
  by (simp add: verify_token_def issue_token_def jwt_decode_encode sample_jwt_ok
                validate_login_claims token_ttl_def, simp add: login_claims_def token_ttl_def)

section \<open>Properties of the token library\<close>

text \<open>
  C20: a token from \<open>login\<close> verifies in \<open>protected\<close>: decoding it returns the
  claims it was issued with until its expiry, and \<open>ExpiredSignatureError\<close> from then
  on, for any primitives that satisfy the round-trip laws.
\<close>

theorem verify_issued_token:
  assumes "b64_ok P" and "json_ok P"
  shows "verify_token P key now (issue_token P key u t) =
           (if (t div 1000000 + token_ttl) * 1000000 \<le> now then Inl ExpiredSignatureError
            else Inr (login_claims u t))"
  using assms
  by (simp add: verify_token_def issue_token_def jwt_decode_encode validate_login_claims)

theorem verify_issued_token_witness:
  "verify_token sample_jwt ''key'' 1000000 (issue_token sample_jwt ''key'' (JStr ''bob'') 0) =
     Inr [(''user'', JStr ''bob''), (''exp'', JInt 7200)]"
  using verify_issued_token [OF sample_jwt_ok, of "''key''" 1000000 "JStr ''bob''" 0]
  by (simp add: token_ttl_def login_claims_def)

text \<open>
  C4: every token \<open>protected\<close> accepts is authentic and unexpired: its last segment
  decodes to the HMAC-SHA256, under the secret key, of everything before its last dot,
  its header names HS256, and its \<open>exp\<close> claim, if any, is after the current time.
  Nothing is assumed of the primitives.
\<close>

theorem verify_token_sound:
  assumes "verify_token P key now tok = Inr c"
  shows "\<exists>si seg hs ps hdr. rsplit_once CHR ''.'' tok = Some (si, seg)
           \<and> b64url_decode P seg = Some (hmac_sha256 P key si)
           \<and> split_once CHR ''.'' si = Some (hs, ps)
           \<and> Option.bind (b64url_decode P hs) (json_loads P) = Some (JObj hdr)
           \<and> claim hdr ''alg'' = Some (JStr ''HS256'')
           \<and> check_exp now c = None"
proof -
  from assms obtain payload where dec: "jws_decode P key tok = Inr payload"
    and val: "validate_claims now c = Inr ()"
    unfolding verify_token_def by (rule jwt_decode_Inr)
  from val have exp: "check_exp now c = None"
    by (simp add: validate_claims_def first_error_Inr_iff)
  from dec obtain si seg hs ps hdr where "rsplit_once CHR ''.'' tok = Some (si, seg)"
    and "split_once CHR ''.'' si = Some (hs, ps)"
    and "b64url_decode P seg = Some (hmac_sha256 P key si)"
    and "Option.bind (b64url_decode P hs) (json_loads P) = Some (JObj hdr)"
    and "claim hdr ''alg'' = Some (JStr ''HS256'')"
    by (rule jws_decode_Inr)
  with exp show ?thesis by (intro exI conjI)
qed

theorem verify_token_sound_witness:
  "\<exists>si seg hs ps hdr. rsplit_once CHR ''.'' (issue_token sample_jwt ''key'' (JStr ''bob'') 0) = Some (si, seg)
     \<and> b64url_decode sample_jwt seg = Some (hmac_sha256 sample_jwt ''key'' si)
     \<and> split_once CHR ''.'' si = Some (hs, ps)
     \<and> Option.bind (b64url_decode sample_jwt hs) (json_loads sample_jwt) = Some (JObj hdr)
     \<and> claim hdr ''alg'' = Some (JStr ''HS256'')
     \<and> check_exp 1000000 [(''user'', JStr ''bob''), (''exp'', JInt 7200)] = None"
  by (rule verify_token_sound [OF sample_issue_accepted])

text \<open>
  C11: a token from \<open>login\<close> whose signature segment is replaced by one that decodes
  to other bytes is refused with \<open>InvalidSignatureError\<close>, whatever the time: the
  signature is checked before the expiry.
\<close>

theorem verify_token_tampered:
  assumes "b64_ok P" and "json_ok P"
    and "issue_token P key u t = si @ CHR ''.'' # seg" and "CHR ''.'' \<notin> set seg"
    and "CHR ''.'' \<notin> set seg'" and "b64url_decode P seg' = Some sg'"
    and "sg' \<noteq> hmac_sha256 P key si"
  shows "verify_token P key now (si @ CHR ''.'' # seg') = Inl InvalidSignatureError"
proof -
  let ?pl = "json_dumps P (JObj (login_claims u t))"
  have "rsplit_once CHR ''.'' (issue_token P key u t) =
          Some (signing_input P ?pl, b64url_encode P (hmac_sha256 P key (signing_input P ?pl)))"
    using assms(1) by (simp add: issue_token_def jwt_encode_def jws_encode_def rsplit_once_append b64_okD)
  moreover have "rsplit_once CHR ''.'' (issue_token P key u t) = Some (si, seg)"
    using assms(3,4) by (simp add: rsplit_once_append)
  ultimately have si: "si = signing_input P ?pl" by simp
  with assms(1,2,5,6,7) show ?thesis
    by (simp add: verify_token_def jwt_decode_def jws_decode_signed)
qed

theorem verify_token_tampered_witness:
  "verify_token sample_jwt ''key'' 0
     (signing_input sample_jwt (json_dumps sample_jwt (JObj (login_claims (JStr ''bob'') 0))) @
        CHR ''.'' # b64url_encode sample_jwt ''forged'')
   = Inl InvalidSignatureError"
proof -
  let ?si = "signing_input sample_jwt (json_dumps sample_jwt (JObj (login_claims (JStr ''bob'') 0)))"
  have iss: "issue_token sample_jwt ''key'' (JStr ''bob'') 0 =
               ?si @ CHR ''.'' # b64url_encode sample_jwt (hmac_sha256 sample_jwt ''key'' ?si)"
    by (simp only: issue_token_def jwt_encode_def jws_encode_def)
  have "hmac_sha256 sample_jwt ''key'' ?si = ''yek'' @ ?si"
    by (simp add: sample_jwt_def)
  then have "''forged'' \<noteq> hmac_sha256 sample_jwt ''key'' ?si" by simp
  from verify_token_tampered [OF sample_jwt_ok iss b64_okD(2) [OF sample_jwt_ok(1)]
         b64_okD(2) [OF sample_jwt_ok(1)] b64_okD(1) [OF sample_jwt_ok(1)] this]
  show ?thesis .
qed

text \<open>
  C5: a token whose header names another algorithm than HS256 (\<open>none\<close> included,
  with an empty signature) is refused with \<open>InvalidAlgorithmError\<close> before any
  signature is looked at.
\<close>

theorem verify_token_wrong_alg:
  assumes "b64_ok P" and "json_ok P"
    and "claim hdr ''alg'' \<noteq> Some (JStr ''HS256'')" and "claim hdr ''b64'' \<noteq> Some (JBool False)"
  shows "verify_token P key now
           (b64url_encode P (json_dumps P (JObj hdr)) @ CHR ''.'' # b64url_encode P pl @
              CHR ''.'' # b64url_encode P sg) = Inl InvalidAlgorithmError"
  using assms
  by (simp add: verify_token_def jwt_decode_def jws_decode_def jws_load_def verify_hs256_def
                split_once_append rsplit_once_append2 token_simps)

theorem verify_token_wrong_alg_witness:
  "verify_token sample_jwt ''key'' 0
     (b64url_encode sample_jwt (json_dumps sample_jwt (JObj [(''alg'', JStr ''none'')])) @ CHR ''.'' #
        b64url_encode sample_jwt (json_dumps sample_jwt (JObj (login_claims (JStr ''admin'') 0))) @
        CHR ''.'' # b64url_encode sample_jwt [])
   = Inl InvalidAlgorithmError"
  by (rule verify_token_wrong_alg [OF sample_jwt_ok]) (simp_all add: claim_def)

text \<open>
  C22: the lifecycle of a token is the specification's state machine: a token that is
  valid or expired at some time is, at any later time, in a state the machine reaches
  from there; in particular Expired is terminal.
\<close>

theorem token_state_lifecycle:
  assumes "token_state P key now tok \<noteq> Rejected" and "now \<le> now'"
  shows "lifecycle (token_state P key now tok) (token_state P key now' tok)"
proof (cases "verify_token P key now tok")
  case (Inr c)
  then obtain payload where dec: "jws_decode P key tok = Inr payload"
    and pay: "decode_payload P payload = Inr c" and val: "validate_claims now c = Inr ()"
    unfolding verify_token_def by (rule jwt_decode_Inr)
  from validate_claims_later(1) [OF assms(2) val]
  have "validate_claims now' c \<in> {Inr (), Inl ExpiredSignatureError}" .
  with Inr dec pay show ?thesis
    by (auto simp: token_state_def verify_token_def jwt_decode_def intro: lifecycle.intros)
next
  case (Inl e)
  with assms(1) have e: "e = ExpiredSignatureError"
    by (cases e) (simp_all add: token_state_def)
  with Inl have "jwt_decode P key now tok = Inl ExpiredSignatureError"
    by (simp add: verify_token_def)
  then obtain payload c where dec: "jws_decode P key tok = Inr payload"
    and pay: "decode_payload P payload = Inr c"
    and val: "validate_claims now c = Inl ExpiredSignatureError"
    by (rule jwt_decode_expired)
  from validate_claims_later(2) [OF assms(2) val]
  have "validate_claims now' c = Inl ExpiredSignatureError" .
  with Inl e dec pay show ?thesis
    by (simp add: token_state_def verify_token_def jwt_decode_def lifecycle.intros)
qed

theorem token_state_lifecycle_witness:
  "lifecycle (token_state sample_jwt ''key'' 0 (issue_token sample_jwt ''key'' (JStr ''bob'') 0))
             (token_state sample_jwt ''key'' 7200000000 (issue_token sample_jwt ''key'' (JStr ''bob'') 0))"
proof -
  have "token_state sample_jwt ''key'' 0 (issue_token sample_jwt ''key'' (JStr ''bob'') 0) = Valid"
    by (simp add: token_state_issued sample_jwt_ok token_ttl_def)
  then show ?thesis by (intro token_state_lifecycle) simp_all
qed

text \<open>
  C21: the lifetime of a token from \<open>login\<close> is two hours less the microseconds that
  the conversion of \<open>exp\<close> to whole seconds drops: it is valid for at least 7199
  seconds after its issue and expired 7200 seconds after it.
\<close>

theorem issued_token_lifetime:
  assumes "b64_ok P" and "json_ok P"
  shows "(now \<le> t + 7199000000 \<longrightarrow> token_state P key now (issue_token P key u t) = Valid)
         \<and> (t + 7200000000 \<le> now \<longrightarrow> token_state P key now (issue_token P key u t) = Expired)"
  using login_exp_bounds [of t] by (simp add: token_state_issued [OF assms])

theorem issued_token_lifetime_witness:
  "token_state sample_jwt ''key'' 7199999999 (issue_token sample_jwt ''key'' (JStr ''bob'') 999999) = Valid
   \<and> token_state sample_jwt ''key'' 7200999999 (issue_token sample_jwt ''key'' (JStr ''bob'') 999999) = Expired"
proof
  show "token_state sample_jwt ''key'' 7199999999 (issue_token sample_jwt ''key'' (JStr ''bob'') 999999) = Valid"
    using issued_token_lifetime [OF sample_jwt_ok, of 7199999999 999999 "''key''" "JStr ''bob''"]
    by simp
  show "token_state sample_jwt ''key'' 7200999999 (issue_token sample_jwt ''key'' (JStr ''bob'') 999999) = Expired"
    using issued_token_lifetime [OF sample_jwt_ok, of 7200999999 999999 "''key''" "JStr ''bob''"]
    by simp
qed

end
