(* ===== verification/App.thy ===== *)
theory App
  imports Store Hasher Token
begin

text \<open>
  The request handlers of src/flask-user-auth-api/app.py: \<open>register\<close>,
  \<open>login\<close> and \<open>protected\<close>, over the persistent state of the application (the file
  users.db). Each handler is modelled from its body: \<open>request.json\<close>, the calls to
  the hasher, the store and the token library, the early returns and the bare
  \<open>except:\<close> clauses. An exception that no clause catches becomes the error value
  \<open>InternalError\<close> (Flask's 500 response); Flask's own refusal of a body that is not
  JSON is \<open>UnsupportedMediaType\<close> (415) or \<open>BadRequest\<close> (400). A handler returns its
  outcome together with the new state, which matters because \<open>get_db\<close> creates the
  table before a later statement may fail. The libraries are the parameters
  \<open>kdf_prims\<close> and \<open>jwt_prims\<close>; the random draws of the salt and the clock are
  inputs of the request.
\<close>

section \<open>Requests, responses and the application's state\<close>

text \<open>
  What \<open>request.json\<close> yields: Flask refuses a body whose content type is not JSON
  (415) and a body that does not parse (400); otherwise the parsed document.
\<close>

datatype req_body = BodyUnsupported | BodyMalformed | BodyJson json

text \<open>The JSON messages of the handlers' \<open>jsonify\<close> calls.\<close>

datatype message =
    UserCreated          \<comment> \<open>\<open>{"message": "Usuario criado!"}\<close>\<close>
  | UserExists           \<comment> \<open>\<open>{"error": "Usuario ja existe"}\<close>\<close>
  | InvalidCredentials   \<comment> \<open>\<open>{"error": "Credenciais invalidas"}\<close>\<close>
  | TokenIs string       \<comment> \<open>\<open>{"token": token}\<close>\<close>
  | TokenMissing         \<comment> \<open>\<open>{"error": "Token ausente"}\<close>\<close>
  | TokenInvalid         \<comment> \<open>\<open>{"error": "Token invalido"}\<close>\<close>
  | AccessAllowed        \<comment> \<open>\<open>{"message": "Acesso permitido!"}\<close>\<close>

record response =
  status :: nat
  msg :: message

datatype app_error = UnsupportedMediaType | BadRequest | InternalError

type_synonym outcome = "app_error + response"

text \<open>The libraries the handlers call.\<close>

record libs =
  kdf :: kdf_prims
  jwt :: jwt_prims

definition SECRET_KEY :: string where
  "SECRET_KEY = ''c91f8e3a4d7b1f2c9eb72a94f5bd13eaa6c4d2f8b73c91e4f0a6b1d29cf84e31''"

definition resp :: "nat \<Rightarrow> message \<Rightarrow> outcome" where
  "resp s m = Inr \<lparr>status = s, msg = m\<rparr>"

section \<open>The handlers\<close>

text \<open>
  The bare \<open>except:\<close> of \<open>register()\<close> (lines 25-26): whatever the INSERT or the
  commit raised, the answer is 400 with the message of an existing user.
\<close>

definition register_except :: "sql_error \<Rightarrow> outcome" where
  "register_except e = resp 400 UserExists"

text \<open>
  \<open>register()\<close>: the password is hashed before the database is opened, outside the
  \<open>try\<close>; every failure of the INSERT goes to the \<open>except:\<close> clause.
\<close>

definition register :: "libs \<Rightarrow> (nat \<Rightarrow> nat) \<Rightarrow> req_body \<Rightarrow> database \<Rightarrow> outcome \<times> database" where
  "register L rnd body d =
     (case body of
        BodyUnsupported \<Rightarrow> (Inl UnsupportedMediaType, d)
      | BodyMalformed \<Rightarrow> (Inl BadRequest, d)
      | BodyJson (JObj data) \<Rightarrow>
          (case generate_password_hash (kdf L) rnd (py_get data ''password'') of
             Inl _ \<Rightarrow> (Inl InternalError, d)
           | Inr password \<Rightarrow>
               (case execute_insert (get_db d) (py_get data ''username'') password of
                  Inl e \<Rightarrow> (register_except e, Some (get_db d))
                | Inr t' \<Rightarrow> (resp 200 UserCreated, Some t')))
      | BodyJson _ \<Rightarrow> (Inl InternalError, d))"

text \<open>
  \<open>login()\<close>: the SELECT binds the username outside any \<open>try\<close>; a missing row and a
  wrong password both give 401; the token carries the username as the request sent it.
\<close>

definition login :: "libs \<Rightarrow> int \<Rightarrow> req_body \<Rightarrow> database \<Rightarrow> outcome \<times> database" where
  "login L now body d =
     (case body of
        BodyUnsupported \<Rightarrow> (Inl UnsupportedMediaType, d)
      | BodyMalformed \<Rightarrow> (Inl BadRequest, d)
      | BodyJson (JObj data) \<Rightarrow>
          (case execute_select (get_db d) (py_get data ''username'') of
             Inl _ \<Rightarrow> (Inl InternalError, Some (get_db d))
           | Inr None \<Rightarrow> (resp 401 InvalidCredentials, Some (get_db d))
           | Inr (Some row) \<Rightarrow>
               (case row_password row of
                  None \<Rightarrow> (Inl InternalError, Some (get_db d))
                | Some ph \<Rightarrow>
                    (case check_password_hash (kdf L) ph (py_get data ''password'') of
                       Inl _ \<Rightarrow> (Inl InternalError, Some (get_db d))
                     | Inr False \<Rightarrow> (resp 401 InvalidCredentials, Some (get_db d))
                     | Inr True \<Rightarrow>
                         (resp 200 (TokenIs (issue_token (jwt L) SECRET_KEY
                                              (py_get data ''username'') now)),
                          Some (get_db d)))))
      | BodyJson _ \<Rightarrow> (Inl InternalError, d))"

text \<open>
  \<open>protected()\<close>: the \<open>Authorization\<close> header is decoded as it is, without a
  \<open>Bearer\<close> prefix; every decoding error gives 403. The database is not opened.
\<close>

definition protected :: "libs \<Rightarrow> int \<Rightarrow> string option \<Rightarrow> outcome" where
  "protected L now auth =
     (case auth of
        None \<Rightarrow> resp 401 TokenMissing
      | Some tok \<Rightarrow>
          (if tok = [] then resp 401 TokenMissing
           else (case verify_token (jwt L) SECRET_KEY now tok of
                   Inl _ \<Rightarrow> resp 403 TokenInvalid
                 | Inr _ \<Rightarrow> resp 200 AccessAllowed)))"

section \<open>The application as a state machine\<close>

text \<open>
  A request with its inputs from the environment: the random draws of the salt for
  \<open>/register\<close>, the clock for \<open>/login\<close> and \<open>/protected\<close>.
\<close>

datatype request =
    Register "nat \<Rightarrow> nat" req_body
  | Login int req_body
  | Protected int "string option"

fun app_step :: "libs \<Rightarrow> database \<Rightarrow> request \<Rightarrow> outcome \<times> database" where
  "app_step L d (Register rnd body) = register L rnd body d"
| "app_step L d (Login now body) = login L now body d"
| "app_step L d (Protected now auth) = (protected L now auth, d)"

text \<open>
  The requests are served one after another: SQLite serialises the writing
  transactions of concurrent requests, and the only write, the INSERT of
  \<open>register\<close>, is committed in one transaction.
\<close>

fun app_run :: "libs \<Rightarrow> database \<Rightarrow> request list \<Rightarrow> outcome list \<times> database" where
  "app_run L d [] = ([], d)"
| "app_run L d (r # rs) =
     (let (o1, d1) = app_step L d r; (os, d2) = app_run L d1 rs in (o1 # os, d2))"

inductive reachable :: "libs \<Rightarrow> database \<Rightarrow> bool" for L where
  init: "reachable L None"
| step: "reachable L d \<Longrightarrow> reachable L (snd (app_step L d r))"

definition db_inv :: "database \<Rightarrow> bool" where
  "db_inv d = (case d of None \<Rightarrow> True | Some t \<Rightarrow> users_inv t)"

text \<open>Every stored password is a hash in werkzeug's default format.\<close>

definition hashes_ok :: "users_table \<Rightarrow> bool" where
  "hashes_ok t =
     list_all (\<lambda>r. case row_password r of None \<Rightarrow> False | Some ph \<Rightarrow> werkzeug_hash_format ph) (rows t)"

text \<open>Sample libraries, for the witnesses: the sample primitives of the hasher and of the token library.\<close>

definition sample_libs :: libs where
  "sample_libs = \<lparr>kdf = sample_kdf, jwt = sample_jwt\<rparr>"

section \<open>Lemmas\<close>

named_theorems app_simps "rules that evaluate the handlers"

declare register_except_def [app_simps]

lemma resp_eq_iff [app_simps]: "resp s m = resp s' m' \<longleftrightarrow> s = s' \<and> m = m'"
  by (simp add: resp_def)

lemma execute_insert_Inr:
  assumes "execute_insert t u p = Inr t'"
  obtains v where "sql_bind u = Some v" and "insert_user t v (SText p) = Inr t'"
  using assms by (auto simp: execute_insert_def split: option.splits)

lemma insert_user_rows:
  "insert_user t u p = Inr t' \<Longrightarrow>
     rows t' = rows t @ [\<lparr>row_id = next_rowid t, row_username = text_affinity u,
                           row_password = text_affinity p\<rparr>]"
  by (auto simp: insert_user_def Let_def split: if_splits)

text \<open>What a \<open>register\<close> that answers \<open>UserCreated\<close> has done.\<close>

lemma register_created:
  assumes "register L rnd body d = (resp 200 UserCreated, d')"
  obtains data ph t' where "body = BodyJson (JObj data)"
    and "generate_password_hash (kdf L) rnd (py_get data ''password'') = Inr ph"
    and "execute_insert (get_db d) (py_get data ''username'') ph = Inr t'"
    and "d' = Some t'"
  using assms
  by (auto simp: register_def register_except_def resp_def split: req_body.splits json.splits sum.splits)

lemma register_db:
  "snd (register L rnd body d) = d \<or> snd (register L rnd body d) = Some (get_db d) \<or>
   (\<exists>t'. snd (register L rnd body d) = Some t' \<and>
         (\<exists>u p. execute_insert (get_db d) u p = Inr t'))"
  by (auto simp: register_def split: req_body.splits json.splits sum.splits)

lemma login_db: "snd (login L now body d) = d \<or> snd (login L now body d) = Some (get_db d)"
  by (auto simp: login_def split: req_body.splits json.splits sum.splits option.splits bool.splits)

lemma get_db_Some [app_simps]: "get_db (Some t) = t"
  by (simp add: get_db_def)

lemma db_inv_get_db [app_simps]: "db_inv d \<Longrightarrow> db_inv (Some (get_db d))"
  using get_db_inv [of d] by (simp add: db_inv_def split: option.splits)

lemma users_inv_get_db: "db_inv d \<Longrightarrow> users_inv (get_db d)"
  using get_db_inv [of d] by (simp add: db_inv_def split: option.splits)

lemma app_step_inv: "db_inv d \<Longrightarrow> db_inv (snd (app_step L d r))"
proof (cases r)
  case (Register rnd body)
  assume inv: "db_inv d"
  have "db_inv (Some t')" if "execute_insert (get_db d) u p = Inr t'" for u p t'
    using that users_inv_get_db [OF inv]
    by (auto elim!: execute_insert_Inr simp: db_inv_def intro: insert_user_inv)
  with inv Register register_db [of L rnd body d] show ?thesis
    by (auto simp: db_inv_get_db)
next
  case (Login now body)
  assume "db_inv d"
  with Login login_db [of L now body d] show ?thesis by (auto simp: db_inv_get_db)
qed simp

lemma reachable_db_inv: "reachable L d \<Longrightarrow> db_inv d"
  by (induction rule: reachable.induct) (simp add: db_inv_def, erule app_step_inv)

lemma sql_bind_not_null:
  "sql_bind u = Some v \<Longrightarrow> u \<noteq> JNull \<Longrightarrow> \<exists>n. text_affinity v = Some n"
  by (cases u) (auto split: if_splits)

lemma register_insert_fails:
  assumes "generate_password_hash (kdf L) rnd (py_get data ''password'') = Inr ph"
    and "execute_insert (get_db d) (py_get data ''username'') ph = Inl e"
  shows "register L rnd (BodyJson (JObj data)) d = (resp 400 UserExists, Some (get_db d))"
  using assms by (simp add: register_def register_except_def)

text \<open>
  The row a successful \<open>register\<close> stored, in a state of the invariant: the username
  after TEXT affinity, and the hash \<open>generate_password_hash\<close> returned.
\<close>

lemma register_created_row:
  assumes inv: "db_inv d"
    and reg: "register L rnd (BodyJson (JObj data)) d = (resp 200 UserCreated, Some t)"
    and u: "py_get data ''username'' \<noteq> JNull"
  obtains v n ph where "sql_bind (py_get data ''username'') = Some v" and "text_affinity v = Some n"
    and "generate_password_hash (kdf L) rnd (py_get data ''password'') = Inr ph"
    and "select_user t v = Some \<lparr>row_id = seq (get_db d) + 1, row_username = Some n,
                                  row_password = Some ph\<rparr>"
    and "n \<notin> set (stored_usernames (get_db d))"
    and "rows t = rows (get_db d) @ [\<lparr>row_id = seq (get_db d) + 1, row_username = Some n,
                                      row_password = Some ph\<rparr>]"
proof -
  from reg obtain data' ph t' where "BodyJson (JObj data) = BodyJson (JObj data')"
    and gen: "generate_password_hash (kdf L) rnd (py_get data' ''password'') = Inr ph"
    and ins: "execute_insert (get_db d) (py_get data' ''username'') ph = Inr t'"
    and "Some t = Some t'"
    by (rule register_created)
  then have gen: "generate_password_hash (kdf L) rnd (py_get data ''password'') = Inr ph"
    and ins: "execute_insert (get_db d) (py_get data ''username'') ph = Inr t" by simp_all
  from ins obtain v where b: "sql_bind (py_get data ''username'') = Some v"
    and ins': "insert_user (get_db d) v (SText ph) = Inr t"
    by (rule execute_insert_Inr)
  from sql_bind_not_null [OF b u] obtain n where n: "text_affinity v = Some n" by blast
  have ui: "users_inv (get_db d)" using inv by (rule users_inv_get_db)
  have "n \<notin> set (stored_usernames (get_db d))"
    using ins' insert_user_taken [OF n, of "get_db d" "SText ph"] by (auto simp: username_taken_iff)
  with that [OF b n gen] insert_then_select [OF ui ins' n] insert_user_Inr [OF ui ins'] n
  show ?thesis by simp
qed

lemma login_found:
  assumes "sql_bind (py_get data ''username'') = Some v" and "select_user t v = Some r"
    and "row_password r = Some ph"
  shows "login L now (BodyJson (JObj data)) (Some t) =
           (case check_password_hash (kdf L) ph (py_get data ''password'') of
              Inl _ \<Rightarrow> (Inl InternalError, Some t)
            | Inr False \<Rightarrow> (resp 401 InvalidCredentials, Some t)
            | Inr True \<Rightarrow> (resp 200 (TokenIs (issue_token (jwt L) SECRET_KEY
                                          (py_get data ''username'') now)), Some t))"
  using assms by (simp add: login_def execute_select_def get_db_Some cong: sum.case_cong bool.case_cong)

lemma issue_token_not_Nil: "issue_token P key u now \<noteq> []"
  by (simp add: issue_token_def jwt_encode_def jws_encode_def)

lemma verify_issued:
  assumes "b64_ok P" and "json_ok P" and "now' < (now div 1000000 + token_ttl) * 1000000"
  shows "verify_token P key now' (issue_token P key u now) = Inr (login_claims u now)"
  using assms
  by (simp add: verify_token_def issue_token_def jwt_decode_encode validate_login_claims)

lemma verify_issued_expired:
  assumes "b64_ok P" and "json_ok P" and "(now div 1000000 + token_ttl) * 1000000 \<le> now'"
  shows "verify_token P key now' (issue_token P key u now) = Inl ExpiredSignatureError"
  using assms
  by (simp add: verify_token_def issue_token_def jwt_decode_encode validate_login_claims)

lemma check_password_hash_not_str:
  assumes "generate_password_hash k rnd password = Inr ph" and "\<forall>s. pw \<noteq> JStr s"
  shows "check_password_hash k ph pw = Inl PasswordAttributeError"
proof -
  from assms(1) obtain salt d where salt: "gen_salt 16 rnd = Some salt"
    and ph: "ph = scrypt_method 32768 8 1 @ ''$'' @ salt @ ''$'' @ hex_str d"
    by (rule generate_password_hash_Inr)
  with split3_stored_hash [OF salt] assms(2) show ?thesis
    by (simp add: check_password_hash_def hash_internal_scrypt_method split: json.splits)
qed

definition sample_t1 :: users_table where
  "sample_t1 = \<lparr>rows = [\<lparr>row_id = 1, row_username = Some ''bob'',
                         row_password = Some ''scrypt:32768:8:1$abcdefghijklmnop$7077''\<rparr>],
                seq = 1\<rparr>"

lemma sample_register:
  "register sample_libs (\<lambda>i. i) (BodyJson (JObj [(''username'', JStr ''bob''), (''password'', JStr ''pw'')])) None =
     (resp 200 UserCreated, Some sample_t1)"
  by (simp add: register_def sample_libs_def py_get_def sample_hashes(1) execute_insert_def insert_user_def
                get_db_def empty_users_def next_rowid_def username_taken_def max_rowid_def sample_t1_def)

lemma hashes_ok_get_db: "hashes_ok (get_db d) \<Longrightarrow> hashes_ok (get_db (Some (get_db d)))"
  by (simp add: get_db_Some)

lemma hashes_ok_insert:
  assumes "hashes_ok t" and "execute_insert t u ph = Inr t'" and "werkzeug_hash_format ph"
  shows "hashes_ok t'"
  using assms(2)
proof (rule execute_insert_Inr)
  fix v assume "insert_user t v (SText ph) = Inr t'"
  from insert_user_rows [OF this] assms(1,3) show ?thesis by (simp add: hashes_ok_def)
qed

lemma app_step_hashes_ok:
  assumes "hashes_ok (get_db d)"
  shows "hashes_ok (get_db (snd (app_step L d r)))"
proof (cases r)
  case (Register rnd body)
  show ?thesis
  proof (cases "\<exists>data. body = BodyJson (JObj data)")
    case False
    then have "snd (register L rnd body d) = d"
      by (auto simp: register_def split: req_body.split json.split)
    with Register assms show ?thesis by simp
  next
    case True
    then obtain data where body: "body = BodyJson (JObj data)" by blast
    show ?thesis
    proof (cases "generate_password_hash (kdf L) rnd (py_get data ''password'')")
      case (Inl e)
      with Register body assms show ?thesis by (simp add: register_def)
    next
      case (Inr ph)
      note fmt = generate_password_hash_format [OF Inr]
      show ?thesis
      proof (cases "execute_insert (get_db d) (py_get data ''username'') ph")
        case (Inl e)
        with Register body assms Inr show ?thesis by (simp add: register_def get_db_Some)
      next
        case (Inr t')
        with Register body assms \<open>generate_password_hash _ _ _ = Inr ph\<close> hashes_ok_insert [OF assms Inr fmt]
        show ?thesis by (simp add: register_def get_db_Some)
      qed
    qed
  qed
next
  case (Login now body)
  with login_db [of L now body d] assms show ?thesis by (auto simp: get_db_Some)
qed (simp add: assms)

section \<open>Properties of the application\<close>

text \<open>
  C2: in every state the application reaches, the table satisfies the store's
  invariant: the stored usernames are distinct, the row ids increase and stay within
  the sequence entry, and the sequence entry within \<open>2^63 - 1\<close>.
\<close>

theorem reachable_users_inv:
  "reachable L d \<Longrightarrow> users_inv (get_db d)"
  by (rule users_inv_get_db) (rule reachable_db_inv)

theorem reachable_users_inv_witness:
  "users_inv (get_db (snd (app_step sample_libs None
     (Register (\<lambda>i. i) (BodyJson (JObj [(''username'', JStr ''bob''), (''password'', JStr ''pw'')]))))))"
  by (rule reachable_users_inv) (rule reachable.step [OF reachable.init])

text \<open>
  C19: the store is append-only: no request deletes or changes a stored user; a request
  adds at most one row, at the end.
\<close>

theorem app_step_rows_append:
  "\<exists>xs. rows (get_db (snd (app_step L d r))) = rows (get_db d) @ xs \<and> length xs \<le> 1"
proof (cases r)
  case (Register rnd body)
  have "\<exists>xs. rows t' = rows (get_db d) @ xs \<and> length xs \<le> 1"
    if "execute_insert (get_db d) u p = Inr t'" for u p t'
    using that by (auto elim!: execute_insert_Inr dest!: insert_user_rows)
  with Register register_db [of L rnd body d] show ?thesis
    by (auto simp: get_db_Some)
next
  case (Login now body)
  with login_db [of L now body d] show ?thesis by (auto simp: get_db_Some)
qed simp

text \<open>
  C1: register, then log in, then call the protected route: in any reachable state, a
  registration that succeeds makes the same credentials log in, and the token returned
  opens \<open>/protected\<close> for 7199 seconds at least, for any primitives that satisfy the
  round-trip laws. A username sent as JSON \<open>null\<close> is excluded: it is stored as NULL
  and never matches.
\<close>

theorem register_login_protected:
  assumes "reachable L d" and "b64_ok (jwt L)" and "json_ok (jwt L)"
    and "register L rnd (BodyJson (JObj data)) d = (resp 200 UserCreated, Some t)"
    and "py_get data ''username'' \<noteq> JNull" and "now' \<le> now + 7199000000"
  shows "\<exists>tok. login L now (BodyJson (JObj data)) (Some t) = (resp 200 (TokenIs tok), Some t)
              \<and> protected L now' (Some tok) = resp 200 AccessAllowed"
proof -
  from reachable_db_inv [OF assms(1)] assms(4,5) obtain v n ph
    where b: "sql_bind (py_get data ''username'') = Some v"
      and gen: "generate_password_hash (kdf L) rnd (py_get data ''password'') = Inr ph"
      and sel: "select_user t v = Some \<lparr>row_id = seq (get_db d) + 1, row_username = Some n,
                                         row_password = Some ph\<rparr>"
    by (rule register_created_row)
  let ?tok = "issue_token (jwt L) SECRET_KEY (py_get data ''username'') now"
  have "login L now (BodyJson (JObj data)) (Some t) = (resp 200 (TokenIs ?tok), Some t)"
    using login_found [OF b sel] check_generated_hash [OF gen] by simp
  moreover have "now' < (now div 1000000 + token_ttl) * 1000000"
    using login_exp_bounds(1) [of now] assms(6) by simp
  then have "protected L now' (Some ?tok) = resp 200 AccessAllowed"
    using assms(2,3) by (simp add: protected_def issue_token_not_Nil verify_issued)
  ultimately show ?thesis by blast
qed

theorem register_login_protected_witness:
  "\<exists>tok. login sample_libs 0 (BodyJson (JObj [(''username'', JStr ''bob''), (''password'', JStr ''pw'')]))
            (Some sample_t1) = (resp 200 (TokenIs tok), Some sample_t1)
         \<and> protected sample_libs 3600000000 (Some tok) = resp 200 AccessAllowed"
  by (rule register_login_protected [OF reachable.init _ _ sample_register])
     (simp_all add: sample_libs_def sample_jwt_ok py_get_def)

text \<open>
  C12: registering a username that is already stored answers 400 \<open>UserExists\<close> and
  leaves the table unchanged; the username is compared after TEXT affinity, so the
  integer \<open>5\<close> and the string \<open>"5"\<close> are the same user.
\<close>

theorem register_existing_user:
  assumes "sql_bind (py_get data ''username'') = Some v" and "text_affinity v = Some n"
    and "n \<in> set (stored_usernames (get_db d))"
    and "generate_password_hash (kdf L) rnd (py_get data ''password'') = Inr ph"
  shows "register L rnd (BodyJson (JObj data)) d = (resp 400 UserExists, Some (get_db d))"
proof -
  from assms(2,3) obtain e where "insert_user (get_db d) v (SText ph) = Inl e"
    using insert_user_taken [of v n "get_db d" "SText ph"] by (auto simp: username_taken_iff)
  with assms(1) have "execute_insert (get_db d) (py_get data ''username'') ph = Inl e"
    by (simp add: execute_insert_def)
  with assms(4) show ?thesis by (rule register_insert_fails)
qed

theorem register_existing_user_witness:
  "register sample_libs Suc (BodyJson (JObj [(''username'', JStr ''bob''), (''password'', JStr ''pw'')]))
     (Some sample_t1) = (resp 400 UserExists, Some sample_t1)"
  using register_existing_user [of "[(''username'', JStr ''bob''), (''password'', JStr ''pw'')]"
          "SText ''bob''" "''bob''" "Some sample_t1" sample_libs Suc
          "''scrypt:32768:8:1$bcdefghijklmnopq$7077''"]
  by (simp add: py_get_def sample_t1_def stored_usernames_def get_db_def sample_libs_def
                sample_hashes(2))

text \<open>
  C14: the bare \<open>except:\<close> of \<open>register\<close> reports every failure of the INSERT as an
  existing user: a username sent as a JSON list or object (which sqlite3 refuses to
  bind) and a table whose row ids are used up both answer 400 \<open>UserExists\<close>.
\<close>

theorem register_errors_as_duplicate:
  assumes "generate_password_hash (kdf L) rnd (py_get data ''password'') = Inr ph"
  shows "(sql_bind (py_get data ''username'') = None \<longrightarrow>
            register L rnd (BodyJson (JObj data)) d = (resp 400 UserExists, Some (get_db d)))
         \<and> (db_inv d \<and> seq (get_db d) = max_rowid \<longrightarrow>
            register L rnd (BodyJson (JObj data)) d = (resp 400 UserExists, Some (get_db d)))"
proof (intro conjI impI)
  assume "sql_bind (py_get data ''username'') = None"
  then show "register L rnd (BodyJson (JObj data)) d = (resp 400 UserExists, Some (get_db d))"
    using register_insert_fails [OF assms, of d BindError] by (simp add: execute_insert_def)
next
  assume "db_inv d \<and> seq (get_db d) = max_rowid"
  then have "insert_user (get_db d) v (SText ph) = Inl FullError" for v
    using users_inv_get_db by (simp add: insert_user_def Let_def next_rowid_inv)
  then have "\<exists>e. execute_insert (get_db d) (py_get data ''username'') ph = Inl e"
    by (simp add: execute_insert_def split: option.splits)
  with register_insert_fails [OF assms] show "register L rnd (BodyJson (JObj data)) d =
      (resp 400 UserExists, Some (get_db d))" by blast
qed

theorem register_errors_as_duplicate_witness:
  "register sample_libs (\<lambda>i. i) (BodyJson (JObj [(''username'', JArr []), (''password'', JStr ''pw'')]))
     None = (resp 400 UserExists, Some empty_users)
   \<and> register sample_libs (\<lambda>i. i) (BodyJson (JObj [(''username'', JStr ''bob''), (''password'', JStr ''pw'')]))
     (Some \<lparr>rows = [], seq = max_rowid\<rparr>) = (resp 400 UserExists, Some \<lparr>rows = [], seq = max_rowid\<rparr>)"
proof
  show "register sample_libs (\<lambda>i. i) (BodyJson (JObj [(''username'', JArr []), (''password'', JStr ''pw'')]))
     None = (resp 400 UserExists, Some empty_users)"
    using register_errors_as_duplicate [of sample_libs "\<lambda>i. i"
            "[(''username'', JArr []), (''password'', JStr ''pw'')]"
            "''scrypt:32768:8:1$abcdefghijklmnop$7077''" None]
    by (simp add: py_get_def sample_libs_def sample_hashes(1) get_db_def)
  show "register sample_libs (\<lambda>i. i) (BodyJson (JObj [(''username'', JStr ''bob''), (''password'', JStr ''pw'')]))
     (Some \<lparr>rows = [], seq = max_rowid\<rparr>) = (resp 400 UserExists, Some \<lparr>rows = [], seq = max_rowid\<rparr>)"
    using register_errors_as_duplicate [of sample_libs "\<lambda>i. i"
            "[(''username'', JStr ''bob''), (''password'', JStr ''pw'')]"
            "''scrypt:32768:8:1$abcdefghijklmnop$7077''" "Some \<lparr>rows = [], seq = max_rowid\<rparr>"]
    by (simp add: py_get_def sample_libs_def sample_hashes(1) get_db_def db_inv_def users_inv_def
                  stored_usernames_def max_rowid_def)
qed

text \<open>
  C24: an integer username collides with its decimal text: once the integer \<open>i\<close> is
  registered, registering the string of its digits answers 400 \<open>UserExists\<close>.
\<close>

theorem register_int_text_collision:
  assumes "reachable L d"
    and "register L rnd (BodyJson (JObj data)) d = (resp 200 UserCreated, Some t)"
    and "py_get data ''username'' = JInt i"
    and "py_get data' ''username'' = JStr (int_str i)"
    and "generate_password_hash (kdf L) rnd' (py_get data' ''password'') = Inr ph'"
  shows "register L rnd' (BodyJson (JObj data')) (Some t) = (resp 400 UserExists, Some t)"
proof -
  from reachable_db_inv [OF assms(1)] assms(2) obtain v n ph
    where b: "sql_bind (py_get data ''username'') = Some v" and n: "text_affinity v = Some n"
      and rows: "rows t = rows (get_db d) @ [\<lparr>row_id = seq (get_db d) + 1, row_username = Some n,
                                                row_password = Some ph\<rparr>]"
    by (rule register_created_row) (simp add: assms(3))
  from b n assms(3) have "n = int_str i" by (auto split: if_splits)
  with rows have "username_taken t (int_str i)" by (simp add: username_taken_def)
  then obtain e where "insert_user t (SText (int_str i)) (SText ph') = Inl e"
    using insert_user_taken [of "SText (int_str i)" "int_str i" t "SText ph'"] by auto
  with assms(4) have "execute_insert (get_db (Some t)) (py_get data' ''username'') ph' = Inl e"
    by (simp add: execute_insert_def get_db_Some)
  from register_insert_fails [OF assms(5) this] show ?thesis by (simp add: get_db_Some)
qed

lemma sample_register_int:
  "register sample_libs (\<lambda>i. i) (BodyJson (JObj [(''username'', JInt 5), (''password'', JStr ''pw'')])) None =
     (resp 200 UserCreated, Some \<lparr>rows = [\<lparr>row_id = 1, row_username = Some ''5'',
                         row_password = Some ''scrypt:32768:8:1$abcdefghijklmnop$7077''\<rparr>], seq = 1\<rparr>)"
  by (simp add: register_def sample_libs_def py_get_def sample_hashes(1) execute_insert_def insert_user_def
                get_db_def empty_users_def next_rowid_def username_taken_def max_rowid_def
                int_str_def nat_digits.simps digit_char_def int64_fits_def)

theorem register_int_text_collision_witness:
  "register sample_libs Suc (BodyJson (JObj [(''username'', JStr ''5''), (''password'', JStr ''pw'')]))
     (Some \<lparr>rows = [\<lparr>row_id = 1, row_username = Some ''5'',
                     row_password = Some ''scrypt:32768:8:1$abcdefghijklmnop$7077''\<rparr>], seq = 1\<rparr>) =
   (resp 400 UserExists, Some \<lparr>rows = [\<lparr>row_id = 1, row_username = Some ''5'',
                     row_password = Some ''scrypt:32768:8:1$abcdefghijklmnop$7077''\<rparr>], seq = 1\<rparr>)"
  using register_int_text_collision [OF reachable.init sample_register_int, of 5
          "[(''username'', JStr ''5''), (''password'', JStr ''pw'')]" Suc
          "''scrypt:32768:8:1$bcdefghijklmnopq$7077''"]
  by (simp add: py_get_def sample_libs_def sample_hashes(2) int_str_def nat_digits.simps digit_char_def)

text \<open>
  C9: logging in as a user that is not stored answers 401 \<open>InvalidCredentials\<close>,
  whatever password is sent, and changes nothing but the creation of the table.
\<close>

theorem login_unknown_user:
  assumes "sql_bind (py_get data ''username'') = Some v"
    and "case text_affinity v of None \<Rightarrow> True | Some n \<Rightarrow> n \<notin> set (stored_usernames (get_db d))"
  shows "login L now (BodyJson (JObj data)) d = (resp 401 InvalidCredentials, Some (get_db d))"
proof -
  have "select_user (get_db d) v = None"
    using assms(2) by (auto simp: select_user_def find_username_None_iff username_taken_iff
                           split: option.splits)
  with assms(1) show ?thesis by (simp add: login_def execute_select_def)
qed

theorem login_unknown_user_witness:
  "login sample_libs 0 (BodyJson (JObj [(''username'', JStr ''eve''), (''password'', JStr ''pw'')]))
     (Some sample_t1) = (resp 401 InvalidCredentials, Some sample_t1)"
  using login_unknown_user [of "[(''username'', JStr ''eve''), (''password'', JStr ''pw'')]"
          "SText ''eve''" "Some sample_t1" sample_libs 0]
  by (simp add: py_get_def sample_t1_def stored_usernames_def get_db_def)

text \<open>
  C10: a login whose username sqlite3 cannot bind (a JSON list or object, or an
  integer outside 64 bits, which raises \<open>OverflowError\<close>) fails in the SELECT,
  outside any \<open>try\<close>: the answer is a 500 error.
\<close>

theorem login_unbindable_username:
  "sql_bind (py_get data ''username'') = None \<Longrightarrow>
     login L now (BodyJson (JObj data)) d = (Inl InternalError, Some (get_db d))"
  by (simp add: login_def execute_select_def)

theorem login_unbindable_username_witness:
  "login sample_libs 0 (BodyJson (JObj [(''username'', JInt 9223372036854775808), (''password'', JStr ''pw'')]))
     (Some sample_t1) = (Inl InternalError, Some sample_t1)"
  using login_unbindable_username [of "[(''username'', JInt 9223372036854775808), (''password'', JStr ''pw'')]"
          sample_libs 0 "Some sample_t1"]
  by (simp add: py_get_def int64_fits_def get_db_def)

text \<open>
  C3: logging in as a registered user with another password answers the same 401
  \<open>InvalidCredentials\<close> as an unknown user, unless the key derivation function maps
  the two passwords, under the stored salt, to the same digest.
\<close>

theorem login_wrong_password:
  assumes "reachable L d"
    and "register L rnd (BodyJson (JObj data)) d = (resp 200 UserCreated, Some t)"
    and "py_get data ''username'' \<noteq> JNull" and "py_get data ''password'' = JStr p"
    and "py_get data' ''username'' = py_get data ''username''" and "py_get data' ''password'' = JStr q"
    and "gen_salt 16 rnd = Some salt" and "scrypt (kdf L) q salt 32768 8 1 = Some dq"
    and "Some dq \<noteq> scrypt (kdf L) p salt 32768 8 1"
  shows "login L now (BodyJson (JObj data')) (Some t) = (resp 401 InvalidCredentials, Some t)"
proof -
  from reachable_db_inv [OF assms(1)] assms(2,3) obtain v n ph
    where b: "sql_bind (py_get data ''username'') = Some v"
      and gen: "generate_password_hash (kdf L) rnd (py_get data ''password'') = Inr ph"
      and sel: "select_user t v = Some \<lparr>row_id = seq (get_db d) + 1, row_username = Some n,
                                         row_password = Some ph\<rparr>"
    by (rule register_created_row)
  from b assms(5) have b': "sql_bind (py_get data' ''username'') = Some v" by simp
  from gen assms(4) have "generate_password_hash (kdf L) rnd (JStr p) = Inr ph" by simp
  from check_generated_hash_other [OF this assms(7), of q] assms(8,9)
  have "check_password_hash (kdf L) ph (JStr q) = Inr False" by simp
  with login_found [OF b' sel] assms(6) show ?thesis by simp
qed

theorem login_wrong_password_witness:
  "login sample_libs 0 (BodyJson (JObj [(''username'', JStr ''bob''), (''password'', JStr ''wp'')]))
     (Some sample_t1) = (resp 401 InvalidCredentials, Some sample_t1)"
  using login_wrong_password [OF reachable.init sample_register, of "''pw''"
          "[(''username'', JStr ''bob''), (''password'', JStr ''wp'')]" "''wp''" "''abcdefghijklmnop''" "''wp''" 0]
  by (simp add: py_get_def sample_libs_def sample_kdf_def sample_salts(1))

text \<open>
  C13: a login that names a registered user but sends no password, or a password that is
  not a string, makes \<open>check_password_hash\<close> raise \<open>AttributeError\<close> outside any
  \<open>try\<close>: the answer is a 500 error, where the same request for an unknown username
  answers 401, so the response tells which usernames exist.
\<close>

theorem login_missing_password_error:
  assumes "reachable L d"
    and "register L rnd (BodyJson (JObj data)) d = (resp 200 UserCreated, Some t)"
    and "py_get data ''username'' \<noteq> JNull"
    and "py_get data' ''username'' = py_get data ''username''"
    and "\<forall>s. py_get data' ''password'' \<noteq> JStr s"
  shows "login L now (BodyJson (JObj data')) (Some t) = (Inl InternalError, Some t)"
proof -
  from reachable_db_inv [OF assms(1)] assms(2,3) obtain v n ph
    where b: "sql_bind (py_get data ''username'') = Some v"
      and gen: "generate_password_hash (kdf L) rnd (py_get data ''password'') = Inr ph"
      and sel: "select_user t v = Some \<lparr>row_id = seq (get_db d) + 1, row_username = Some n,
                                         row_password = Some ph\<rparr>"
    by (rule register_created_row)
  from b assms(4) have b': "sql_bind (py_get data' ''username'') = Some v" by simp
  from check_password_hash_not_str [OF gen assms(5)] login_found [OF b' sel] show ?thesis by simp
qed

theorem login_missing_password_error_witness:
  "login sample_libs 0 (BodyJson (JObj [(''username'', JStr ''bob'')])) (Some sample_t1) =
     (Inl InternalError, Some sample_t1)"
  using login_missing_password_error [OF reachable.init sample_register,
          of "[(''username'', JStr ''bob'')]" 0]
  by (simp add: py_get_def)

text \<open>
  C23: \<open>protected\<close> answers an expired token from \<open>login\<close> with the same 403
  \<open>TokenInvalid\<close> as a forged one: from 7200 seconds after the login on, the
  expiry is not reported as an error of its own.
\<close>

theorem protected_expired_token:
  assumes "b64_ok (jwt L)" and "json_ok (jwt L)" and "now + 7200000000 \<le> now'"
  shows "protected L now' (Some (issue_token (jwt L) SECRET_KEY u now)) = resp 403 TokenInvalid"
  using login_exp_bounds(2) [of now] assms
  by (simp add: protected_def issue_token_not_Nil verify_issued_expired)

theorem protected_expired_token_witness:
  "protected sample_libs 7200000000 (Some (issue_token sample_jwt SECRET_KEY (JStr ''bob'') 0)) =
     resp 403 TokenInvalid"
  using protected_expired_token [of sample_libs 0 7200000000 "JStr ''bob''"]
  by (simp add: sample_libs_def sample_jwt_ok)

text \<open>
  C15: every password the table holds, in every reachable state, is a hash in
  werkzeug's default format: the method \<open>scrypt:32768:8:1\<close>, a 16-character salt
  and a hex digest. No row has a NULL password, so \<open>login\<close> never fails on one.
\<close>

theorem stored_hashes_wellformed:
  "reachable L d \<Longrightarrow> hashes_ok (get_db d)"
proof (induction rule: reachable.induct)
  case init
  show ?case by (simp add: hashes_ok_def get_db_def empty_users_def)
next
  case (step d r)
  from step.IH show ?case by (rule app_step_hashes_ok)
qed

theorem stored_hashes_wellformed_witness:
  "hashes_ok (get_db (snd (app_step sample_libs None
     (Register (\<lambda>i. i) (BodyJson (JObj [(''username'', JStr ''bob''), (''password'', JStr ''pw'')]))))))"
  by (rule stored_hashes_wellformed) (rule reachable.step [OF reachable.init])

end
