(* ===== verification/Concurrency.thy ===== *)
theory Concurrency
  imports App
begin

text \<open>
  Concurrent requests. \<open>app.run(debug=True)\<close> starts Werkzeug's development server,
  which since Flask 1.0 serves every request in a thread of its own; each handler
  opens its own sqlite3 connection with \<open>get_db()\<close> (database.py). A request is a
  thread whose shared steps are the statements that touch the file users.db; what
  a handler computes from its request alone (parsing the body, hashing the
  password, checking it, encoding the token) is local and is merged into the next
  shared step. SQLite's locking is modelled as the single write lock of the
  rollback journal: the INSERT of \<open>register\<close> takes it (the implicit \<open>BEGIN\<close> of
  sqlite3 defers locking to the first write), \<open>db.commit()\<close> publishes the new row
  and releases it; a SELECT reads the last committed table. An INSERT that finds the
  lock held waits, and after sqlite3's default timeout of five seconds raises
  \<open>OperationalError: database is locked\<close>, which the bare \<open>except:\<close> of
  \<open>register\<close> answers with 400.
\<close>

section \<open>Threads and configurations\<close>

text \<open>
  The program counter of a request thread, with the local variables still live at
  that point: after \<open>get_db()\<close> in \<open>register\<close> (line 19) the username and the hash;
  after the INSERT (lines 21-22) also the uncommitted table; after \<open>get_db()\<close> in
  \<open>login\<close> (line 38) the clock, the username and the password.
\<close>

datatype thread =
    TRegister "nat \<Rightarrow> nat" req_body
  | TRegOpened json string
  | TRegPending json string users_table
  | TLogin int req_body
  | TLogOpened int json json
  | TProtected int "string option"
  | TDone outcome

record config =
  cdb :: database
  writer :: "nat option"
  threads :: "thread list"

definition start_thread :: "request \<Rightarrow> thread" where
  "start_thread r =
     (case r of
        Register rnd body \<Rightarrow> TRegister rnd body
      | Login now body \<Rightarrow> TLogin now body
      | Protected now auth \<Rightarrow> TProtected now auth)"

definition init_config :: "database \<Rightarrow> request list \<Rightarrow> config" where
  "init_config d rs = \<lparr>cdb = d, writer = None, threads = map start_thread rs\<rparr>"

text \<open>
  \<open>login()\<close> after its SELECT (lines 39-49): the answer for the row found, if any.
\<close>

definition login_select :: "libs \<Rightarrow> int \<Rightarrow> json \<Rightarrow> json \<Rightarrow> users_table \<Rightarrow> outcome" where
  "login_select L now username password t =
     (case execute_select t username of
        Inl _ \<Rightarrow> Inl InternalError
      | Inr None \<Rightarrow> resp 401 InvalidCredentials
      | Inr (Some row) \<Rightarrow>
          (case row_password row of
             None \<Rightarrow> Inl InternalError
           | Some ph \<Rightarrow>
               (case check_password_hash (kdf L) ph password of
                  Inl _ \<Rightarrow> Inl InternalError
                | Inr False \<Rightarrow> resp 401 InvalidCredentials
                | Inr True \<Rightarrow> resp 200 (TokenIs (issue_token (jwt L) SECRET_KEY username now)))))"

text \<open>
  The steps of a thread that do not involve the write lock: the first step of each
  handler (up to and including \<open>get_db()\<close>), the SELECT of \<open>login\<close>, and
  \<open>protected\<close>, which never opens the database. \<open>None\<close> for a thread that has no
  such step.
\<close>

fun thread_step :: "libs \<Rightarrow> database \<Rightarrow> thread \<Rightarrow> (database \<times> thread) option" where
  "thread_step L d (TRegister rnd body) = Some
     (case body of
        BodyUnsupported \<Rightarrow> (d, TDone (Inl UnsupportedMediaType))
      | BodyMalformed \<Rightarrow> (d, TDone (Inl BadRequest))
      | BodyJson (JObj data) \<Rightarrow>
          (case generate_password_hash (kdf L) rnd (py_get data ''password'') of
             Inl _ \<Rightarrow> (d, TDone (Inl InternalError))
           | Inr ph \<Rightarrow> (Some (get_db d), TRegOpened (py_get data ''username'') ph))
      | BodyJson _ \<Rightarrow> (d, TDone (Inl InternalError)))"
| "thread_step L d (TLogin now body) = Some
     (case body of
        BodyUnsupported \<Rightarrow> (d, TDone (Inl UnsupportedMediaType))
      | BodyMalformed \<Rightarrow> (d, TDone (Inl BadRequest))
      | BodyJson (JObj data) \<Rightarrow>
          (Some (get_db d), TLogOpened now (py_get data ''username'') (py_get data ''password''))
      | BodyJson _ \<Rightarrow> (d, TDone (Inl InternalError)))"
| "thread_step L d (TLogOpened now u pw) = Some (d, TDone (login_select L now u pw (get_db d)))"
| "thread_step L d (TProtected now auth) = Some (d, TDone (protected L now auth))"
| "thread_step L d _ = None"

text \<open>The interleaving semantics: which thread moves, and how.\<close>

datatype label = Local nat | Insert nat | Commit nat | Timeout nat

text \<open>
  One step of one thread; the others stay where they are. The INSERT binds its
  parameters before it asks for the lock, so a binding error is raised whoever holds
  it; a failed statement leaves no lock behind (the connection is dropped when the
  handler returns). A failed INSERT, and one that gives up waiting for the lock with
  \<open>LockedError\<close>, are answered by \<open>register\<close>'s \<open>except:\<close> clause.
\<close>

inductive cstep :: "libs \<Rightarrow> config \<Rightarrow> label \<Rightarrow> config \<Rightarrow> bool" for L where
  local: "\<lbrakk>i < length (threads c); thread_step L (cdb c) (threads c ! i) = Some (d', t')\<rbrakk>
          \<Longrightarrow> cstep L c (Local i) (c\<lparr>cdb := d', threads := (threads c)[i := t']\<rparr>)"
| insert_fail: "\<lbrakk>i < length (threads c); threads c ! i = TRegOpened u ph;
                 writer c = None \<or> sql_bind u = None;
                 execute_insert (get_db (cdb c)) u ph = Inl e\<rbrakk>
          \<Longrightarrow> cstep L c (Insert i) (c\<lparr>threads := (threads c)[i := TDone (register_except e)]\<rparr>)"
| insert_ok: "\<lbrakk>i < length (threads c); threads c ! i = TRegOpened u ph; writer c = None;
               execute_insert (get_db (cdb c)) u ph = Inr t'\<rbrakk>
          \<Longrightarrow> cstep L c (Insert i)
                (c\<lparr>writer := Some i, threads := (threads c)[i := TRegPending u ph t']\<rparr>)"
| commit: "\<lbrakk>i < length (threads c); threads c ! i = TRegPending u ph t'; writer c = Some i\<rbrakk>
          \<Longrightarrow> cstep L c (Commit i)
                (c\<lparr>cdb := Some t', writer := None,
                    threads := (threads c)[i := TDone (resp 200 UserCreated)]\<rparr>)"
| timeout: "\<lbrakk>i < length (threads c); threads c ! i = TRegOpened u ph; writer c = Some j; j \<noteq> i;
             sql_bind u \<noteq> None\<rbrakk>
          \<Longrightarrow> cstep L c (Timeout i) (c\<lparr>threads := (threads c)[i := TDone (register_except LockedError)]\<rparr>)"

definition csteps :: "libs \<Rightarrow> config \<Rightarrow> config \<Rightarrow> bool" where
  "csteps L = (\<lambda>c c'. \<exists>l. cstep L c l c')\<^sup>*\<^sup>*"

text \<open>Runs in which no INSERT gave up waiting for the lock.\<close>

fun no_timeout :: "label \<Rightarrow> bool" where
  "no_timeout (Timeout i) = False"
| "no_timeout _ = True"

definition csteps_nt :: "libs \<Rightarrow> config \<Rightarrow> config \<Rightarrow> bool" where
  "csteps_nt L = (\<lambda>c c'. \<exists>l. no_timeout l \<and> cstep L c l c')\<^sup>*\<^sup>*"

text \<open>The number of steps a thread has left: it bounds every run.\<close>

fun weight :: "thread \<Rightarrow> nat" where
  "weight (TRegister rnd body) = 3"
| "weight (TRegOpened u ph) = 2"
| "weight (TRegPending u ph t) = 1"
| "weight (TLogin now body) = 2"
| "weight (TLogOpened now u pw) = 1"
| "weight (TProtected now auth) = 1"
| "weight (TDone out) = 0"

text \<open>
  The invariant of a configuration: the committed table satisfies the store's
  invariant, the write lock is held by the one thread whose INSERT is not yet
  committed, and that thread's table is the INSERT applied to the committed one.
\<close>

definition pending_ok :: "config \<Rightarrow> nat \<Rightarrow> bool" where
  "pending_ok c k =
     (case threads c ! k of
        TRegPending u ph t' \<Rightarrow> writer c = Some k \<and> execute_insert (get_db (cdb c)) u ph = Inr t'
      | _ \<Rightarrow> writer c \<noteq> Some k)"

definition cinv :: "config \<Rightarrow> bool" where
  "cinv c \<longleftrightarrow> db_inv (cdb c) \<and> (case writer c of None \<Rightarrow> True | Some j \<Rightarrow> j < length (threads c))
            \<and> (\<forall>k < length (threads c). pending_ok c k)"

fun is_done :: "thread \<Rightarrow> bool" where
  "is_done (TDone out) = True"
| "is_done _ = False"

definition all_done :: "config \<Rightarrow> bool" where
  "all_done c \<longleftrightarrow> list_all is_done (threads c)"

text \<open>The threads that answered \<open>UserCreated\<close>.\<close>

definition created :: "thread \<Rightarrow> nat" where
  "created t = (if t = TDone (resp 200 UserCreated) then 1 else 0)"

definition count_created :: "thread list \<Rightarrow> nat" where
  "count_created ts = sum_list (map created ts)"

text \<open>A thread that registers, if it registers at all, the username \<open>n\<close>.\<close>

fun thread_user :: "string \<Rightarrow> thread \<Rightarrow> bool" where
  "thread_user n (TRegister rnd (BodyJson (JObj data))) = (py_get data ''username'' = JStr n)"
| "thread_user n (TRegOpened u ph) = (u = JStr n)"
| "thread_user n (TRegPending u ph t) = (u = JStr n)"
| "thread_user n _ = True"

text \<open>
  Registrations of \<open>n\<close>: the threads that answered \<open>UserCreated\<close>, plus one if the
  initial table already held \<open>n\<close>, is one if the committed table holds \<open>n\<close>.
\<close>

definition cnt_inv :: "string \<Rightarrow> database \<Rightarrow> config \<Rightarrow> bool" where
  "cnt_inv n d0 c \<longleftrightarrow> list_all (thread_user n) (threads c) \<and>
     count_created (threads c) + (if n \<in> set (stored_usernames (get_db d0)) then 1 else 0) =
       (if n \<in> set (stored_usernames (get_db (cdb c))) then 1 else 0)"

text \<open>Sample request lists, for the witnesses.\<close>

definition sample_regs :: "request list" where
  "sample_regs =
     [Register (\<lambda>i. i) (BodyJson (JObj [(''username'', JStr ''bob''), (''password'', JStr ''pw'')])),
      Register Suc (BodyJson (JObj [(''username'', JStr ''alice''), (''password'', JStr ''pw'')]))]"

definition sample_dups :: "request list" where
  "sample_dups =
     [Register (\<lambda>i. i) (BodyJson (JObj [(''username'', JStr ''bob''), (''password'', JStr ''pw'')])),
      Login 0 (BodyJson (JObj [(''username'', JStr ''bob''), (''password'', JStr ''pw'')])),
      Register Suc (BodyJson (JObj [(''username'', JStr ''bob''), (''password'', JStr ''pw'')]))]"

definition sample_dups_final :: config where
  "sample_dups_final =
     \<lparr>cdb = Some sample_t1, writer = None,
      threads = [TDone (resp 200 UserCreated),
                 TLogin 0 (BodyJson (JObj [(''username'', JStr ''bob''), (''password'', JStr ''pw'')])),
                 TDone (register_except IntegrityError)]\<rparr>"

section \<open>Lemmas\<close>

named_theorems conc_simps "rules for the steps of the interleaving semantics"

lemma get_db_idem [conc_simps]: "get_db (Some (get_db d)) = get_db d"
  by (simp add: get_db_def)

lemma thread_step_db:
  "thread_step L d t = Some (d', t') \<Longrightarrow> d' = d \<or> d' = Some (get_db d)"
  by (cases "(L, d, t)" rule: thread_step.cases) (auto split: req_body.splits json.splits sum.splits)

lemma thread_step_not_pending:
  "thread_step L d t = Some (d', t') \<Longrightarrow> (\<forall>u ph x. t \<noteq> TRegPending u ph x) \<and> (\<forall>u ph x. t' \<noteq> TRegPending u ph x)"
  by (cases "(L, d, t)" rule: thread_step.cases) (auto split: req_body.splits json.splits sum.splits)

lemma thread_step_weight: "thread_step L d t = Some (d', t') \<Longrightarrow> weight t' < weight t"
  by (cases "(L, d, t)" rule: thread_step.cases) (auto split: req_body.splits json.splits sum.splits)

lemma login_select_not_created: "login_select L now u pw t \<noteq> Inr \<lparr>status = 200, msg = UserCreated\<rparr>"
  by (simp add: login_select_def resp_def split: sum.splits option.splits bool.splits)

lemma protected_not_created: "protected L now auth \<noteq> Inr \<lparr>status = 200, msg = UserCreated\<rparr>"
  by (simp add: protected_def resp_def split: option.splits sum.splits)

lemma thread_step_not_created:
  "thread_step L d t = Some (d', t') \<Longrightarrow> created t' = 0"
  by (cases "(L, d, t)" rule: thread_step.cases)
     (auto simp: created_def login_select_not_created protected_not_created resp_def
           split: req_body.splits json.splits sum.splits)

lemma sum_list_map_update:
  fixes f :: "'a \<Rightarrow> nat"
  shows "i < length ts \<Longrightarrow> sum_list (map f (ts[i := x])) = sum_list (map f ts) + f x - f (ts ! i)"
  using sum_list_update [of i "map f ts" "f x"] by (simp add: map_update)

lemma sum_list_map_update_less:
  fixes f :: "'a \<Rightarrow> nat"
  assumes "i < length ts" and "f x < f (ts ! i)"
  shows "sum_list (map f (ts[i := x])) < sum_list (map f ts)"
proof -
  have "f (ts ! i) \<le> sum_list (map f ts)"
    using elem_le_sum_list [of i "map f ts"] assms(1) by simp
  with assms show ?thesis by (simp add: sum_list_map_update)
qed

definition cweight :: "config \<Rightarrow> nat" where
  "cweight c = sum_list (map weight (threads c))"

lemma cstep_weight: "cstep L c l c' \<Longrightarrow> cweight c' < cweight c"
  by (induction rule: cstep.induct)
     (auto simp: cweight_def intro!: sum_list_map_update_less dest: thread_step_weight)

lemma execute_insert_get_db:
  "execute_insert t u ph = Inr t' \<Longrightarrow> users_inv t \<Longrightarrow> db_inv (Some t')"
  by (auto elim!: execute_insert_Inr simp: db_inv_def intro: insert_user_inv)

lemma pending_ok_at:
  "threads c' = (threads c)[i := x] \<Longrightarrow> i < length (threads c) \<Longrightarrow>
   pending_ok c' i =
     (case x of
        TRegPending u ph t' \<Rightarrow> writer c' = Some i \<and> execute_insert (get_db (cdb c')) u ph = Inr t'
      | _ \<Rightarrow> writer c' \<noteq> Some i)"
  by (cases x) (simp_all add: pending_ok_def)

lemma pending_ok_other:
  assumes "pending_ok c k" and "k \<noteq> i" and "k < length (threads c)"
    and "get_db d' = get_db (cdb c)" and "w = Some k \<longleftrightarrow> writer c = Some k"
  shows "pending_ok (c\<lparr>cdb := d', writer := w, threads := (threads c)[i := x]\<rparr>) k"
  using assms by (auto simp: pending_ok_def split: thread.splits)

lemma cinv_update:
  assumes "cinv c" and "i < length (threads c)" and "db_inv d'" and "get_db d' = get_db (cdb c)"
    and "\<forall>k. k \<noteq> i \<longrightarrow> (w = Some k \<longleftrightarrow> writer c = Some k)"
    and "case w of None \<Rightarrow> True | Some j \<Rightarrow> j < length (threads c)"
    and "pending_ok (c\<lparr>cdb := d', writer := w, threads := (threads c)[i := x]\<rparr>) i"
  shows "cinv (c\<lparr>cdb := d', writer := w, threads := (threads c)[i := x]\<rparr>)"
  unfolding cinv_def
proof (intro conjI allI impI)
  fix k assume k: "k < length (threads (c\<lparr>cdb := d', writer := w, threads := (threads c)[i := x]\<rparr>))"
  show "pending_ok (c\<lparr>cdb := d', writer := w, threads := (threads c)[i := x]\<rparr>) k"
  proof (cases "k = i")
    case False
    with k assms(1,4,5) show ?thesis by (intro pending_ok_other) (auto simp: cinv_def)
  qed (use assms(7) in simp)
qed (use assms(3,6) in \<open>auto split: option.splits\<close>)

lemma cstep_cinv:
  assumes "cstep L c l c'" and "cinv c"
  shows "cinv c'"
  using assms
proof (induction rule: cstep.induct)
  case (local i c d' t')
  from local.hyps(2) have d': "d' = cdb c \<or> d' = Some (get_db (cdb c))" by (rule thread_step_db)
  then have g: "get_db d' = get_db (cdb c)" by (auto simp: get_db_idem)
  have inv: "db_inv d'" using d' local.prems by (auto simp: cinv_def db_inv_get_db)
  have "pending_ok c i" using local.prems local.hyps(1) by (simp add: cinv_def)
  then have w: "writer c \<noteq> Some i"
    using thread_step_not_pending [OF local.hyps(2)]
    by (cases "threads c ! i") (simp_all add: pending_ok_def)
  have "pending_ok (c\<lparr>cdb := d', writer := writer c, threads := (threads c)[i := t']\<rparr>) i"
    using thread_step_not_pending [OF local.hyps(2)] w
    by (cases t') (simp_all add: pending_ok_at local.hyps(1))
  from cinv_update [OF local.prems local.hyps(1) inv g _ _ this] local.prems show ?case
    by (simp add: cinv_def)
next
  case (insert_fail i c u ph e)
  then have "pending_ok c i" by (simp add: cinv_def)
  with insert_fail.hyps(2) have "writer c \<noteq> Some i" by (simp add: pending_ok_def)
  with insert_fail.hyps(1)
  have "pending_ok (c\<lparr>cdb := cdb c, writer := writer c,
          threads := (threads c)[i := TDone (register_except e)]\<rparr>) i"
    by (simp add: pending_ok_def)
  from cinv_update [OF insert_fail.prems insert_fail.hyps(1) _ _ _ _ this] insert_fail.prems
  show ?case by (simp add: cinv_def)
next
  case (insert_ok i c u ph t')
  have "\<forall>k < length (threads c). \<forall>u ph x. threads c ! k \<noteq> TRegPending u ph x"
  proof (intro allI impI)
    fix k u ph x assume "k < length (threads c)"
    then have "pending_ok c k" using insert_ok.prems by (simp add: cinv_def)
    with insert_ok.hyps(3) show "threads c ! k \<noteq> TRegPending u ph x"
      by (auto simp: pending_ok_def)
  qed
  with insert_ok.hyps(1,4)
  have "pending_ok (c\<lparr>cdb := cdb c, writer := Some i,
          threads := (threads c)[i := TRegPending u ph t']\<rparr>) i"
    by (simp add: pending_ok_def)
  from cinv_update [OF insert_ok.prems insert_ok.hyps(1) _ _ _ _ this] insert_ok.prems insert_ok.hyps(1,3)
  show ?case by (simp add: cinv_def)
next
  case (commit i c u ph t')
  have ins: "execute_insert (get_db (cdb c)) u ph = Inr t'"
    using commit.prems commit.hyps by (auto simp: cinv_def pending_ok_def)
  have inv: "db_inv (Some t')"
    using execute_insert_get_db [OF ins] commit.prems by (simp add: cinv_def users_inv_get_db)
  have others: "\<forall>k < length (threads c). k \<noteq> i \<longrightarrow> (\<forall>u ph x. threads c ! k \<noteq> TRegPending u ph x)"
  proof (intro allI impI)
    fix k u ph x assume "k < length (threads c)" "k \<noteq> i"
    then have "pending_ok c k" using commit.prems by (simp add: cinv_def)
    with \<open>k \<noteq> i\<close> commit.hyps(3) show "threads c ! k \<noteq> TRegPending u ph x"
      by (auto simp: pending_ok_def)
  qed
  show ?case
    unfolding cinv_def
  proof (intro conjI allI impI)
    fix k assume "k < length (threads (c\<lparr>cdb := Some t', writer := None,
                    threads := (threads c)[i := TDone (resp 200 UserCreated)]\<rparr>))"
    show "pending_ok (c\<lparr>cdb := Some t', writer := None,
                    threads := (threads c)[i := TDone (resp 200 UserCreated)]\<rparr>) k"
    proof (cases "k = i")
      case False
      with others \<open>k < _\<close> show ?thesis
        by (cases "threads c ! k") (simp_all add: pending_ok_def)
    qed (simp add: pending_ok_at commit.hyps(1))
  qed (use inv in simp_all)
next
  case (timeout i c u ph j)
  then have "writer c \<noteq> Some i" by simp
  with timeout.hyps(1)
  have "pending_ok (c\<lparr>cdb := cdb c, writer := writer c,
          threads := (threads c)[i := TDone (register_except LockedError)]\<rparr>) i"
    by (simp add: pending_ok_def)
  from cinv_update [OF timeout.prems timeout.hyps(1) _ _ _ _ this] timeout.prems
  show ?case by (simp add: cinv_def)
qed

lemma cinv_init: "db_inv d \<Longrightarrow> cinv (init_config d rs)"
  by (auto simp: cinv_def init_config_def pending_ok_def start_thread_def split: request.splits)

lemma csteps_cinv:
  assumes "csteps L (init_config d rs) c" and "db_inv d"
  shows "cinv c"
  using assms(1) unfolding csteps_def
  by (induction rule: rtranclp_induct) (auto intro: cinv_init [OF assms(2)] cstep_cinv)

lemma csteps_step: "csteps L c c' \<Longrightarrow> cstep L c' l c'' \<Longrightarrow> csteps L c c''"
  unfolding csteps_def by (rule rtranclp.rtrancl_into_rtrancl) blast+

lemma cstep_csteps: "cstep L c l c' \<Longrightarrow> csteps L c c'"
  unfolding csteps_def by blast

lemma csteps_trans: "csteps L c c' \<Longrightarrow> csteps L c' c'' \<Longrightarrow> csteps L c c''"
  unfolding csteps_def by (rule rtranclp_trans)

lemma list_all_update: "list_all P xs \<Longrightarrow> P x \<Longrightarrow> list_all P (xs[i := x])"
  by (auto simp: list_all_iff dest: set_update_subset_insert [THEN subsetD])

lemma count_created_update:
  "i < length ts \<Longrightarrow> count_created (ts[i := x]) = count_created ts + created x - created (ts ! i)"
  by (simp add: count_created_def sum_list_map_update)

lemma thread_step_created_before: "thread_step L d t = Some (d', t') \<Longrightarrow> created t = 0"
  by (cases t) (simp_all add: created_def)

lemma thread_step_user: "thread_step L d t = Some (d', t') \<Longrightarrow> thread_user n t \<Longrightarrow> thread_user n t'"
  by (cases "(L, d, t)" rule: thread_step.cases) (auto split: req_body.splits json.splits sum.splits)

lemma execute_insert_str:
  assumes "execute_insert t (JStr n) ph = Inr t'"
  shows "n \<notin> set (stored_usernames t)" and "n \<in> set (stored_usernames t')"
proof -
  from assms have ins: "insert_user t (SText n) (SText ph) = Inr t'"
    by (simp add: execute_insert_def)
  from ins insert_user_taken [of "SText n" n t "SText ph"]
  show "n \<notin> set (stored_usernames t)" by (auto simp: username_taken_iff)
  from insert_user_rows [OF ins] show "n \<in> set (stored_usernames t')"
    by (simp add: stored_usernames_def)
qed

lemma cstep_cnt_inv:
  assumes "cstep L c l c'" and "cinv c" and "cnt_inv n d0 c"
  shows "cnt_inv n d0 c'"
  using assms
proof (induction rule: cstep.induct)
  case (local i c d' t')
  from local.hyps(2) have "d' = cdb c \<or> d' = Some (get_db (cdb c))" by (rule thread_step_db)
  then have g: "get_db d' = get_db (cdb c)" by (auto simp: get_db_idem)
  have u: "thread_user n t'"
    using thread_step_user [OF local.hyps(2)] local.prems(2) local.hyps(1)
    by (simp add: cnt_inv_def list_all_length)
  show ?case
    using local.prems(2) local.hyps(1) g u thread_step_not_created [OF local.hyps(2)]
          thread_step_created_before [OF local.hyps(2)]
    by (simp add: cnt_inv_def count_created_update list_all_update)
next
  case (insert_fail i c u ph e)
  then show ?case
    by (simp add: cnt_inv_def count_created_update list_all_update created_def resp_def register_except_def)
next
  case (insert_ok i c u ph t')
  then have "u = JStr n" by (simp add: cnt_inv_def list_all_length, metis thread_user.simps(2))
  with insert_ok show ?case
    by (simp add: cnt_inv_def count_created_update list_all_update created_def)
next
  case (commit i c u ph t')
  have ins: "execute_insert (get_db (cdb c)) u ph = Inr t'"
    using commit.prems(1) commit.hyps by (auto simp: cinv_def pending_ok_def)
  have "u = JStr n"
    using commit.prems(2) commit.hyps by (simp add: cnt_inv_def list_all_length, metis thread_user.simps(3))
  with ins have "n \<notin> set (stored_usernames (get_db (cdb c)))" and "n \<in> set (stored_usernames t')"
    using execute_insert_str by blast+
  with commit show ?case
    by (auto simp: cnt_inv_def count_created_update list_all_update created_def get_db_Some)
next
  case (timeout i c u ph j)
  then show ?case
    by (simp add: cnt_inv_def count_created_update list_all_update created_def resp_def register_except_def)
qed

lemma created_start: "created (start_thread r) = 0"
  by (cases r) (simp_all add: created_def start_thread_def)

lemma csteps_cnt_inv:
  assumes "csteps L (init_config d rs) c" and "db_inv d"
    and "list_all (\<lambda>r. thread_user n (start_thread r)) rs"
  shows "cnt_inv n d c"
  using assms(1) unfolding csteps_def
proof (induction rule: rtranclp_induct)
  case base
  have "count_created (map start_thread rs) = 0"
    by (induction rs) (simp_all add: count_created_def created_start)
  with assms(3) show ?case by (simp add: cnt_inv_def init_config_def list_all_iff)
next
  case (step c c')
  then obtain l where "cstep L c l c'" by blast
  moreover have "cinv c" using step.hyps(1) assms(2) by (intro csteps_cinv) (simp_all add: csteps_def)
  ultimately show ?case using step.IH by (rule cstep_cnt_inv)
qed

lemma thread_step_Some:
  "\<not> is_done t \<Longrightarrow> (\<forall>u ph. t \<noteq> TRegOpened u ph) \<Longrightarrow> (\<forall>u ph x. t \<noteq> TRegPending u ph x) \<Longrightarrow>
   \<exists>d' t'. thread_step L d t = Some (d', t')"
  by (cases t) (simp_all split: req_body.splits json.splits sum.splits)

text \<open>
  Progress: in a configuration of the invariant, a thread that has not answered can
  move, or the lock holder can commit; no timeout is needed.
\<close>

lemma csteps_nt_step:
  "csteps_nt L c c' \<Longrightarrow> cstep L c' l c'' \<Longrightarrow> no_timeout l \<Longrightarrow> csteps_nt L c c''"
  unfolding csteps_nt_def by (rule rtranclp.rtrancl_into_rtrancl) blast+

lemma cstep_csteps_nt: "cstep L c l c' \<Longrightarrow> no_timeout l \<Longrightarrow> csteps_nt L c c'"
  unfolding csteps_nt_def by blast

lemma csteps_nt_trans: "csteps_nt L c c' \<Longrightarrow> csteps_nt L c' c'' \<Longrightarrow> csteps_nt L c c''"
  unfolding csteps_nt_def by (rule rtranclp_trans)

text \<open>
  Progress: in a configuration of the invariant, a thread that has not answered can
  move, or the holder of the write lock can commit; no timeout is needed.
\<close>

lemma cinv_progress:
  assumes "cinv c" and "\<not> all_done c"
  shows "\<exists>l c'. no_timeout l \<and> cstep L c l c'"
proof -
  from assms(2) obtain k where k: "k < length (threads c)" and nd: "\<not> is_done (threads c ! k)"
    by (auto simp: all_done_def list_all_length)
  have local: ?thesis if "\<forall>u ph. threads c ! k \<noteq> TRegOpened u ph"
    and "\<forall>u ph x. threads c ! k \<noteq> TRegPending u ph x"
  proof -
    from thread_step_Some [OF nd that] obtain d' t'
      where "thread_step L (cdb c) (threads c ! k) = Some (d', t')" by blast
    moreover have "no_timeout (Local k)" by simp
    ultimately show ?thesis using cstep.local [OF k] by blast
  qed
  show ?thesis
  proof (cases "threads c ! k")
    case (TRegOpened u ph)
    show ?thesis
    proof (cases "writer c")
      case None
      have "no_timeout (Insert k)" by simp
      with None show ?thesis
        using cstep.insert_fail [OF k TRegOpened] cstep.insert_ok [OF k TRegOpened]
        by (cases "execute_insert (get_db (cdb c)) u ph") blast+
    next
      case (Some j)
      with assms(1) have j: "j < length (threads c)" and "pending_ok c j" by (auto simp: cinv_def)
      with Some obtain u' ph' t' where "threads c ! j = TRegPending u' ph' t'"
        by (cases "threads c ! j") (simp_all add: pending_ok_def)
      moreover have "no_timeout (Commit j)" by simp
      ultimately show ?thesis using cstep.commit [OF j _ Some] by blast
    qed
  next
    case (TRegPending u ph t')
    with assms(1) k have "writer c = Some k" by (auto simp: cinv_def pending_ok_def)
    moreover have "no_timeout (Commit k)" by simp
    ultimately show ?thesis using cstep.commit [OF k TRegPending] by blast
  qed (use local in simp_all)
qed

lemma cinv_complete:
  assumes "cinv c"
  shows "\<exists>c'. csteps_nt L c c' \<and> all_done c'"
  using assms
proof (induction "cweight c" arbitrary: c rule: less_induct)
  case less
  show ?case
  proof (cases "all_done c")
    case True
    then show ?thesis unfolding csteps_nt_def by blast
  next
    case False
    with less.prems obtain l c' where nt: "no_timeout l" and st: "cstep L c l c'"
      by (blast dest: cinv_progress)
    from less.hyps [OF cstep_weight [OF st] cstep_cinv [OF st less.prems]]
    obtain c'' where "csteps_nt L c' c''" and "all_done c''" by blast
    with cstep_csteps_nt [OF st nt] show ?thesis by (blast intro: csteps_nt_trans)
  qed
qed

lemma sample_insert_bob:
  "execute_insert (get_db None) (JStr ''bob'') ''scrypt:32768:8:1$abcdefghijklmnop$7077'' = Inr sample_t1"
  by (simp add: execute_insert_def insert_user_def get_db_def empty_users_def next_rowid_def
                username_taken_def max_rowid_def sample_t1_def)

lemma sample_insert_bob_again:
  "execute_insert (get_db (Some sample_t1)) (JStr ''bob'') ''scrypt:32768:8:1$bcdefghijklmnopq$7077'' =
     Inl IntegrityError"
  by (simp add: execute_insert_def insert_user_def get_db_def next_rowid_def username_taken_def
                max_rowid_def sample_t1_def)

text \<open>
  Two registrations of bob and a login: the first registration commits, the second
  INSERT then fails on the UNIQUE constraint.
\<close>

lemma sample_dups_run: "csteps sample_libs (init_config None sample_dups) sample_dups_final"
proof -
  let ?h1 = "''scrypt:32768:8:1$abcdefghijklmnop$7077''" and ?h2 = "''scrypt:32768:8:1$bcdefghijklmnopq$7077''"
  let ?b = "JStr ''bob''" and ?body = "BodyJson (JObj [(''username'', JStr ''bob''), (''password'', JStr ''pw'')])"
  let ?c0 = "\<lparr>cdb = None, writer = None,
              threads = [TRegister (\<lambda>i. i) ?body, TLogin 0 ?body, TRegister Suc ?body]\<rparr>"
  let ?c1 = "\<lparr>cdb = Some (get_db None), writer = None,
              threads = [TRegOpened ?b ?h1, TLogin 0 ?body, TRegister Suc ?body]\<rparr>"
  let ?c2 = "\<lparr>cdb = Some (get_db None), writer = None,
              threads = [TRegOpened ?b ?h1, TLogin 0 ?body, TRegOpened ?b ?h2]\<rparr>"
  let ?c3 = "\<lparr>cdb = Some (get_db None), writer = Some 0,
              threads = [TRegPending ?b ?h1 sample_t1, TLogin 0 ?body, TRegOpened ?b ?h2]\<rparr>"
  let ?c4 = "\<lparr>cdb = Some sample_t1, writer = None,
              threads = [TDone (resp 200 UserCreated), TLogin 0 ?body, TRegOpened ?b ?h2]\<rparr>"
  have c0: "init_config None sample_dups = ?c0"
    by (simp add: init_config_def sample_dups_def start_thread_def)
  have s1: "cstep sample_libs ?c0 (Local 0) ?c1"
    using cstep.local [of 0 ?c0 sample_libs "Some (get_db None)" "TRegOpened ?b ?h1"]
    by (simp add: sample_libs_def py_get_def sample_hashes)
  have s2: "cstep sample_libs ?c1 (Local 2) ?c2"
    using cstep.local [of 2 ?c1 sample_libs "Some (get_db None)" "TRegOpened ?b ?h2"]
    by (simp add: sample_libs_def py_get_def sample_hashes get_db_idem)
  have s3: "cstep sample_libs ?c2 (Insert 0) ?c3"
    using cstep.insert_ok [of 0 ?c2 ?b ?h1 sample_t1 sample_libs]
    by (simp add: get_db_idem sample_insert_bob)
  have s4: "cstep sample_libs ?c3 (Commit 0) ?c4"
    using cstep.commit [of 0 ?c3 ?b ?h1 sample_t1 sample_libs] by simp
  have s5: "cstep sample_libs ?c4 (Insert 2) sample_dups_final"
    using cstep.insert_fail [of 2 ?c4 ?b ?h2 IntegrityError sample_libs]
    by (simp add: sample_insert_bob_again sample_dups_final_def)
  have "csteps sample_libs ?c0 ?c0" by (simp add: csteps_def)
  from csteps_step [OF csteps_step [OF csteps_step [OF csteps_step [OF csteps_step [OF this s1] s2] s3] s4] s5]
  show ?thesis by (simp add: c0)
qed

text \<open>An INSERT of a fresh string username on a table with a row id left succeeds.\<close>

lemma execute_insert_str_fresh:
  assumes "users_inv t" and "seq t < max_rowid" and "n \<notin> set (stored_usernames t)"
  shows "\<exists>t'. execute_insert t (JStr n) ph = Inr t'
               \<and> set (stored_usernames t') = insert n (set (stored_usernames t))"
  using insert_user_fresh [OF assms(1,2), of "SText n" "SText ph"] assms(3)
  by (simp add: execute_insert_def store_simps)

section \<open>Properties of concurrent requests\<close>

text \<open>
  C7: the specification's concurrency guarantee: of any number of concurrent
  registrations of the same username, at most one answers \<open>UserCreated\<close>, and none
  does if the username was already stored; logins and protected requests may run
  alongside.
\<close>

theorem concurrent_register_unique:
  assumes "csteps L (init_config d rs) c" and "db_inv d"
    and "list_all (\<lambda>r. thread_user n (start_thread r)) rs"
  shows "count_created (threads c) + (if n \<in> set (stored_usernames (get_db d)) then 1 else 0) \<le> 1"
  using csteps_cnt_inv [OF assms] by (simp add: cnt_inv_def)

theorem concurrent_register_unique_witness:
  "count_created (threads sample_dups_final)
     + (if ''bob'' \<in> set (stored_usernames (get_db None)) then 1 else 0) \<le> 1"
  by (rule concurrent_register_unique [OF sample_dups_run])
     (simp_all add: db_inv_def start_thread_def py_get_def sample_dups_def)

text \<open>
  C17: every configuration that concurrent requests reach can run on until every
  request has been answered without any INSERT giving up on the busy timeout: the
  holder of the write lock can always commit, and its commit releases the lock.
\<close>

theorem concurrent_complete:
  assumes "csteps L (init_config d rs) c" and "db_inv d"
  shows "\<exists>c'. csteps_nt L c c' \<and> all_done c'"
  by (rule cinv_complete [OF csteps_cinv [OF assms]])

theorem concurrent_complete_witness:
  "\<exists>c'. csteps_nt sample_libs (init_config None sample_regs) c' \<and> all_done c'"
  by (rule concurrent_complete [of sample_libs None sample_regs]) (simp_all add: csteps_def db_inv_def)

text \<open>
  C18: under contention a fresh username can be refused as existing: two
  registrations of different fresh usernames, where the second INSERT times out on the
  write lock the first holds; \<open>OperationalError\<close> falls into the bare \<open>except\<close> of
  \<open>register\<close>, which answers 400 \<open>UserExists\<close>, and only the first username is stored.
\<close>

theorem concurrent_register_timeout:
  assumes g1: "generate_password_hash (kdf L) rnd1 (py_get data1 ''password'') = Inr ph1"
    and g2: "generate_password_hash (kdf L) rnd2 (py_get data2 ''password'') = Inr ph2"
    and u1: "py_get data1 ''username'' = JStr n1" and u2: "py_get data2 ''username'' = JStr n2"
    and fresh: "n1 \<notin> set (stored_usernames (get_db d))"
    and inv: "db_inv d" and room: "seq (get_db d) < max_rowid"
  shows "\<exists>c. csteps L (init_config d [Register rnd1 (BodyJson (JObj data1)),
                                         Register rnd2 (BodyJson (JObj data2))]) c
             \<and> threads c = [TDone (resp 200 UserCreated), TDone (resp 400 UserExists)]
             \<and> set (stored_usernames (get_db (cdb c))) = insert n1 (set (stored_usernames (get_db d)))"
proof -
  obtain t1 where i1: "execute_insert (get_db d) (JStr n1) ph1 = Inr t1"
    and t1: "set (stored_usernames t1) = insert n1 (set (stored_usernames (get_db d)))"
    using execute_insert_str_fresh [OF users_inv_get_db [OF inv] room fresh] by blast
  let ?r1 = "TRegister rnd1 (BodyJson (JObj data1))" and ?r2 = "TRegister rnd2 (BodyJson (JObj data2))"
  let ?c0 = "\<lparr>cdb = d, writer = None, threads = [?r1, ?r2]\<rparr>"
  let ?c1 = "\<lparr>cdb = Some (get_db d), writer = None, threads = [TRegOpened (JStr n1) ph1, ?r2]\<rparr>"
  let ?c2 = "\<lparr>cdb = Some (get_db d), writer = None,
              threads = [TRegOpened (JStr n1) ph1, TRegOpened (JStr n2) ph2]\<rparr>"
  let ?c3 = "\<lparr>cdb = Some (get_db d), writer = Some 0,
              threads = [TRegPending (JStr n1) ph1 t1, TRegOpened (JStr n2) ph2]\<rparr>"
  let ?c4 = "\<lparr>cdb = Some (get_db d), writer = Some 0,
              threads = [TRegPending (JStr n1) ph1 t1, TDone (register_except LockedError)]\<rparr>"
  let ?c5 = "\<lparr>cdb = Some t1, writer = None,
              threads = [TDone (resp 200 UserCreated), TDone (register_except LockedError)]\<rparr>"
  have s1: "cstep L ?c0 (Local 0) ?c1"
    using cstep.local [of 0 ?c0 L "Some (get_db d)" "TRegOpened (JStr n1) ph1"] g1 u1 by simp
  have s2: "cstep L ?c1 (Local 1) ?c2"
    using cstep.local [of 1 ?c1 L "Some (get_db d)" "TRegOpened (JStr n2) ph2"] g2 u2
    by (simp add: get_db_idem)
  have s3: "cstep L ?c2 (Insert 0) ?c3"
    using cstep.insert_ok [of 0 ?c2 "JStr n1" ph1 t1 L] i1 by (simp add: get_db_idem)
  have s4: "cstep L ?c3 (Timeout 1) ?c4"
    using cstep.timeout [of 1 ?c3 "JStr n2" ph2 0 L] by simp
  have s5: "cstep L ?c4 (Commit 0) ?c5"
    using cstep.commit [of 0 ?c4 "JStr n1" ph1 t1 L] by simp
  have "init_config d [Register rnd1 (BodyJson (JObj data1)), Register rnd2 (BodyJson (JObj data2))] = ?c0"
    by (simp add: init_config_def start_thread_def)
  moreover have "csteps L ?c0 ?c5"
    by (rule csteps_step [OF csteps_step [OF csteps_step [OF csteps_step [OF cstep_csteps [OF s1] s2] s3] s4] s5])
  ultimately have "csteps L (init_config d [Register rnd1 (BodyJson (JObj data1)),
                                      Register rnd2 (BodyJson (JObj data2))]) ?c5"
    by simp
  with t1 show ?thesis by (intro exI [of _ ?c5]) (simp add: get_db_Some register_except_def)
qed

theorem concurrent_register_timeout_witness:
  "\<exists>c. csteps sample_libs (init_config None sample_regs) c
        \<and> threads c = [TDone (resp 200 UserCreated), TDone (resp 400 UserExists)]
        \<and> set (stored_usernames (get_db (cdb c))) = {''bob''}"
proof -
  let ?b = "[(''username'', JStr ''bob''), (''password'', JStr ''pw'')]"
  let ?a = "[(''username'', JStr ''alice''), (''password'', JStr ''pw'')]"
  have g1: "generate_password_hash (kdf sample_libs) (\<lambda>i. i) (py_get ?b ''password'') =
              Inr ''scrypt:32768:8:1$abcdefghijklmnop$7077''"
    by (simp add: sample_libs_def py_get_def sample_hashes)
  have g2: "generate_password_hash (kdf sample_libs) Suc (py_get ?a ''password'') =
              Inr ''scrypt:32768:8:1$bcdefghijklmnopq$7077''"
    by (simp add: sample_libs_def py_get_def sample_hashes)
  have u1: "py_get ?b ''username'' = JStr ''bob''" and u2: "py_get ?a ''username'' = JStr ''alice''"
    by (simp_all add: py_get_def)
  have fresh: "''bob'' \<notin> set (stored_usernames (get_db None))"
    and inv: "db_inv None" and room: "seq (get_db None) < max_rowid"
    by (simp_all add: get_db_def empty_users_def stored_usernames_def db_inv_def max_rowid_def)
  have e: "set (stored_usernames (get_db None)) = {}"
    by (simp add: get_db_def empty_users_def stored_usernames_def)
  show ?thesis
    using concurrent_register_timeout [OF g1 g2 u1 u2 fresh inv room] unfolding sample_regs_def e by simp
qed

end
