(* ===== verification/Linearizability.thy ===== *)
theory Linearizability
  imports Concurrency
begin

text \<open>
  Linearizability of the concurrent serving of theory Concurrency: every complete
  interleaving in which no INSERT timed out is equivalent to serving its requests one
  after another with the sequential handlers of theory App, in the order in which the
  requests reached their linearization points. The invariant \<open>lin_inv\<close> carries the
  order of the requests that have answered and the sequential replay of them.
\<close>

section \<open>Linearization points\<close>

text \<open>
  Linearizability. A thread has answered once it reaches its linearization point:
  the failed INSERT or the commit of \<open>register\<close>, the SELECT of \<open>login\<close>, the one
  step of \<open>protected\<close>, or an early return. A thread that has not yet answered is
  in a state its request explains: not started, or past \<open>get_db()\<close> with the values
  its request gave.
\<close>

fun done_answer :: "thread \<Rightarrow> outcome option" where
  "done_answer (TDone out) = Some out"
| "done_answer _ = None"

definition reg_opened :: "libs \<Rightarrow> request \<Rightarrow> json \<Rightarrow> string \<Rightarrow> bool" where
  "reg_opened L r u ph \<longleftrightarrow>
     (\<exists>rnd data. r = Register rnd (BodyJson (JObj data)) \<and> u = py_get data ''username''
                 \<and> generate_password_hash (kdf L) rnd (py_get data ''password'') = Inr ph)"

definition log_opened :: "request \<Rightarrow> int \<Rightarrow> json \<Rightarrow> json \<Rightarrow> bool" where
  "log_opened r now u pw \<longleftrightarrow>
     (\<exists>data. r = Login now (BodyJson (JObj data)) \<and> u = py_get data ''username''
             \<and> pw = py_get data ''password'')"

fun thread_matches :: "libs \<Rightarrow> request \<Rightarrow> thread \<Rightarrow> bool" where
  "thread_matches L r (TRegOpened u ph) = reg_opened L r u ph"
| "thread_matches L r (TRegPending u ph t') = reg_opened L r u ph"
| "thread_matches L r (TLogOpened now u pw) = log_opened r now u pw"
| "thread_matches L r (TDone out) = True"
| "thread_matches L r t = (t = start_thread r)"

text \<open>
  The answered threads, in the order they answered, replayed one after another by
  the sequential \<open>app_run\<close>, give the same answers and the same table.
\<close>

definition lin_order :: "libs \<Rightarrow> database \<Rightarrow> request list \<Rightarrow> config \<Rightarrow> nat list \<Rightarrow> bool" where
  "lin_order L d0 rs c order \<longleftrightarrow>
     distinct order \<and> set order = {k. k < length rs \<and> is_done (threads c ! k)}
     \<and> map Some (fst (app_run L d0 (map (\<lambda>k. rs ! k) order))) = map (\<lambda>k. done_answer (threads c ! k)) order
     \<and> get_db (snd (app_run L d0 (map (\<lambda>k. rs ! k) order))) = get_db (cdb c)"

definition lin_inv :: "libs \<Rightarrow> database \<Rightarrow> request list \<Rightarrow> config \<Rightarrow> bool" where
  "lin_inv L d0 rs c \<longleftrightarrow>
     length (threads c) = length rs \<and> (\<forall>k < length rs. thread_matches L (rs ! k) (threads c ! k))
     \<and> (\<exists>order. lin_order L d0 rs c order)"

text \<open>A complete run of the two sample registrations, the first committing before the second inserts.\<close>

definition sample_t2 :: users_table where
  "sample_t2 = \<lparr>rows = rows sample_t1 @ [\<lparr>row_id = 2, row_username = Some ''alice'',
                         row_password = Some ''scrypt:32768:8:1$bcdefghijklmnopq$7077''\<rparr>],
                seq = 2\<rparr>"

definition sample_final :: config where
  "sample_final = \<lparr>cdb = Some sample_t2, writer = None,
                    threads = [TDone (resp 200 UserCreated), TDone (resp 200 UserCreated)]\<rparr>"

section \<open>Lemmas\<close>

lemma app_step_get_db:
  assumes "get_db d1 = get_db d2"
  shows "fst (app_step L d1 r) = fst (app_step L d2 r)"
    and "get_db (snd (app_step L d1 r)) = get_db (snd (app_step L d2 r))"
proof -
  have "fst (app_step L d1 r) = fst (app_step L d2 r) \<and>
        get_db (snd (app_step L d1 r)) = get_db (snd (app_step L d2 r))"
  proof (cases r)
    case (Register rnd body)
    then show ?thesis using assms
      by (simp add: register_def get_db_Some split: req_body.split json.split sum.split)
  next
    case (Login now body)
    then show ?thesis using assms
      by (simp add: login_def get_db_Some split: req_body.split json.split sum.split option.split bool.split)
  qed (simp add: assms)
  then show "fst (app_step L d1 r) = fst (app_step L d2 r)"
    and "get_db (snd (app_step L d1 r)) = get_db (snd (app_step L d2 r))" by simp_all
qed

lemma app_run_snoc_full:
  "app_run L d (rs @ [r]) =
     (fst (app_run L d rs) @ [fst (app_step L (snd (app_run L d rs)) r)],
      snd (app_step L (snd (app_run L d rs)) r))"
  by (induction rs arbitrary: d) (simp_all split: prod.split)

text \<open>Appending the thread that has just answered to the linearization order.\<close>

lemma lin_order_snoc:
  assumes lin: "lin_order L d0 rs c order" and i: "i < length rs" and nd: "\<not> is_done (threads c ! i)"
    and len: "length (threads c) = length rs"
    and out: "out = fst (app_step L (cdb c) (rs ! i))"
    and db: "get_db d' = get_db (snd (app_step L (cdb c) (rs ! i)))"
  shows "lin_order L d0 rs (c\<lparr>cdb := d', threads := (threads c)[i := TDone out]\<rparr>) (order @ [i])"
proof -
  let ?rep = "app_run L d0 (map (\<lambda>k. rs ! k) order)"
  have io: "i \<notin> set order" using lin nd by (auto simp: lin_order_def)
  have g: "get_db (snd ?rep) = get_db (cdb c)" using lin by (simp add: lin_order_def)
  have "map (\<lambda>k. done_answer (((threads c)[i := TDone out]) ! k)) order =
        map (\<lambda>k. done_answer (threads c ! k)) order"
    using io by (intro map_cong refl) (metis nth_list_update_neq)
  with lin io i len app_step_get_db [OF g, of L "rs ! i"] out db show ?thesis
    by (auto simp: lin_order_def app_run_snoc_full nth_list_update)
qed

lemma lin_order_same:
  assumes "lin_order L d0 rs c order" and "get_db d' = get_db (cdb c)"
    and "\<not> is_done (threads c ! i)" and "\<not> is_done x" and "i < length (threads c)"
  shows "lin_order L d0 rs (c\<lparr>cdb := d', writer := w, threads := (threads c)[i := x]\<rparr>) order"
proof -
  have "i \<notin> set order" using assms(1,3) by (auto simp: lin_order_def)
  then have "map (\<lambda>k. done_answer (((threads c)[i := x]) ! k)) order =
             map (\<lambda>k. done_answer (threads c ! k)) order"
    by (intro map_cong refl) (metis nth_list_update_neq)
  with assms show ?thesis
    by (auto simp: lin_order_def nth_list_update split: if_splits)
qed

lemma login_JObj:
  "login L now (BodyJson (JObj data)) d =
     (login_select L now (py_get data ''username'') (py_get data ''password'') (get_db d), Some (get_db d))"
  by (simp add: login_def login_select_def split: sum.split option.split bool.split)

lemma thread_matches_start: "thread_matches L r (start_thread r)"
  by (cases r) (simp_all add: start_thread_def)

lemma start_not_done: "\<not> is_done (start_thread r)"
  by (cases r) (simp_all add: start_thread_def)

lemma reg_opened_app_step:
  "reg_opened L r u ph \<Longrightarrow>
   app_step L d r =
     (case execute_insert (get_db d) u ph of
        Inl e \<Rightarrow> (register_except e, Some (get_db d))
      | Inr t' \<Rightarrow> (resp 200 UserCreated, Some t'))"
  by (auto simp: reg_opened_def register_def)

text \<open>
  A step of \<open>thread_step\<close> either is the linearization point of the thread, and then
  it answers what the sequential handler answers on the committed table, or it leaves
  the thread in a state its request explains, with the same table.
\<close>

lemma thread_step_lin:
  assumes m: "thread_matches L r t" and st: "thread_step L d t = Some (d', t')"
  shows "\<not> is_done t \<and>
         ((t' = TDone (fst (app_step L d r)) \<and> get_db d' = get_db (snd (app_step L d r))) \<or>
          (\<not> is_done t' \<and> thread_matches L r t' \<and> get_db d' = get_db d))"
proof (cases t)
  case (TRegister rnd body)
  with m have r: "r = Register rnd body" by (cases r) (simp_all add: start_thread_def)
  with TRegister st show ?thesis
    by (auto simp: register_def reg_opened_def get_db_idem split: req_body.splits json.splits sum.splits)
next
  case (TLogin now body)
  with m have r: "r = Login now body" by (cases r) (simp_all add: start_thread_def)
  with TLogin st show ?thesis
    by (auto simp: login_def log_opened_def get_db_idem split: req_body.splits json.splits)
next
  case (TLogOpened now u pw)
  with m obtain data where r: "r = Login now (BodyJson (JObj data))" and "u = py_get data ''username''"
    and "pw = py_get data ''password''" by (auto simp: log_opened_def)
  with TLogOpened st have "t' = TDone (fst (app_step L d r)) \<and> get_db d' = get_db (snd (app_step L d r))"
    by (auto simp: login_JObj get_db_Some)
  with TLogOpened show ?thesis by simp
next
  case (TProtected now auth)
  with m have r: "r = Protected now auth" by (cases r) (simp_all add: start_thread_def)
  with TProtected st show ?thesis by auto
qed (use st in simp_all)

lemma lin_inv_update:
  assumes len: "length (threads c) = length rs"
    and ms: "\<forall>k < length rs. thread_matches L (rs ! k) (threads c ! k)"
    and i: "i < length rs" and mx: "thread_matches L (rs ! i) x"
    and lin: "lin_order L d0 rs c' order" and ts: "threads c' = (threads c)[i := x]"
  shows "lin_inv L d0 rs c'"
  unfolding lin_inv_def
proof (intro conjI allI impI)
  show "length (threads c') = length rs" using len ts by simp
  fix k assume k: "k < length rs"
  show "thread_matches L (rs ! k) (threads c' ! k)"
  proof (cases "k = i")
    case True
    with ts i len mx show ?thesis by simp
  next
    case False
    with ts ms k show ?thesis by simp
  qed
next
  show "\<exists>order. lin_order L d0 rs c' order" using lin by blast
qed

lemma cstep_lin_inv:
  assumes "cstep L c l c'" and "no_timeout l" and "cinv c" and "lin_inv L d0 rs c"
  shows "lin_inv L d0 rs c'"
  using assms
proof (induction rule: cstep.induct)
  case (local i c d' t')
  from local.prems(3) obtain order where lin: "lin_order L d0 rs c order"
    and len: "length (threads c) = length rs"
    and ms: "\<forall>k < length rs. thread_matches L (rs ! k) (threads c ! k)"
    by (auto simp: lin_inv_def)
  have i: "i < length rs" using local.hyps(1) len by simp
  from thread_step_lin [OF ms [rule_format, OF i] local.hyps(2)]
  consider (lp) "\<not> is_done (threads c ! i)" "t' = TDone (fst (app_step L (cdb c) (rs ! i)))"
        "get_db d' = get_db (snd (app_step L (cdb c) (rs ! i)))"
    | (mid) "\<not> is_done (threads c ! i)" "\<not> is_done t'" "thread_matches L (rs ! i) t'"
        "get_db d' = get_db (cdb c)"
    by blast
  then show ?case
  proof cases
    case lp
    from lin_order_snoc [OF lin i lp(1) len refl lp(3)] lp(2)
    have "lin_order L d0 rs (c\<lparr>cdb := d', threads := (threads c)[i := t']\<rparr>) (order @ [i])" by simp
    from lin_inv_update [OF len ms i _ this] lp(2) show ?thesis by simp
  next
    case mid
    from lin_order_same [OF lin mid(4) mid(1) mid(2) local.hyps(1), of "writer c"]
    have "lin_order L d0 rs (c\<lparr>cdb := d', threads := (threads c)[i := t']\<rparr>) order" by simp
    from lin_inv_update [OF len ms i mid(3) this] show ?thesis by simp
  qed
next
  case (insert_fail i c u ph e)
  from insert_fail.prems(3) obtain order where lin: "lin_order L d0 rs c order"
    and len: "length (threads c) = length rs"
    and ms: "\<forall>k < length rs. thread_matches L (rs ! k) (threads c ! k)"
    by (auto simp: lin_inv_def)
  have i: "i < length rs" using insert_fail.hyps(1) len by simp
  have ro: "reg_opened L (rs ! i) u ph" using ms i insert_fail.hyps(2) by force
  have eq: "app_step L (cdb c) (rs ! i) = (register_except e, Some (get_db (cdb c)))"
    using reg_opened_app_step [OF ro, of "cdb c"] insert_fail.hyps(4) by simp
  have nd: "\<not> is_done (threads c ! i)" using insert_fail.hyps(2) by simp
  have "lin_order L d0 rs (c\<lparr>cdb := cdb c, threads := (threads c)[i := TDone (register_except e)]\<rparr>)
          (order @ [i])"
    by (rule lin_order_snoc [OF lin i nd len]) (simp_all only: eq fst_conv snd_conv get_db_Some)
  from lin_inv_update [OF len ms i _ this] show ?case by simp
next
  case (insert_ok i c u ph t')
  from insert_ok.prems(3) obtain order where lin: "lin_order L d0 rs c order"
    and len: "length (threads c) = length rs"
    and ms: "\<forall>k < length rs. thread_matches L (rs ! k) (threads c ! k)"
    by (auto simp: lin_inv_def)
  have i: "i < length rs" using insert_ok.hyps(1) len by simp
  have ro: "reg_opened L (rs ! i) u ph" using ms i insert_ok.hyps(2) by force
  from lin_order_same [OF lin _ _ _ insert_ok.hyps(1), of "cdb c" "TRegPending u ph t'" "Some i"]
    insert_ok.hyps(2)
  have "lin_order L d0 rs (c\<lparr>writer := Some i, threads := (threads c)[i := TRegPending u ph t']\<rparr>) order"
    by simp
  from lin_inv_update [OF len ms i _ this] ro show ?case by simp
next
  case (commit i c u ph t')
  from commit.prems(3) obtain order where lin: "lin_order L d0 rs c order"
    and len: "length (threads c) = length rs"
    and ms: "\<forall>k < length rs. thread_matches L (rs ! k) (threads c ! k)"
    by (auto simp: lin_inv_def)
  have i: "i < length rs" using commit.hyps(1) len by simp
  have ro: "reg_opened L (rs ! i) u ph" using ms i commit.hyps(2) by force
  have "execute_insert (get_db (cdb c)) u ph = Inr t'"
    using commit.prems(2) commit.hyps by (auto simp: cinv_def pending_ok_def)
  then have eq: "app_step L (cdb c) (rs ! i) = (resp 200 UserCreated, Some t')"
    using reg_opened_app_step [OF ro, of "cdb c"] by simp
  have nd: "\<not> is_done (threads c ! i)" using commit.hyps(2) by simp
  have "lin_order L d0 rs (c\<lparr>cdb := Some t', threads := (threads c)[i := TDone (resp 200 UserCreated)]\<rparr>)
          (order @ [i])"
    by (rule lin_order_snoc [OF lin i nd len]) (simp_all only: eq fst_conv snd_conv)
  then have "lin_order L d0 rs (c\<lparr>cdb := Some t', writer := None,
               threads := (threads c)[i := TDone (resp 200 UserCreated)]\<rparr>) (order @ [i])"
    by (simp add: lin_order_def)
  from lin_inv_update [OF len ms i _ this] show ?case by simp
next
  case (timeout i c u ph j)
  then show ?case by simp
qed

lemma lin_inv_init: "lin_inv L d rs (init_config d rs)"
proof -
  have "lin_order L d rs (init_config d rs) []"
    by (simp add: lin_order_def init_config_def start_not_done)
  then show ?thesis by (auto simp: lin_inv_def init_config_def thread_matches_start)
qed

lemma csteps_nt_inv:
  assumes "csteps_nt L (init_config d rs) c" and "db_inv d"
  shows "cinv c \<and> lin_inv L d rs c"
  using assms(1) unfolding csteps_nt_def
proof (induction rule: rtranclp_induct)
  case base
  show ?case by (simp add: cinv_init [OF assms(2)] lin_inv_init)
next
  case (step c c')
  then obtain l where "no_timeout l" and "cstep L c l c'" by blast
  with step.IH show ?case by (blast intro: cstep_cinv cstep_lin_inv)
qed

lemma sample_insert_alice:
  "execute_insert (get_db (Some sample_t1)) (JStr ''alice'') ''scrypt:32768:8:1$bcdefghijklmnopq$7077'' =
     Inr sample_t2"
  by (simp add: execute_insert_def insert_user_def get_db_def next_rowid_def username_taken_def
                max_rowid_def sample_t1_def sample_t2_def)

lemma sample_run_nt: "csteps_nt sample_libs (init_config None sample_regs) sample_final"
proof -
  let ?h1 = "''scrypt:32768:8:1$abcdefghijklmnop$7077''" and ?h2 = "''scrypt:32768:8:1$bcdefghijklmnopq$7077''"
  let ?b = "JStr ''bob''" and ?a = "JStr ''alice''"
  let ?r2 = "TRegister Suc (BodyJson (JObj [(''username'', ?a), (''password'', JStr ''pw'')]))"
  let ?c1 = "\<lparr>cdb = Some (get_db None), writer = None, threads = [TRegOpened ?b ?h1, ?r2]\<rparr>"
  let ?c2 = "\<lparr>cdb = Some (get_db None), writer = None, threads = [TRegOpened ?b ?h1, TRegOpened ?a ?h2]\<rparr>"
  let ?c3 = "\<lparr>cdb = Some (get_db None), writer = Some 0,
              threads = [TRegPending ?b ?h1 sample_t1, TRegOpened ?a ?h2]\<rparr>"
  let ?c4 = "\<lparr>cdb = Some sample_t1, writer = None,
              threads = [TDone (resp 200 UserCreated), TRegOpened ?a ?h2]\<rparr>"
  let ?c5 = "\<lparr>cdb = Some sample_t1, writer = Some 1,
              threads = [TDone (resp 200 UserCreated), TRegPending ?a ?h2 sample_t2]\<rparr>"
  let ?c0 = "\<lparr>cdb = None, writer = None,
              threads = [TRegister (\<lambda>i. i) (BodyJson (JObj [(''username'', ?b), (''password'', JStr ''pw'')])), ?r2]\<rparr>"
  have c0: "init_config None sample_regs = ?c0"
    by (simp add: init_config_def sample_regs_def start_thread_def)
  have s1: "cstep sample_libs ?c0 (Local 0) ?c1"
    using cstep.local [of 0 ?c0 sample_libs "Some (get_db None)" "TRegOpened ?b ?h1"]
    by (simp add: sample_libs_def py_get_def sample_hashes)
  have s2: "cstep sample_libs ?c1 (Local 1) ?c2"
    using cstep.local [of 1 ?c1 sample_libs "Some (get_db None)" "TRegOpened ?a ?h2"]
    by (simp add: sample_libs_def py_get_def sample_hashes get_db_idem)
  have s3: "cstep sample_libs ?c2 (Insert 0) ?c3"
    using cstep.insert_ok [of 0 ?c2 ?b ?h1 sample_t1 sample_libs]
    by (simp add: get_db_idem sample_insert_bob)
  have s4: "cstep sample_libs ?c3 (Commit 0) ?c4"
    using cstep.commit [of 0 ?c3 ?b ?h1 sample_t1 sample_libs] by simp
  have s5: "cstep sample_libs ?c4 (Insert 1) ?c5"
    using cstep.insert_ok [of 1 ?c4 ?a ?h2 sample_t2 sample_libs] by (simp add: sample_insert_alice)
  have s6: "cstep sample_libs ?c5 (Commit 1) sample_final"
    using cstep.commit [of 1 ?c5 ?a ?h2 sample_t2 sample_libs] by (simp add: sample_final_def)
  have "csteps_nt sample_libs ?c0 ?c0"
    by (simp add: csteps_nt_def)
  from csteps_nt_step [OF csteps_nt_step [OF csteps_nt_step [OF csteps_nt_step [OF
         csteps_nt_step [OF csteps_nt_step [OF this s1] s2] s3] s4] s5] s6]
  show ?thesis by (simp add: c0)
qed

section \<open>Linearizability\<close>

text \<open>
  C8: linearizability: every complete run of concurrent requests in which no INSERT
  timed out is equivalent to serving the requests one after another, in some order,
  with the sequential handlers: each request gets the answer the sequential run gives
  it, and the final table is the sequential one.
\<close>

theorem concurrent_linearizable:
  assumes "csteps_nt L (init_config d rs) c" and "db_inv d" and "all_done c"
  shows "\<exists>order. distinct order \<and> set order = {..<length rs}
           \<and> map Some (fst (app_run L d (map (\<lambda>k. rs ! k) order))) =
               map (\<lambda>k. done_answer (threads c ! k)) order
           \<and> get_db (snd (app_run L d (map (\<lambda>k. rs ! k) order))) = get_db (cdb c)"
proof -
  from csteps_nt_inv [OF assms(1,2)] obtain order where len: "length (threads c) = length rs"
    and lin: "lin_order L d rs c order"
    by (auto simp: lin_inv_def)
  from assms(3) len have "{k. k < length rs \<and> is_done (threads c ! k)} = {..<length rs}"
    by (auto simp: all_done_def list_all_length)
  with lin show ?thesis by (auto simp: lin_order_def)
qed

theorem concurrent_linearizable_witness:
  "\<exists>order. distinct order \<and> set order = {..<length sample_regs}
     \<and> map Some (fst (app_run sample_libs None (map (\<lambda>k. sample_regs ! k) order))) =
         map (\<lambda>k. done_answer (threads sample_final ! k)) order
     \<and> get_db (snd (app_run sample_libs None (map (\<lambda>k. sample_regs ! k) order))) =
         get_db (cdb sample_final)"
  by (rule concurrent_linearizable [OF sample_run_nt])
     (simp_all add: db_inv_def all_done_def sample_final_def)

end
