(* ===== verification/Spec2Isabelle.thy ===== *)
theory Spec2Isabelle
  imports Linearizability
begin

text \<open>
  \<^bold>\<open>flask-auth-basic: a verification development.\<close>

  The program (src/flask-user-auth-api) is a Flask service of three routes over one
  SQLite table. \<open>/register\<close> hashes the password with werkzeug's
  \<open>generate_password_hash\<close> and INSERTs the user into the table \<open>users\<close>
  (database.py, \<open>get_db\<close>: \<open>id INTEGER PRIMARY KEY AUTOINCREMENT, username TEXT
  UNIQUE, password TEXT\<close>); \<open>/login\<close> SELECTs the row, checks the password with
  \<open>check_password_hash\<close> and issues an HS256 JWT with PyJWT, whose claims are the
  username and an expiry two hours ahead; \<open>/protected\<close> decodes the
  \<open>Authorization\<close> header with PyJWT. The secret key is a constant of app.py.

  \<^bold>\<open>Theories.\<close>
  \<^item> Prelude: the Python values the handlers see (\<open>json\<close>), \<open>dict.get\<close>
    (\<open>py_get\<close>), \<open>str(int)\<close> and \<open>int(str)\<close> (\<open>int_str\<close>,
    \<open>parse_int\<close>, with their round trip), \<open>str.split\<close>/\<open>rsplit\<close> and the hex
    encoding of digests, with the list lemmas shared by the components.
  \<^item> Store (database.py and the two SQL statements of app.py): the table as a record
    of rows and the AUTOINCREMENT sequence entry; \<open>get_db\<close>; parameter binding
    (\<open>sql_bind\<close>), TEXT affinity, the INSERT with its row id allocation
    (SQLITE_FULL at \<open>2^63 - 1\<close>) and UNIQUE check, and the SELECT. The invariant
    \<open>users_inv\<close> (distinct usernames, increasing ids) is preserved by the INSERT; the
    abstraction \<open>creds\<close> maps the table to the specification's credential store, and
    the INSERT refines its \<open>create\<close>.
  \<^item> Hasher: werkzeug 3's \<open>generate_password_hash\<close> (scrypt, 16-character salt)
    and \<open>check_password_hash\<close> over the stored format \<open>method$salt$hexdigest\<close>,
    with the key derivation functions as parameters (\<open>kdf_prims\<close>): a generated hash
    verifies with its password, and with another one only on a KDF collision.
  \<^item> Codec and Token: PyJWT 2.10's HS256 \<open>jwt.encode\<close> and \<open>jwt.decode\<close>
    (segment splitting, header and algorithm check, signature check, the registered
    claims in PyJWT's order) over primitives that satisfy round-trip laws (Codec gives
    a concrete instance); the application's \<open>issue_token\<close> and \<open>verify_token\<close>;
    the token lifecycle Valid, Expired, Rejected as an inductive relation.
  \<^item> App (app.py): the handlers \<open>register\<close>, \<open>login\<close> and \<open>protected\<close> as
    functions from a request and the database to a response and the new database;
    uncaught exceptions become \<open>InternalError\<close> (500), the bare \<open>except:\<close>
    clauses their 400 and 403 answers. \<open>app_step\<close> routes a request, \<open>app_run\<close>
    serves a sequence, \<open>reachable\<close> is the set of databases a run produces.
    \<open>register_except\<close> is the bare \<open>except:\<close> of \<open>register\<close>: every
    \<open>sqlite3\<close> error of the INSERT, the lock timeout of Concurrency included,
    goes through it.
  \<^item> Concurrency (\<open>app.run\<close>: Werkzeug's threaded development server, one sqlite3
    connection per request): each request is a thread (\<open>thread\<close>) whose steps are
    the statements that touch users.db; \<open>cstep\<close> interleaves them over a
    configuration (\<open>config\<close>: the committed table, the holder of SQLite's write
    lock, the threads). The INSERT of \<open>register\<close> takes the lock, the commit
    publishes the row and releases it, a blocked INSERT may time out after sqlite3's
    five seconds (\<open>LockedError\<close>, which \<open>register_except\<close> answers);
    \<open>csteps_nt\<close> are the runs in which no INSERT timed out.
  \<^item> Linearizability: \<open>lin_inv\<close> relates a run of Concurrency to the sequential
    \<open>app_run\<close> of the requests that have answered, in the order of their
    linearization points (a failed INSERT or a commit, a SELECT, an early return).

  \<^bold>\<open>What is shown.\<close> In every reachable state the table satisfies the invariant,
  so usernames are unique, and the store is append-only. A successful registration
  makes the same credentials log in, and the token opens \<open>/protected\<close> for at least
  7199 seconds (PyJWT truncates \<open>exp\<close> to whole seconds); the token is refused after
  7200 seconds, when tampered with, and when its header names another algorithm; every
  accepted token carries a valid HMAC under the secret key. An unknown user and a wrong
  password get the same 401, and a username sqlite3 cannot bind gets a 500. The findings are proved too: a registered user with no
  password in the request gets a 500 where an unknown user gets 401 (username
  enumeration); \<open>register\<close> reports every INSERT failure, a list-valued username or
  a full table included, as an existing user; the integer 5 and the string "5" are one
  username; a NULL username is not unique; an expired token is answered like a forged
  one. Every stored password is a werkzeug hash in the default format. Under
  concurrency: the table invariant holds in every interleaving, at most one of any
  number of concurrent registrations of a username succeeds (the specification's only
  ordering guarantee), every complete run without a lock timeout is linearizable
  (some order of the sequential handlers gives every request the same answer and
  ends with the same table), every reachable configuration can be completed without
  any lock timeout (the holder of the lock always commits and releases it), and a
  lock timeout makes \<open>register\<close> refuse a fresh username as existing without
  storing it. The scenario below runs the
  specification's section 8 example through \<open>app_run\<close>.

  \<^bold>\<open>Bounds and time.\<close> Integers are Python's unbounded \<open>int\<close>; the program
  meets SQLite's 64-bit INTEGER twice, both modelled exactly: the largest row id
  \<open>2^63 - 1\<close> (SQLITE_FULL), and the binding of a Python \<open>int\<close> parameter, which
  raises \<open>OverflowError\<close> outside \<open>[-2^63, 2^63 - 1]\<close> (\<open>int64_fits\<close>): a 400
  in \<open>register\<close>, inside its \<open>try\<close>, a 500 in \<open>login\<close>. Time is in
  microseconds (\<open>datetime.utcnow()\<close>), the expiry in seconds (\<open>timegm\<close>). The
  JSON parser of Codec runs on fuel; the fuel \<open>length s\<close> is enough because every
  nested value is shorter than its text (\<open>jdepth_less_length\<close>). The threads of
  Concurrency need no fuel: a thread has at most three steps left (\<open>weight\<close>), and
  every step lowers their sum, which is the induction of the completion lemma.

  \<^bold>\<open>Not modelled.\<close> Flask's request parsing and response serialisation (a body is
  already parsed or refused); of SQLite's locking, only the write lock of the
  rollback journal (a SELECT reads the last committed table; the brief exclusive lock
  of a commit is part of the atomic commit step; the creation of the table by the
  very first requests is atomic); the bytes of scrypt, PBKDF2,
  HMAC-SHA256, base64url and \<open>json\<close> (parameters with round-trip laws), the timing
  of the hash comparison, and the connections that \<open>get_db\<close> opens and never
  closes.
\<close>

text \<open>
  C16: the specification's example run: bob registers with pw123, a login with a wrong
  password is refused with 401, a login with pw123 returns a token, the token opens
  \<open>/protected\<close> within its lifetime, and an empty \<open>Authorization\<close> header gets 401.
\<close>

theorem spec_scenario:
  assumes "b64_ok (jwt L)" and "json_ok (jwt L)" and salt: "gen_salt 16 rnd = Some salt"
    and h: "scrypt (kdf L) ''pw123'' salt 32768 8 1 = Some h"
    and h': "scrypt (kdf L) ''wrong'' salt 32768 8 1 = Some h'" and "h' \<noteq> h"
    and "now' \<le> now + 7199000000"
  shows "fst (app_run L None
           [Register rnd (BodyJson (JObj [(''username'', JStr ''bob''), (''password'', JStr ''pw123'')])),
            Login now (BodyJson (JObj [(''username'', JStr ''bob''), (''password'', JStr ''wrong'')])),
            Login now (BodyJson (JObj [(''username'', JStr ''bob''), (''password'', JStr ''pw123'')])),
            Protected now' (Some (issue_token (jwt L) SECRET_KEY (JStr ''bob'') now)),
            Protected now' (Some [])]) =
         [resp 200 UserCreated, resp 401 InvalidCredentials,
          resp 200 (TokenIs (issue_token (jwt L) SECRET_KEY (JStr ''bob'') now)),
          resp 200 AccessAllowed, resp 401 TokenMissing]"
proof -
  let ?ph = "scrypt_method 32768 8 1 @ ''$'' @ salt @ ''$'' @ hex_str h"
  let ?t = "\<lparr>rows = [\<lparr>row_id = 1, row_username = Some ''bob'', row_password = Some ?ph\<rparr>], seq = 1\<rparr>"
  have gen: "generate_password_hash (kdf L) rnd (JStr ''pw123'') = Inr ?ph"
    using generate_password_hash_salt [OF salt] h by simp
  have reg: "register L rnd (BodyJson (JObj [(''username'', JStr ''bob''), (''password'', JStr ''pw123'')])) None =
               (resp 200 UserCreated, Some ?t)"
    using gen by (simp add: register_def py_get_def execute_insert_def insert_user_def get_db_def
                            empty_users_def next_rowid_def username_taken_def max_rowid_def)
  have sel: "select_user ?t (SText ''bob'') = Some \<lparr>row_id = 1, row_username = Some ''bob'', row_password = Some ?ph\<rparr>"
    by (simp add: select_user_def)
  have "check_password_hash (kdf L) ?ph (JStr ''wrong'') = Inr False"
    using check_generated_hash_other [OF gen salt, of "''wrong''"] h h' \<open>h' \<noteq> h\<close> by simp
  then have l1: "login L now (BodyJson (JObj [(''username'', JStr ''bob''), (''password'', JStr ''wrong'')])) (Some ?t) =
                   (resp 401 InvalidCredentials, Some ?t)"
    using login_found [OF _ sel] by (simp add: py_get_def)
  have "check_password_hash (kdf L) ?ph (JStr ''pw123'') = Inr True"
    by (rule check_generated_hash [OF gen])
  then have l2: "login L now (BodyJson (JObj [(''username'', JStr ''bob''), (''password'', JStr ''pw123'')])) (Some ?t) =
                   (resp 200 (TokenIs (issue_token (jwt L) SECRET_KEY (JStr ''bob'') now)), Some ?t)"
    using login_found [OF _ sel] by (simp add: py_get_def)
  have "now' < (now div 1000000 + token_ttl) * 1000000"
    using login_exp_bounds(1) [of now] assms(7) by simp
  then have p1: "protected L now' (Some (issue_token (jwt L) SECRET_KEY (JStr ''bob'') now)) = resp 200 AccessAllowed"
    using assms(1,2) by (simp add: protected_def issue_token_not_Nil verify_issued)
  show ?thesis
    by (simp only: app_run.simps app_step.simps reg l1 l2 p1 Let_def prod.case) (simp add: protected_def)
qed

theorem spec_scenario_witness:
  "fst (app_run sample_libs None
     [Register (\<lambda>i. i) (BodyJson (JObj [(''username'', JStr ''bob''), (''password'', JStr ''pw123'')])),
      Login 0 (BodyJson (JObj [(''username'', JStr ''bob''), (''password'', JStr ''wrong'')])),
      Login 0 (BodyJson (JObj [(''username'', JStr ''bob''), (''password'', JStr ''pw123'')])),
      Protected 1000000 (Some (issue_token (jwt sample_libs) SECRET_KEY (JStr ''bob'') 0)),
      Protected 1000000 (Some [])]) =
   [resp 200 UserCreated, resp 401 InvalidCredentials,
    resp 200 (TokenIs (issue_token (jwt sample_libs) SECRET_KEY (JStr ''bob'') 0)),
    resp 200 AccessAllowed, resp 401 TokenMissing]"
proof -
  have j: "b64_ok (jwt sample_libs)" "json_ok (jwt sample_libs)"
    by (simp_all add: sample_libs_def sample_jwt_ok)
  have k: "scrypt (kdf sample_libs) ''pw123'' ''abcdefghijklmnop'' 32768 8 1 = Some ''pw123''"
    "scrypt (kdf sample_libs) ''wrong'' ''abcdefghijklmnop'' 32768 8 1 = Some ''wrong''"
    by (simp_all add: sample_libs_def sample_kdf_def)
  show ?thesis
    by (rule spec_scenario [OF j sample_salts(1) k]) simp_all
qed

end
